theory Spec2Isabelle
  imports Main "HOL-Library.Multiset"
begin

section \<open>The resilient query wrapper\<close>

text \<open>
  \<^verbatim>\<open>safeDbQuery\<close> keeps two module-level variables, \<^verbatim>\<open>circuitOpen\<close> and
  \<^verbatim>\<open>circuitOpenedAt\<close>; they are the record \<open>breaker\<close>. Everything else the call can
  touch (the database, the network, the wall clock) is the world \<open>'w\<close>, and
  \<^verbatim>\<open>Date.now()\<close> is a reading \<open>clk\<close> of the world. An asynchronous operation is a
  function from the world to a settled promise and the world it leaves behind: it
  either resolves with a value or rejects.
\<close>

record breaker =
  circuitOpen :: bool
  circuitOpenedAt :: int

definition breaker0 :: breaker where
  "breaker0 = \<lparr>circuitOpen = False, circuitOpenedAt = 0\<rparr>"

definition CIRCUIT_TTL_MS :: int where
  "CIRCUIT_TTL_MS = 30000"

datatype 'a settled = Resolved 'a | Rejected

type_synonym ('a, 'w) query = "'w \<Rightarrow> 'a settled \<times> 'w"

record 'a queried =
  data :: 'a
  fromDb :: bool

definition safeDbQuery ::
  "('w \<Rightarrow> int) \<Rightarrow> ('a, 'w) query \<Rightarrow> 'a \<Rightarrow> breaker \<times> 'w \<Rightarrow> 'a queried \<times> breaker \<times> 'w" where
  "safeDbQuery clk queryFn fallback s =
     (let b = fst s; w = snd s in
      if circuitOpen b \<and> \<not> (clk w - circuitOpenedAt b > CIRCUIT_TTL_MS)
      then (\<lparr>data = fallback, fromDb = False\<rparr>, b, w)
      else
        let b1 = (if circuitOpen b then b\<lparr>circuitOpen := False\<rparr> else b) in
        case queryFn w of
          (Resolved d, w') \<Rightarrow> (\<lparr>data = d, fromDb = True\<rparr>, b1, w')
        | (Rejected, w') \<Rightarrow>
            (\<lparr>data = fallback, fromDb = False\<rparr>,
             b1\<lparr>circuitOpen := True, circuitOpenedAt := clk w'\<rparr>, w'))"

text \<open>
  A sequence of calls. Between two calls the world moves on by itself (time passes):
  that is an \<open>Env\<close> step. \<open>run\<close> records, for every call, the clock reading at its
  entry and what it returned.
\<close>

datatype ('a, 'w) event = Call "('a, 'w) query" 'a | Env "'w \<Rightarrow> 'w"

fun run ::
  "('w \<Rightarrow> int) \<Rightarrow> ('a, 'w) event list \<Rightarrow> breaker \<times> 'w \<Rightarrow> (int \<times> 'a queried) list \<times> breaker \<times> 'w" where
  "run clk [] s = ([], s)"
| "run clk (Env f # es) s = run clk es (fst s, f (snd s))"
| "run clk (Call q fb # es) s =
     (let r = safeDbQuery clk q fb s; rest = run clk es (snd r)
      in ((clk (snd s), fst r) # fst rest, snd rest))"

text \<open>What a sequence of calls returns and leaves behind when no operation is invoked.\<close>

fun fallbacks :: "('a, 'w) event list \<Rightarrow> 'a queried list" where
  "fallbacks [] = []"
| "fallbacks (Env f # es) = fallbacks es"
| "fallbacks (Call q fb # es) = \<lparr>data = fb, fromDb = False\<rparr> # fallbacks es"

fun elapse :: "('a, 'w) event list \<Rightarrow> 'w \<Rightarrow> 'w" where
  "elapse [] w = w"
| "elapse (Env f # es) w = elapse es (f w)"
| "elapse (Call q fb # es) w = elapse es w"

definition blocked :: "('w \<Rightarrow> int) \<Rightarrow> breaker \<times> 'w \<Rightarrow> bool" where
  "blocked clk s \<longleftrightarrow> circuitOpen (fst s) \<and> clk (snd s) - circuitOpenedAt (fst s) \<le> CIRCUIT_TTL_MS"

definition reopened :: "breaker \<Rightarrow> breaker" where
  "reopened b = (if circuitOpen b then b\<lparr>circuitOpen := False\<rparr> else b)"

text \<open>
  A small concrete world for examples: the wall clock in milliseconds and the number
  of operations that have run. \<open>flaky\<close> takes 5 ms and rejects, \<open>steady\<close> takes 1 ms and
  resolves with 42; both count themselves.
\<close>

definition flaky :: "(nat, int \<times> nat) query" where
  "flaky w = (Rejected, (fst w + 5, snd w + 1))"

definition steady :: "(nat, int \<times> nat) query" where
  "steady w = (Resolved 42, (fst w + 1, snd w + 1))"

definition wait :: "int \<Rightarrow> int \<times> nat \<Rightarrow> int \<times> nat" where
  "wait ms w = (fst w + ms, snd w)"

section \<open>The registry fetch loops\<close>

text \<open>
  The two fetchers of the indexer page through an upstream over HTTP. The upstream is a
  function from the request (the cursor, or the URL) to what \<^verbatim>\<open>fetch\<close> gives back:
  \<open>NotOk\<close> stands for a network error, a status other than 200 and a body that is not
  JSON, all of which throw inside the \<^verbatim>\<open>try\<close> block. Turning one page's entries into
  \<^verbatim>\<open>RawMCPServer\<close> records is the parameter \<open>toRaw\<close> (\<open>None\<close> when the page is
  malformed and the loop body throws). Every function also returns the number of
  \<^verbatim>\<open>fetch\<close> calls it made.
\<close>

datatype 'p fetched = NotOk | Ok 'p

record 'e OfficialMCPResponse =
  servers :: "'e list"
  nextCursor :: "string option"

record 'e DockerHubResponse =
  results :: "'e list"
  "next" :: "string option"

definition truthy :: "string option \<Rightarrow> bool" where
  "truthy s = (case s of None \<Rightarrow> False | Some t \<Rightarrow> t \<noteq> [])"

definition maxPages :: nat where
  "maxPages = 20"

text \<open>
  \<^verbatim>\<open>do { ... } while (cursor && pageCount < maxPages)\<close>: one call of \<open>officialLoop\<close>
  is one run of the body, with the loop test at its end.
\<close>

function officialLoop ::
  "(string option \<Rightarrow> 'e OfficialMCPResponse fetched) \<Rightarrow> ('e list \<Rightarrow> 'r list option) \<Rightarrow>
   string option \<Rightarrow> nat \<Rightarrow> 'r list \<Rightarrow> nat \<Rightarrow> 'r list \<times> nat" where
  "officialLoop registry toRaw cursor pageCount acc fetches =
     (case registry (if truthy cursor then cursor else None) of
        NotOk \<Rightarrow> ([], fetches + 1)
      | Ok page \<Rightarrow>
          (case toRaw (servers page) of
             None \<Rightarrow> ([], fetches + 1)
           | Some rs \<Rightarrow>
               if truthy (nextCursor page) \<and> pageCount + 1 < maxPages
               then officialLoop registry toRaw (nextCursor page) (pageCount + 1) (acc @ rs)
                      (fetches + 1)
               else (acc @ rs, fetches + 1)))"
  by pat_completeness auto
termination
  by (relation "measure (\<lambda>(registry, toRaw, cursor, pageCount, acc, fetches). maxPages - pageCount)")
     auto

declare officialLoop.simps [simp del]

definition fetchOfficialMCPServers ::
  "(string option \<Rightarrow> 'e OfficialMCPResponse fetched) \<Rightarrow> ('e list \<Rightarrow> 'r list option) \<Rightarrow>
   'r list \<times> nat" where
  "fetchOfficialMCPServers registry toRaw = officialLoop registry toRaw None 0 [] 0"

text \<open>
  \<^verbatim>\<open>while (url) { ... url = data.next || null }\<close> has no page counter. The recursion
  is on fuel: \<open>None\<close> in the first component says that the fuel ran out before the loop
  left, and the second component still counts the fetches made.
\<close>

fun dockerLoop ::
  "nat \<Rightarrow> (string \<Rightarrow> 'e DockerHubResponse fetched) \<Rightarrow> ('e list \<Rightarrow> 'r list option) \<Rightarrow>
   string option \<Rightarrow> 'r list \<Rightarrow> nat \<Rightarrow> 'r list option \<times> nat" where
  "dockerLoop fuel hub toRaw url acc fetches =
     (case url of
        None \<Rightarrow> (Some acc, fetches)
      | Some u \<Rightarrow>
          if u = [] then (Some acc, fetches)
          else
            (case fuel of
               0 \<Rightarrow> (None, fetches)
             | Suc k \<Rightarrow>
                 (case hub u of
                    NotOk \<Rightarrow> (Some [], fetches + 1)
                  | Ok page \<Rightarrow>
                      (case toRaw (results page) of
                         None \<Rightarrow> (Some [], fetches + 1)
                       | Some rs \<Rightarrow> dockerLoop k hub toRaw (next page) (acc @ rs) (fetches + 1)))))"

definition dockerHubUrl :: string where
  "dockerHubUrl = ''https://hub.docker.com/v2/namespaces/mcp/repositories?page_size=100''"

definition fetchDockerMCPServers ::
  "nat \<Rightarrow> (string \<Rightarrow> 'e DockerHubResponse fetched) \<Rightarrow> ('e list \<Rightarrow> 'r list option) \<Rightarrow>
   'r list option \<times> nat" where
  "fetchDockerMCPServers fuel hub toRaw = dockerLoop fuel hub toRaw (Some dockerHubUrl) [] 0"

text \<open>A Docker Hub that answers every page with one repository and a link to a next page.\<close>

definition endlessHub :: "string \<Rightarrow> nat DockerHubResponse fetched" where
  "endlessHub u = Ok \<lparr>results = [length u], next = Some (u @ ''&page=next'')\<rparr>"

text \<open>The same for the official registry: every page names a next cursor.\<close>

definition endlessRegistry :: "string option \<Rightarrow> nat OfficialMCPResponse fetched" where
  "endlessRegistry c = Ok \<lparr>servers = [0], nextCursor = Some ''more''\<rparr>"

section \<open>Strings\<close>

text \<open>
  JavaScript strings are modelled as \<open>string\<close>; the functions below are the string
  methods and regular expressions the sources use, on ASCII text. \<open>toLowerCase\<close> maps
  \<^verbatim>\<open>A\<close>..\<^verbatim>\<open>Z\<close> to \<^verbatim>\<open>a\<close>..\<^verbatim>\<open>z\<close> and leaves every other character alone.
\<close>

definition charCode :: "char \<Rightarrow> nat" where
  "charCode c = of_char c"

definition lowerChar :: "char \<Rightarrow> char" where
  "lowerChar c = (if 65 \<le> charCode c \<and> charCode c \<le> 90 then char_of (charCode c + 32) else c)"

definition toLowerCase :: "string \<Rightarrow> string" where
  "toLowerCase s = map lowerChar s"

text \<open>\<^verbatim>\<open>s.startsWith(p)\<close> and \<^verbatim>\<open>s.includes(p)\<close>.\<close>

fun startsWith :: "string \<Rightarrow> string \<Rightarrow> bool" where
  "startsWith s [] = True"
| "startsWith [] (p # ps) = False"
| "startsWith (c # cs) (p # ps) = (c = p \<and> startsWith cs ps)"

fun str_includes :: "string \<Rightarrow> string \<Rightarrow> bool" where
  "str_includes [] p = (p = [])"
| "str_includes (c # cs) p = (startsWith (c # cs) p \<or> str_includes cs p)"

text \<open>The character class \<^verbatim>\<open>[a-z0-9-]\<close>, and \<^verbatim>\<open>.replace(/[^a-z0-9-]/g, '-')\<close>.\<close>

definition slugChar :: "char \<Rightarrow> bool" where
  "slugChar c \<longleftrightarrow>
     (97 \<le> charCode c \<and> charCode c \<le> 122) \<or> (48 \<le> charCode c \<and> charCode c \<le> 57)
     \<or> c = CHR ''-''"

definition hyphenate :: "string \<Rightarrow> string" where
  "hyphenate s = map (\<lambda>c. if slugChar c then c else CHR ''-'') s"

text \<open>\<^verbatim>\<open>.replace(/-+/g, '-')\<close>: every run of hyphens becomes one hyphen.\<close>

fun squeeze :: "string \<Rightarrow> string" where
  "squeeze (c # d # cs) =
     (if c = CHR ''-'' \<and> d = CHR ''-'' then squeeze (d # cs) else c # squeeze (d # cs))"
| "squeeze cs = cs"

text \<open>\<^verbatim>\<open>name.split('/').pop()\<close>: what follows the last slash.\<close>

definition lastSegment :: "string \<Rightarrow> string" where
  "lastSegment s = rev (takeWhile (\<lambda>c. c \<noteq> CHR ''/'') (rev s))"

text \<open>\<^verbatim>\<open>x || d\<close> on an optional string: the empty string is falsy.\<close>

definition orElse :: "string option \<Rightarrow> string \<Rightarrow> string" where
  "orElse x d = (case x of None \<Rightarrow> d | Some s \<Rightarrow> if s = [] then d else s)"

definition orNull :: "string option \<Rightarrow> string option" where
  "orNull x = (case x of None \<Rightarrow> None | Some s \<Rightarrow> if s = [] then None else Some s)"

text \<open>\<^verbatim>\<open>n || 0\<close> on an optional number.\<close>

definition orZero :: "int option \<Rightarrow> int" where
  "orZero x = (case x of None \<Rightarrow> 0 | Some n \<Rightarrow> n)"

section \<open>Short names and slugs\<close>

definition getShortName :: "string \<Rightarrow> string" where
  "getShortName name =
     (if name = [] then ''unknown''
      else
        let baseName = (if str_includes name ''/'' then lastSegment name else name)
        in hyphenate (toLowerCase (if baseName = [] then ''unknown'' else baseName)))"

text \<open>The name the Docker Hub fetcher gives a repository: \<^verbatim>\<open>name.toLowerCase().replace(/[^a-z0-9-]/g, '-')\<close>.\<close>

definition dockerShortName :: "string \<Rightarrow> string" where
  "dockerShortName name = hyphenate (toLowerCase name)"

definition generateSlug :: "string \<Rightarrow> string \<Rightarrow> string" where
  "generateSlug name sourceRegistry =
     (let baseName = squeeze (hyphenate (toLowerCase name))
      in sourceRegistry @ ''-'' @ baseName)"

text \<open>
  The normalization as the specification words it: lowercase, every character outside
  \<^verbatim>\<open>[a-z0-9-]\<close> replaced by a hyphen, hyphen runs collapsed.
\<close>

definition spec_normalize :: "string \<Rightarrow> string" where
  "spec_normalize name = squeeze (map (\<lambda>c. if slugChar c then c else CHR ''-'') (map lowerChar name))"

section \<open>The database\<close>

text \<open>
  Modelled from the spec: the table declarations (\<^verbatim>\<open>@/lib/db/schema\<close>) are not among
  the sources. The columns below are the ones the queries read and write; a primary key
  is a serial number, a timestamp is a number of milliseconds, and a column that an
  \<^verbatim>\<open>INSERT\<close> does not supply takes the default named in \<open>insertMCPServer\<close>.

  The four JSON columns of an MCP server row are text in the table and parsed arrays in
  \<^verbatim>\<open>MCPServerWithParsedJSON\<close>; the row type is polymorphic in them.
\<close>

record 'p MCPServerRow =
  mcp_id :: nat
  mcp_name :: string
  mcp_displayName :: string
  mcp_slug :: string
  mcp_description :: "string option"
  mcp_version :: "string option"
  mcp_category :: string
  mcp_tags :: "string list"
  mcp_serverType :: string
  mcp_vendor :: "string option"
  mcp_logoUrl :: "string option"
  mcp_sourceRegistry :: string
  mcp_sourceUrl :: "string option"
  mcp_githubUrl :: "string option"
  mcp_dockerUrl :: "string option"
  mcp_npmUrl :: "string option"
  mcp_documentationUrl :: "string option"
  mcp_githubStars :: "int option"
  mcp_dockerPulls :: "int option"
  mcp_npmDownloads :: "int option"
  mcp_packages :: 'p
  mcp_remotes :: 'p
  mcp_environmentVariables :: 'p
  mcp_installationMethods :: 'p
  mcp_verificationStatus :: "string option"
  mcp_active :: bool
  mcp_lastIndexedAt :: "int option"
  mcp_lastStatsSync :: "int option"
  mcp_createdAt :: int
  mcp_updatedAt :: int

type_synonym MCPServerDB = "string option MCPServerRow"

record MCPServerStatsRow =
  st_mcpServerId :: nat
  st_githubStars :: int
  st_dockerPulls :: int
  st_npmDownloads :: int

record PluginRow =
  pl_id :: nat
  pl_name :: string
  pl_namespace :: "string option"
  pl_slug :: string
  pl_description :: "string option"
  pl_version :: "string option"
  pl_author :: "string option"
  pl_type :: string
  pl_categories :: "string list option"
  pl_keywords :: "string list option"
  pl_repository :: "string option"
  pl_stars :: "int option"
  pl_installCommand :: "string option"
  pl_marketplaceId :: "string option"
  pl_marketplaceName :: "string option"
  pl_updatedAt :: int
  pl_active :: bool

record MarketplaceRow =
  mk_id :: string
  mk_name :: string
  mk_displayName :: string
  mk_description :: "string option"
  mk_url :: "string option"
  mk_repository :: string
  mk_installCommand :: "string option"
  mk_namespace :: string
  mk_pluginCount :: int
  mk_skillCount :: int
  mk_categories :: "string list option"
  mk_badges :: "string list option"
  mk_maintainerName :: "string option"
  mk_maintainerGithub :: "string option"
  mk_stars :: int
  mk_installs :: int
  mk_verified :: bool
  mk_lastIndexedAt :: "int option"
  mk_updatedAt :: int
  mk_active :: bool

record database =
  mcpServers :: "MCPServerDB list"
  mcpServerStats :: "MCPServerStatsRow list"
  plugins :: "PluginRow list"
  marketplaces :: "MarketplaceRow list"

text \<open>
  The world of the data-access layer: the database, the wall clock, and the fate of the
  statements to come. Each statement sent to the database takes the next entry of
  \<open>fates\<close>: whether the connection fails for it, and how many milliseconds it takes;
  with no entry left the statement goes through at once. A statement is a partial
  function on the database (\<open>None\<close>: the database itself raises an error), and \<open>exec\<close>
  is the promise that \<^verbatim>\<open>await\<close> waits for.
\<close>

record world =
  db :: database
  now :: int
  fates :: "(bool \<times> int) list"

definition exec :: "(database \<Rightarrow> ('a \<times> database) option) \<Rightarrow> ('a, world) query" where
  "exec stmt w =
     (let fate = (case fates w of [] \<Rightarrow> (False, 0) | x # xs \<Rightarrow> x);
          w1 = w\<lparr>now := now w + snd fate, fates := tl (fates w)\<rparr>
      in if fst fate then (Rejected, w1)
         else (case stmt (db w) of
                 None \<Rightarrow> (Rejected, w1)
               | Some (a, d) \<Rightarrow> (Resolved a, w1\<lparr>db := d\<rparr>)))"

text \<open>A statement that only reads.\<close>

definition reading :: "(database \<Rightarrow> 'a option) \<Rightarrow> database \<Rightarrow> ('a \<times> database) option" where
  "reading f d = (case f d of None \<Rightarrow> None | Some a \<Rightarrow> Some (a, d))"

text \<open>
  \<^verbatim>\<open>Promise.all([p, q])\<close>: both statements are sent; the result rejects when either
  rejects.
\<close>

definition promiseAll :: "('a, 'w) query \<Rightarrow> ('b, 'w) query \<Rightarrow> ('a \<times> 'b, 'w) query" where
  "promiseAll p q w =
     (case p w of
        (ra, w1) \<Rightarrow>
          (case q w1 of
             (rb, w2) \<Rightarrow>
               (case ra of
                  Rejected \<Rightarrow> (Rejected, w2)
                | Resolved a \<Rightarrow>
                    (case rb of Rejected \<Rightarrow> (Rejected, w2) | Resolved b \<Rightarrow> (Resolved (a, b), w2)))))"

section \<open>The indexer's upsert\<close>

text \<open>
  \<^verbatim>\<open>RawMCPServer\<close>, the shape both fetchers normalize an upstream record into. The
  arrays of unknown JSON values are values of a type \<open>'j\<close>, and \<^verbatim>\<open>JSON.stringify\<close> is
  the parameter \<open>stringify\<close>.
\<close>

record Verification =
  status :: string
  maintainer :: "string option"

record Sources =
  github :: "string option"
  docker :: "string option"
  npm :: "string option"
  official :: "string option"
  documentation :: "string option"

record Stats =
  github_stars :: "int option"
  docker_pulls :: "int option"
  npm_downloads :: "int option"
  last_updated :: "string option"

record SourceRegistry =
  registry_type :: string
  url :: "string option"

record 'j RawMCPServer =
  raw_name :: string
  raw_display_name :: string
  raw_full_name :: "string option"
  raw_category :: string
  raw_description :: string
  raw_version :: "string option"
  raw_server_type :: "string option"
  raw_vendor :: "string option"
  raw_logo_url :: "string option"
  raw_verification :: "Verification option"
  raw_sources :: "Sources option"
  raw_stats :: "Stats option"
  raw_source_registry :: "SourceRegistry option"
  raw_packages :: "'j option"
  raw_remotes :: "'j option"
  raw_environment_variables :: "'j option"
  raw_installation_methods :: "'j option"
  raw_tags :: "string list option"

text \<open>\<^verbatim>\<open>obj?.field\<close> on an optional object with an optional field.\<close>

definition dot :: "'a option \<Rightarrow> ('a \<Rightarrow> 'b option) \<Rightarrow> 'b option" where
  "dot obj field = (case obj of None \<Rightarrow> None | Some x \<Rightarrow> field x)"

text \<open>\<^verbatim>\<open>n || 0\<close> stored in a nullable column: zero and missing both give 0.\<close>

definition orZeroCol :: "int option \<Rightarrow> int option" where
  "orZeroCol x = Some (orZero x)"

text \<open>
  The row in the \<^verbatim>\<open>.values({...})\<close> of \<^verbatim>\<open>upsertMCPServer\<close>. \<open>jsNow\<close> is
  \<^verbatim>\<open>new Date()\<close>. The columns the call does not supply are filled by the insert.
\<close>

definition upsertValues ::
  "('j \<Rightarrow> string) \<Rightarrow> 'j RawMCPServer \<Rightarrow> string \<Rightarrow> int \<Rightarrow> MCPServerDB" where
  "upsertValues stringify server sourceRegistry jsNow =
     \<lparr>mcp_id = 0,
      mcp_name = raw_name server,
      mcp_displayName = raw_display_name server,
      mcp_slug = generateSlug (raw_name server) sourceRegistry,
      mcp_description = orNull (Some (raw_description server)),
      mcp_version = orNull (raw_version server),
      mcp_category = orElse (Some (raw_category server)) ''utilities'',
      mcp_tags = (case raw_tags server of None \<Rightarrow> [] | Some ts \<Rightarrow> ts),
      mcp_serverType = orElse (raw_server_type server) ''stdio'',
      mcp_vendor = orNull (raw_vendor server),
      mcp_logoUrl = orNull (raw_logo_url server),
      mcp_sourceRegistry = sourceRegistry,
      mcp_sourceUrl = orNull (dot (raw_source_registry server) url),
      mcp_githubUrl = orNull (dot (raw_sources server) github),
      mcp_dockerUrl = orNull (dot (raw_sources server) docker),
      mcp_npmUrl = orNull (dot (raw_sources server) npm),
      mcp_documentationUrl =
        (case orNull (dot (raw_sources server) documentation) of
           Some u \<Rightarrow> Some u
         | None \<Rightarrow> orNull (dot (raw_sources server) official)),
      mcp_githubStars = orZeroCol (dot (raw_stats server) github_stars),
      mcp_dockerPulls = orZeroCol (dot (raw_stats server) docker_pulls),
      mcp_npmDownloads = orZeroCol (dot (raw_stats server) npm_downloads),
      mcp_packages = map_option stringify (raw_packages server),
      mcp_remotes = map_option stringify (raw_remotes server),
      mcp_environmentVariables = map_option stringify (raw_environment_variables server),
      mcp_installationMethods = map_option stringify (raw_installation_methods server),
      mcp_verificationStatus =
        Some (orElse (map_option status (raw_verification server)) ''community''),
      mcp_active = True,
      mcp_lastIndexedAt = Some jsNow,
      mcp_lastStatsSync = None,
      mcp_createdAt = 0,
      mcp_updatedAt = 0\<rparr>"

text \<open>
  The \<^verbatim>\<open>set\<close> of \<^verbatim>\<open>.onConflictDoUpdate\<close>: the columns taken from the proposed row
  (\<^verbatim>\<open>EXCLUDED\<close>), and \<^verbatim>\<open>updatedAt = NOW()\<close>. The columns \<^verbatim>\<open>name\<close>, \<^verbatim>\<open>slug\<close>,
  \<^verbatim>\<open>sourceRegistry\<close> and \<^verbatim>\<open>active\<close> are not in the list.
\<close>

definition conflictUpdate :: "MCPServerDB \<Rightarrow> int \<Rightarrow> MCPServerDB \<Rightarrow> MCPServerDB" where
  "conflictUpdate excluded sqlNow row =
     row\<lparr>mcp_displayName := mcp_displayName excluded,
         mcp_description := mcp_description excluded,
         mcp_version := mcp_version excluded,
         mcp_category := mcp_category excluded,
         mcp_tags := mcp_tags excluded,
         mcp_serverType := mcp_serverType excluded,
         mcp_vendor := mcp_vendor excluded,
         mcp_logoUrl := mcp_logoUrl excluded,
         mcp_sourceUrl := mcp_sourceUrl excluded,
         mcp_githubUrl := mcp_githubUrl excluded,
         mcp_dockerUrl := mcp_dockerUrl excluded,
         mcp_npmUrl := mcp_npmUrl excluded,
         mcp_documentationUrl := mcp_documentationUrl excluded,
         mcp_githubStars := mcp_githubStars excluded,
         mcp_dockerPulls := mcp_dockerPulls excluded,
         mcp_npmDownloads := mcp_npmDownloads excluded,
         mcp_packages := mcp_packages excluded,
         mcp_remotes := mcp_remotes excluded,
         mcp_environmentVariables := mcp_environmentVariables excluded,
         mcp_installationMethods := mcp_installationMethods excluded,
         mcp_verificationStatus := mcp_verificationStatus excluded,
         mcp_lastIndexedAt := mcp_lastIndexedAt excluded,
         mcp_updatedAt := sqlNow\<rparr>"

text \<open>
  Modelled from the spec: the defaults of the table. A fresh row takes the next serial
  number as its id and the statement's time as \<^verbatim>\<open>createdAt\<close> and \<^verbatim>\<open>updatedAt\<close>.
\<close>

definition freshId :: "MCPServerDB list \<Rightarrow> nat" where
  "freshId tbl = Suc (fold max (map mcp_id tbl) 0)"

definition insertMCPServer :: "MCPServerDB \<Rightarrow> int \<Rightarrow> MCPServerDB list \<Rightarrow> MCPServerDB list" where
  "insertMCPServer proposed sqlNow tbl =
     tbl @ [proposed\<lparr>mcp_id := freshId tbl, mcp_createdAt := sqlNow, mcp_updatedAt := sqlNow\<rparr>]"

text \<open>
  \<^verbatim>\<open>INSERT ... ON CONFLICT (slug) DO UPDATE SET ...\<close> on the table, whose \<^verbatim>\<open>slug\<close>
  column is unique: the row that holds the proposed slug is updated, and without such a
  row the proposed row is inserted.
\<close>

definition insertOnConflictDoUpdate ::
  "MCPServerDB \<Rightarrow> int \<Rightarrow> MCPServerDB list \<Rightarrow> MCPServerDB list" where
  "insertOnConflictDoUpdate proposed sqlNow tbl =
     (if mcp_slug proposed \<in> set (map mcp_slug tbl)
      then map (\<lambda>row. if mcp_slug row = mcp_slug proposed
                       then conflictUpdate proposed sqlNow row else row) tbl
      else insertMCPServer proposed sqlNow tbl)"

definition upsertMCPServer ::
  "('j \<Rightarrow> string) \<Rightarrow> 'j RawMCPServer \<Rightarrow> string \<Rightarrow> (bool, world) query" where
  "upsertMCPServer stringify server sourceRegistry w =
     (case exec (\<lambda>d. Some ((), d\<lparr>mcpServers :=
                    insertOnConflictDoUpdate (upsertValues stringify server sourceRegistry (now w))
                      (now w) (mcpServers d)\<rparr>)) w of
        (Rejected, w') \<Rightarrow> (Rejected, w')
      | (Resolved u, w') \<Rightarrow> (Resolved True, w'))"

text \<open>
  The loop of \<^verbatim>\<open>indexMCPServers\<close> over the records of one source, with its three
  counters \<^verbatim>\<open>indexed\<close>, \<^verbatim>\<open>failed\<close> and \<^verbatim>\<open>skipped\<close>.
\<close>

record counters =
  indexed :: nat
  failed :: nat
  skipped :: nat

fun indexServers ::
  "('j \<Rightarrow> string) \<Rightarrow> string \<Rightarrow> 'j RawMCPServer list \<Rightarrow> counters \<times> world \<Rightarrow> counters \<times> world" where
  "indexServers stringify sourceRegistry [] s = s"
| "indexServers stringify sourceRegistry (server # rest) s =
     (case upsertMCPServer stringify server sourceRegistry (snd s) of
        (Resolved wasIndexed, w') \<Rightarrow>
          indexServers stringify sourceRegistry rest
            (if wasIndexed then (fst s)\<lparr>indexed := indexed (fst s) + 1\<rparr>
             else (fst s)\<lparr>skipped := skipped (fst s) + 1\<rparr>, w')
      | (Rejected, w') \<Rightarrow>
          indexServers stringify sourceRegistry rest ((fst s)\<lparr>failed := failed (fst s) + 1\<rparr>, w'))"

text \<open>A row without the two timestamps that an upsert stamps.\<close>

definition unstamped :: "MCPServerDB \<Rightarrow> MCPServerDB" where
  "unstamped row = row\<lparr>mcp_lastIndexedAt := None, mcp_updatedAt := 0\<rparr>"

text \<open>
  What the upserts of the records \<open>recs\<close>, in their order, do to one row that is already
  in the table: each record with the row's slug overwrites it.
\<close>

fun rewriteRow ::
  "('j \<Rightarrow> string) \<Rightarrow> string \<Rightarrow> int \<Rightarrow> 'j RawMCPServer list \<Rightarrow> MCPServerDB \<Rightarrow> MCPServerDB" where
  "rewriteRow stringify sourceRegistry t [] row = row"
| "rewriteRow stringify sourceRegistry t (server # rest) row =
     rewriteRow stringify sourceRegistry t rest
       (if mcp_slug row = generateSlug (raw_name server) sourceRegistry
        then conflictUpdate (upsertValues stringify server sourceRegistry t) t row else row)"

text \<open>The table after the upserts of \<open>recs\<close>, all made at time \<open>t\<close>.\<close>

fun tableAfter ::
  "('j \<Rightarrow> string) \<Rightarrow> string \<Rightarrow> int \<Rightarrow> 'j RawMCPServer list \<Rightarrow> MCPServerDB list \<Rightarrow> MCPServerDB list" where
  "tableAfter stringify sourceRegistry t [] tbl = tbl"
| "tableAfter stringify sourceRegistry t (server # rest) tbl =
     tableAfter stringify sourceRegistry t rest
       (insertOnConflictDoUpdate (upsertValues stringify server sourceRegistry t) t tbl)"

text \<open>
  Examples: a record as a fetcher would produce it from an upstream name and a
  description, an empty database, and a world whose database answers every statement.
\<close>

definition exampleRaw :: "string \<Rightarrow> string \<Rightarrow> string RawMCPServer" where
  "exampleRaw name description =
     \<lparr>raw_name = name, raw_display_name = name, raw_full_name = None,
      raw_category = ''utilities'', raw_description = description, raw_version = None,
      raw_server_type = Some ''stdio'', raw_vendor = None, raw_logo_url = None,
      raw_verification = Some \<lparr>status = ''verified'', maintainer = None\<rparr>,
      raw_sources = None, raw_stats = None, raw_source_registry = None,
      raw_packages = None, raw_remotes = None, raw_environment_variables = None,
      raw_installation_methods = None, raw_tags = Some []\<rparr>"

definition emptyDatabase :: database where
  "emptyDatabase = \<lparr>mcpServers = [], mcpServerStats = [], plugins = [], marketplaces = []\<rparr>"

definition world0 :: world where
  "world0 = \<lparr>db = emptyDatabase, now = 1000, fates = []\<rparr>"

definition counters0 :: counters where
  "counters0 = \<lparr>indexed = 0, failed = 0, skipped = 0\<rparr>"

section \<open>The stats syncer\<close>

text \<open>
  \<^verbatim>\<open>await p\<close> followed by the rest of the function: a rejection of \<open>p\<close> is thrown and
  leaves the function (up to the enclosing \<^verbatim>\<open>catch\<close>).
\<close>

definition andThen :: "('a, 'w) query \<Rightarrow> ('a \<Rightarrow> ('b, 'w) query) \<Rightarrow> ('b, 'w) query" where
  "andThen p k w = (case p w of (Rejected, w') \<Rightarrow> (Rejected, w') | (Resolved a, w') \<Rightarrow> k a w')"

definition resolve :: "'a \<Rightarrow> ('a, 'w) query" where
  "resolve a w = (Resolved a, w)"

text \<open>The columns \<^verbatim>\<open>syncMCPServerStats\<close> selects for every active server.\<close>

record SyncServer =
  sv_id :: nat
  sv_name :: string
  sv_sourceRegistry :: string
  sv_dockerUrl :: "string option"
  sv_githubUrl :: "string option"
  sv_githubStars :: "int option"
  sv_dockerPulls :: "int option"
  sv_npmDownloads :: "int option"

definition syncColumns :: "MCPServerDB \<Rightarrow> SyncServer" where
  "syncColumns row =
     \<lparr>sv_id = mcp_id row, sv_name = mcp_name row, sv_sourceRegistry = mcp_sourceRegistry row,
      sv_dockerUrl = mcp_dockerUrl row, sv_githubUrl = mcp_githubUrl row,
      sv_githubStars = mcp_githubStars row, sv_dockerPulls = mcp_dockerPulls row,
      sv_npmDownloads = mcp_npmDownloads row\<rparr>"

definition loadServers :: "database \<Rightarrow> (SyncServer list \<times> database) option" where
  "loadServers d = Some (map syncColumns (filter mcp_active (mcpServers d)), d)"

text \<open>\<^verbatim>\<open>db.update(mcpServers).set(...).where(eq(mcpServers.id, id))\<close>.\<close>

definition updateWhereId ::
  "nat \<Rightarrow> (MCPServerDB \<Rightarrow> MCPServerDB) \<Rightarrow> database \<Rightarrow> (unit \<times> database) option" where
  "updateWhereId i f d =
     Some ((), d\<lparr>mcpServers := map (\<lambda>row. if mcp_id row = i then f row else row) (mcpServers d)\<rparr>)"

text \<open>\<^verbatim>\<open>db.insert(mcpServerStats).values(...)\<close>.\<close>

definition insertStats :: "MCPServerStatsRow \<Rightarrow> database \<Rightarrow> (unit \<times> database) option" where
  "insertStats row d = Some ((), d\<lparr>mcpServerStats := mcpServerStats d @ [row]\<rparr>)"

definition setDockerPulls :: "int \<Rightarrow> int \<Rightarrow> MCPServerDB \<Rightarrow> MCPServerDB" where
  "setDockerPulls pulls jsNow row =
     row\<lparr>mcp_dockerPulls := Some pulls, mcp_lastStatsSync := Some jsNow, mcp_updatedAt := jsNow\<rparr>"

definition setGithubStars :: "int \<Rightarrow> int \<Rightarrow> MCPServerDB \<Rightarrow> MCPServerDB" where
  "setGithubStars stars jsNow row =
     row\<lparr>mcp_githubStars := Some stars, mcp_lastStatsSync := Some jsNow, mcp_updatedAt := jsNow\<rparr>"

definition dockerSnapshot :: "SyncServer \<Rightarrow> int \<Rightarrow> MCPServerStatsRow" where
  "dockerSnapshot server pulls =
     \<lparr>st_mcpServerId = sv_id server, st_githubStars = orZero (sv_githubStars server),
      st_dockerPulls = pulls, st_npmDownloads = orZero (sv_npmDownloads server)\<rparr>"

definition githubSnapshot :: "SyncServer \<Rightarrow> int \<Rightarrow> MCPServerStatsRow" where
  "githubSnapshot server stars =
     \<lparr>st_mcpServerId = sv_id server, st_githubStars = stars,
      st_dockerPulls = orZero (sv_dockerPulls server),
      st_npmDownloads = orZero (sv_npmDownloads server)\<rparr>"

text \<open>
  The body of the \<^verbatim>\<open>try\<close> block for one server. The two lookups
  \<^verbatim>\<open>fetchDockerStats\<close> and \<^verbatim>\<open>fetchGitHubStats\<close> go to the network and catch their own
  errors: each is a function that gives the number, or \<open>None\<close> for \<^verbatim>\<open>null\<close>. The result
  is the flag \<^verbatim>\<open>statsUpdated\<close>.
\<close>

definition syncDocker :: "(string \<Rightarrow> int option) \<Rightarrow> SyncServer \<Rightarrow> (bool, world) query" where
  "syncDocker fetchDockerStats server =
     (if truthy (sv_dockerUrl server) \<and> sv_sourceRegistry server = ''docker'' then
        (case fetchDockerStats (sv_name server) of
           None \<Rightarrow> resolve False
         | Some pulls \<Rightarrow>
             andThen (\<lambda>w. exec (updateWhereId (sv_id server) (setDockerPulls pulls (now w))) w)
               (\<lambda>u. andThen (exec (insertStats (dockerSnapshot server pulls)))
                  (\<lambda>u. resolve True)))
      else resolve False)"

definition syncGithub ::
  "(string \<Rightarrow> int option) \<Rightarrow> SyncServer \<Rightarrow> bool \<Rightarrow> (bool, world) query" where
  "syncGithub fetchGitHubStats server statsUpdated =
     (if truthy (sv_githubUrl server) then
        (case fetchGitHubStats (the (sv_githubUrl server)) of
           None \<Rightarrow> resolve statsUpdated
         | Some stars \<Rightarrow>
             andThen (\<lambda>w. exec (updateWhereId (sv_id server) (setGithubStars stars (now w))) w)
               (\<lambda>u. if \<not> statsUpdated
                     then andThen (exec (insertStats (githubSnapshot server stars)))
                            (\<lambda>u. resolve True)
                     else resolve True))
      else resolve statsUpdated)"

definition syncServer ::
  "(string \<Rightarrow> int option) \<Rightarrow> (string \<Rightarrow> int option) \<Rightarrow> SyncServer \<Rightarrow> (bool, world) query" where
  "syncServer fetchDockerStats fetchGitHubStats server =
     andThen (syncDocker fetchDockerStats server) (syncGithub fetchGitHubStats server)"

record StatsSyncResult =
  updated :: nat
  failed_syncs :: nat

text \<open>The \<^verbatim>\<open>for\<close> loop with its \<^verbatim>\<open>try\<close>/\<^verbatim>\<open>catch\<close> and the two counters.\<close>

fun syncLoop ::
  "(string \<Rightarrow> int option) \<Rightarrow> (string \<Rightarrow> int option) \<Rightarrow> SyncServer list \<Rightarrow>
   StatsSyncResult \<times> world \<Rightarrow> StatsSyncResult \<times> world" where
  "syncLoop fetchDockerStats fetchGitHubStats [] s = s"
| "syncLoop fetchDockerStats fetchGitHubStats (server # rest) s =
     (case syncServer fetchDockerStats fetchGitHubStats server (snd s) of
        (Resolved statsUpdated, w') \<Rightarrow>
          syncLoop fetchDockerStats fetchGitHubStats rest
            (if statsUpdated then (fst s)\<lparr>updated := updated (fst s) + 1\<rparr> else fst s, w')
      | (Rejected, w') \<Rightarrow>
          syncLoop fetchDockerStats fetchGitHubStats rest
            ((fst s)\<lparr>failed_syncs := failed_syncs (fst s) + 1\<rparr>, w'))"

definition syncMCPServerStats ::
  "(string \<Rightarrow> int option) \<Rightarrow> (string \<Rightarrow> int option) \<Rightarrow> breaker \<times> world \<Rightarrow>
   StatsSyncResult \<times> breaker \<times> world" where
  "syncMCPServerStats fetchDockerStats fetchGitHubStats s =
     (case safeDbQuery now (exec loadServers) [] s of
        (loaded, b, w) \<Rightarrow>
          if \<not> fromDb loaded then (\<lparr>updated = 0, failed_syncs = 0\<rparr>, b, w)
          else
            (case syncLoop fetchDockerStats fetchGitHubStats (data loaded)
                    (\<lparr>updated = 0, failed_syncs = 0\<rparr>, w) of
               (result, w') \<Rightarrow> (result, b, w')))"

text \<open>
  The two lookups as the loop body makes them: the Docker Hub pull count is looked up for
  a server of the Docker registry with a Docker URL, the star count for a server with a
  repository URL.
\<close>

definition pullsLookup :: "(string \<Rightarrow> int option) \<Rightarrow> SyncServer \<Rightarrow> int option" where
  "pullsLookup fetchDockerStats server =
     (if truthy (sv_dockerUrl server) \<and> sv_sourceRegistry server = ''docker''
      then fetchDockerStats (sv_name server) else None)"

definition starsLookup :: "(string \<Rightarrow> int option) \<Rightarrow> SyncServer \<Rightarrow> int option" where
  "starsLookup fetchGitHubStats server =
     (if truthy (sv_githubUrl server) then fetchGitHubStats (the (sv_githubUrl server)) else None)"

text \<open>
  The snapshot rows one server's pass appends, and the server table after it, when
  every statement goes through.
\<close>

definition snapshotsOf ::
  "(string \<Rightarrow> int option) \<Rightarrow> (string \<Rightarrow> int option) \<Rightarrow> SyncServer \<Rightarrow> MCPServerStatsRow list" where
  "snapshotsOf fetchDockerStats fetchGitHubStats server =
     (case pullsLookup fetchDockerStats server of
        Some pulls \<Rightarrow> [dockerSnapshot server pulls]
      | None \<Rightarrow>
          (case starsLookup fetchGitHubStats server of
             Some stars \<Rightarrow> [githubSnapshot server stars]
           | None \<Rightarrow> []))"

definition serversAfter ::
  "(string \<Rightarrow> int option) \<Rightarrow> (string \<Rightarrow> int option) \<Rightarrow> int \<Rightarrow> SyncServer \<Rightarrow>
   MCPServerDB list \<Rightarrow> MCPServerDB list" where
  "serversAfter fetchDockerStats fetchGitHubStats t server tbl =
     (let tbl1 = (case pullsLookup fetchDockerStats server of
                    None \<Rightarrow> tbl
                  | Some pulls \<Rightarrow>
                      map (\<lambda>row. if mcp_id row = sv_id server
                                 then setDockerPulls pulls t row else row) tbl)
      in case starsLookup fetchGitHubStats server of
           None \<Rightarrow> tbl1
         | Some stars \<Rightarrow>
             map (\<lambda>row. if mcp_id row = sv_id server
                        then setGithubStars stars t row else row) tbl1)"

text \<open>The rows of the snapshot table that belong to one server.\<close>

definition snapshotsFor :: "nat \<Rightarrow> database \<Rightarrow> MCPServerStatsRow list" where
  "snapshotsFor i d = filter (\<lambda>s. st_mcpServerId s = i) (mcpServerStats d)"

text \<open>
  Examples: a table with a Docker Hub server that also has a repository, and an
  official-registry server with a repository only; lookups that know both repositories
  and the one Docker Hub image.
\<close>

definition exampleRow :: "nat \<Rightarrow> string \<Rightarrow> string \<Rightarrow> string option \<Rightarrow> string option \<Rightarrow> MCPServerDB" where
  "exampleRow i name registry dockerUrl githubUrl =
     \<lparr>mcp_id = i, mcp_name = name, mcp_displayName = name,
      mcp_slug = generateSlug name registry, mcp_description = None, mcp_version = None,
      mcp_category = ''utilities'', mcp_tags = [], mcp_serverType = ''stdio'',
      mcp_vendor = None, mcp_logoUrl = None, mcp_sourceRegistry = registry,
      mcp_sourceUrl = None, mcp_githubUrl = githubUrl, mcp_dockerUrl = dockerUrl,
      mcp_npmUrl = None, mcp_documentationUrl = None, mcp_githubStars = Some 0,
      mcp_dockerPulls = Some 0, mcp_npmDownloads = Some 0, mcp_packages = None,
      mcp_remotes = None, mcp_environmentVariables = None, mcp_installationMethods = None,
      mcp_verificationStatus = Some ''verified'', mcp_active = True,
      mcp_lastIndexedAt = None, mcp_lastStatsSync = None, mcp_createdAt = 0,
      mcp_updatedAt = 0\<rparr>"

definition alphaRow :: MCPServerDB where
  "alphaRow = exampleRow 1 ''alpha'' ''docker'' (Some ''https://hub.docker.com/r/mcp/alpha'')
                (Some ''https://github.com/acme/alpha'')"

definition betaRow :: MCPServerDB where
  "betaRow = exampleRow 2 ''beta'' ''official-mcp'' None (Some ''https://github.com/acme/beta'')"

definition statsWorld :: world where
  "statsWorld = \<lparr>db = emptyDatabase\<lparr>mcpServers := [alphaRow, betaRow]\<rparr>, now = 1000, fates = []\<rparr>"

definition examplePulls :: "string \<Rightarrow> int option" where
  "examplePulls name = (if name = ''alpha'' then Some 500 else None)"

definition exampleStars :: "string \<Rightarrow> int option" where
  "exampleStars repo =
     (if repo = ''https://github.com/acme/alpha'' then Some 7
      else if repo = ''https://github.com/acme/beta'' then Some 9 else None)"

section \<open>Arrays and more strings\<close>

text \<open>
  \<^verbatim>\<open>Array.prototype.sort(cmp)\<close> is a stable sort: of two elements the one for which
  \<open>cmp\<close> is negative comes first, and elements that compare as equal keep their order.
  \<open>jsSort\<close> is the stable insertion sort; for a comparator that is a consistent order
  every stable sort gives this result.
\<close>

fun jsInsert :: "('a \<Rightarrow> 'a \<Rightarrow> int) \<Rightarrow> 'a \<Rightarrow> 'a list \<Rightarrow> 'a list" where
  "jsInsert cmp x [] = [x]"
| "jsInsert cmp x (y # ys) = (if cmp x y \<le> 0 then x # y # ys else y # jsInsert cmp x ys)"

fun jsSort :: "('a \<Rightarrow> 'a \<Rightarrow> int) \<Rightarrow> 'a list \<Rightarrow> 'a list" where
  "jsSort cmp [] = []"
| "jsSort cmp (x # xs) = jsInsert cmp x (jsSort cmp xs)"

text \<open>
  What \<^verbatim>\<open>Array.prototype.sort\<close> asks of a comparison function for the result to be
  sorted: any two values compare one way or the other, and the comparison is
  transitive. It is a condition on \<^verbatim>\<open>localeCompare\<close>, which the program does not
  define.
\<close>

definition consistentCompare :: "('a \<Rightarrow> 'a \<Rightarrow> int) \<Rightarrow> bool" where
  "consistentCompare cmp \<longleftrightarrow>
     (\<forall>x y. cmp x y \<le> 0 \<or> cmp y x \<le> 0)
     \<and> (\<forall>x y z. cmp x y \<le> 0 \<and> cmp y z \<le> 0 \<longrightarrow> cmp x z \<le> 0)"

text \<open>
  \<^verbatim>\<open>xs.slice(start, end)\<close> on integers: a negative index counts from the end, and both
  are clamped to the array.
\<close>

definition sliceIndex :: "int \<Rightarrow> int \<Rightarrow> int" where
  "sliceIndex len i = (if i < 0 then max (len + i) 0 else min i len)"

definition slice :: "'a list \<Rightarrow> int \<Rightarrow> int \<Rightarrow> 'a list" where
  "slice xs start end =
     (let len = int (length xs); from = sliceIndex len start; to = sliceIndex len end
      in take (nat (max (to - from) 0)) (drop (nat from) xs))"

text \<open>\<^verbatim>\<open>s.split(',')\<close>, \<^verbatim>\<open>s.trim()\<close> (ASCII white space) and the category list of a filter.\<close>

fun splitOn :: "char \<Rightarrow> string \<Rightarrow> string list" where
  "splitOn sep [] = [[]]"
| "splitOn sep (c # cs) =
     (if c = sep then [] # splitOn sep cs
      else (case splitOn sep cs of [] \<Rightarrow> [[c]] | p # ps \<Rightarrow> (c # p) # ps))"

definition isSpace :: "char \<Rightarrow> bool" where
  "isSpace c \<longleftrightarrow> charCode c = 32 \<or> (9 \<le> charCode c \<and> charCode c \<le> 13)"

definition trim :: "string \<Rightarrow> string" where
  "trim s = rev (dropWhile isSpace (rev (dropWhile isSpace s)))"

definition categoryList :: "string \<Rightarrow> string list" where
  "categoryList category = filter (\<lambda>c. c \<noteq> []) (map trim (splitOn (CHR '','') category))"

section \<open>The unified plugin listing: local content\<close>

text \<open>
  Modelled from the spec: \<^verbatim>\<open>UnifiedPlugin\<close> and the local loaders
  (\<^verbatim>\<open>./plugin-types\<close>, \<^verbatim>\<open>./subagents-server\<close> and the like) are not among the sources.
  The records hold the fields the listing reads. A loader gives its items, or \<open>None\<close>
  when it throws.
\<close>

record UnifiedPlugin =
  up_type :: string
  up_name :: string
  up_description :: string
  up_category :: "string option"
  up_tags :: "string list option"
  up_marketplaceId :: "string option"
  up_marketplaceName :: "string option"
  up_repository :: "string option"
  up_stars :: "int option"
  up_installCommand :: "string option"
  up_namespace :: "string option"
  up_author :: "string option"
  up_version :: "string option"

record LocalEntry =
  le_name :: string
  le_slug :: string
  le_description :: string
  le_category :: "string option"

record LocalPlugin =
  lp_name :: string
  lp_description :: string
  lp_category :: "string option"
  lp_keywords :: "string list option"
  lp_repository :: "string option"
  lp_author :: "string option"
  lp_version :: "string option"

record LocalContent =
  getAllSubagents :: "LocalEntry list option"
  getAllCommands :: "LocalEntry list option"
  getAllHooks :: "LocalEntry list option"
  getAllSkills :: "LocalEntry list option"
  getLocalPlugins :: "LocalPlugin list option"

definition BUILD_WITH_CLAUDE_MARKETPLACE :: string where
  "BUILD_WITH_CLAUDE_MARKETPLACE = ''Build with Claude''"

definition BUILD_WITH_CLAUDE_ID :: string where
  "BUILD_WITH_CLAUDE_ID = ''build-with-claude''"

definition localItem :: "string \<Rightarrow> string \<Rightarrow> string \<Rightarrow> string option \<Rightarrow> UnifiedPlugin" where
  "localItem type name description category =
     \<lparr>up_type = type, up_name = name, up_description = description, up_category = category,
      up_tags = Some [], up_marketplaceId = Some BUILD_WITH_CLAUDE_ID,
      up_marketplaceName = Some BUILD_WITH_CLAUDE_MARKETPLACE, up_repository = None,
      up_stars = None, up_installCommand = None, up_namespace = None, up_author = None,
      up_version = None\<rparr>"

definition loaded :: "'a list option \<Rightarrow> 'a list" where
  "loaded r = (case r of None \<Rightarrow> [] | Some xs \<Rightarrow> xs)"

definition getLocalBuildWithClaudePlugins :: "LocalContent \<Rightarrow> UnifiedPlugin list" where
  "getLocalBuildWithClaudePlugins content =
     map (\<lambda>s. localItem ''subagent'' (le_name s) (le_description s) (le_category s))
       (loaded (getAllSubagents content))
     @ map (\<lambda>c. localItem ''command'' (le_slug c) (le_description c) (le_category c))
         (loaded (getAllCommands content))
     @ map (\<lambda>h. localItem ''hook'' (le_name h) (le_description h) (le_category h))
         (loaded (getAllHooks content))
     @ map (\<lambda>s. localItem ''skill'' (le_name s) (le_description s) (le_category s))
         (loaded (getAllSkills content))
     @ map (\<lambda>p. (localItem ''plugin'' (lp_name p) (lp_description p) (lp_category p))
                  \<lparr>up_tags := Some (case lp_keywords p of None \<Rightarrow> [] | Some ks \<Rightarrow> ks),
                   up_repository := lp_repository p, up_author := lp_author p,
                   up_version := lp_version p\<rparr>)
         (loaded (getLocalPlugins content))"

record PluginOptions =
  opt_limit :: int
  opt_offset :: int
  opt_search :: "string option"
  opt_sort :: string
  opt_type :: string
  opt_marketplaceId :: "string option"
  opt_category :: "string option"

definition searchMatches :: "string \<Rightarrow> UnifiedPlugin \<Rightarrow> bool" where
  "searchMatches search p =
     (let searchLower = toLowerCase search in
      str_includes (toLowerCase (up_name p)) searchLower
      \<or> str_includes (toLowerCase (up_description p)) searchLower
      \<or> (case up_tags p of
            None \<Rightarrow> False
          | Some ts \<Rightarrow> list_ex (\<lambda>t. str_includes (toLowerCase t) searchLower) ts))"

definition filterLocalPlugins :: "UnifiedPlugin list \<Rightarrow> PluginOptions \<Rightarrow> UnifiedPlugin list" where
  "filterLocalPlugins pluginList options =
     (let filtered1 =
            (if opt_type options \<noteq> [] \<and> opt_type options \<noteq> ''all''
             then filter (\<lambda>p. up_type p = opt_type options) pluginList else pluginList)
      in
      if truthy (opt_marketplaceId options) \<and> opt_marketplaceId options \<noteq> Some ''all''
         \<and> opt_marketplaceId options \<noteq> Some BUILD_WITH_CLAUDE_ID
         \<and> opt_marketplaceId options \<noteq> Some BUILD_WITH_CLAUDE_MARKETPLACE
      then []
      else
        let filtered2 =
              (if truthy (opt_category options)
               then (let categories = categoryList (the (opt_category options)) in
                     if categories \<noteq> []
                     then filter (\<lambda>p. orElse (up_category p) [] \<in> set categories) filtered1
                     else filtered1)
               else filtered1)
        in
        if truthy (opt_search options)
        then filter (searchMatches (the (opt_search options))) filtered2
        else filtered2)"

text \<open>
  \<^verbatim>\<open>sortPlugins\<close>. \<^verbatim>\<open>String.prototype.localeCompare\<close> is the parameter
  \<open>localeCompare\<close>. A sort option is the string the route passes; every string other
  than the six named ones takes the \<^verbatim>\<open>default\<close> branch, which is the branch of
  \<^verbatim>\<open>'relevance'\<close>.
\<close>

definition flag :: "bool \<Rightarrow> int" where
  "flag b = (if b then 0 else 1)"

definition relevanceCompare ::
  "(string \<Rightarrow> string \<Rightarrow> int) \<Rightarrow> string \<Rightarrow> UnifiedPlugin \<Rightarrow> UnifiedPlugin \<Rightarrow> int" where
  "relevanceCompare localeCompare searchLower a b =
     (let aExact = flag (toLowerCase (up_name a) = searchLower);
          bExact = flag (toLowerCase (up_name b) = searchLower)
      in if aExact \<noteq> bExact then aExact - bExact
         else
           let aStarts = flag (startsWith (toLowerCase (up_name a)) searchLower);
               bStarts = flag (startsWith (toLowerCase (up_name b)) searchLower)
           in if aStarts \<noteq> bStarts then aStarts - bStarts
              else
                let aContains = flag (str_includes (toLowerCase (up_name a)) searchLower);
                    bContains = flag (str_includes (toLowerCase (up_name b)) searchLower)
                in if aContains \<noteq> bContains then aContains - bContains
                   else localeCompare (up_name a) (up_name b))"

text \<open>The tier of an item under a lowercased search term, as \<open>relevanceCompare\<close> ranks it.\<close>

definition pluginRank :: "string \<Rightarrow> UnifiedPlugin \<Rightarrow> int" where
  "pluginRank searchLower p =
     (if toLowerCase (up_name p) = searchLower then 0
      else if startsWith (toLowerCase (up_name p)) searchLower then 1
      else if str_includes (toLowerCase (up_name p)) searchLower then 2
      else 3)"

definition sortPlugins ::
  "(string \<Rightarrow> string \<Rightarrow> int) \<Rightarrow> UnifiedPlugin list \<Rightarrow> string \<Rightarrow> string option \<Rightarrow>
   UnifiedPlugin list" where
  "sortPlugins localeCompare pluginList sortBy search =
     (if sortBy = ''name'' then jsSort (\<lambda>a b. localeCompare (up_name a) (up_name b)) pluginList
      else if sortBy = ''name-desc''
        then jsSort (\<lambda>a b. localeCompare (up_name b) (up_name a)) pluginList
      else if sortBy = ''stars''
        then jsSort (\<lambda>a b. orZero (up_stars b) - orZero (up_stars a)) pluginList
      else if sortBy = ''newest'' \<or> sortBy = ''oldest'' \<or> sortBy = ''updated'' then pluginList
      else if truthy search
        then jsSort (relevanceCompare localeCompare (toLowerCase (the search))) pluginList
      else jsSort (\<lambda>a b. localeCompare (up_name a) (up_name b)) pluginList)"

text \<open>
  The merge of \<^verbatim>\<open>getPluginsPaginated\<close>: the \<^verbatim>\<open>Set\<close> of seen keys, the local plugins
  first, the database plugins after them.
\<close>

definition pluginKey :: "UnifiedPlugin \<Rightarrow> string" where
  "pluginKey p = up_type p @ '':'' @ toLowerCase (up_name p)"

fun addUnseen :: "UnifiedPlugin list \<Rightarrow> string set \<times> UnifiedPlugin list \<Rightarrow> string set \<times> UnifiedPlugin list" where
  "addUnseen [] s = s"
| "addUnseen (p # ps) s =
     addUnseen ps
       (if pluginKey p \<notin> fst s then (insert (pluginKey p) (fst s), snd s @ [p]) else s)"

definition mergePlugins :: "UnifiedPlugin list \<Rightarrow> UnifiedPlugin list \<Rightarrow> UnifiedPlugin list" where
  "mergePlugins localPlugins dbPlugins = snd (addUnseen dbPlugins (addUnseen localPlugins ({}, [])))"

record 'a page =
  items :: "'a list"
  total :: int
  limit :: int
  offset :: int
  hasMore :: bool

definition paginate :: "'a list \<Rightarrow> int \<Rightarrow> int \<Rightarrow> 'a page" where
  "paginate xs lim off =
     (let paginated = slice xs off (off + lim) in
      \<lparr>items = paginated, total = int (length xs), limit = lim, offset = off,
       hasMore = (off + int (length paginated) < int (length xs))\<rparr>)"

section \<open>The SQL the queries use\<close>

text \<open>
  \<^verbatim>\<open>LIKE\<close>: in a pattern \<^verbatim>\<open>%\<close> stands for any text, \<^verbatim>\<open>_\<close> for any one character, and
  a backslash takes the next character literally (a pattern that ends in a lone
  backslash matches nothing here; the database raises an error for it). \<^verbatim>\<open>ILIKE\<close>
  compares without regard to case. The search term goes into the pattern as it is, so
  its \<^verbatim>\<open>%\<close> and \<^verbatim>\<open>_\<close> are wildcards too. A \<^verbatim>\<open>NULL\<close> column matches no pattern.
\<close>

fun likeMatch :: "string \<Rightarrow> string \<Rightarrow> bool" where
  "likeMatch [] s = (s = [])"
| "likeMatch (p # ps) s =
     (if p = CHR ''%''
        then likeMatch ps s \<or> (case s of [] \<Rightarrow> False | c # cs \<Rightarrow> likeMatch (p # ps) cs)
      else if p = CHR ''_''
        then (case s of [] \<Rightarrow> False | c # cs \<Rightarrow> likeMatch ps cs)
      else if p = CHR 0x5C
        then (case ps of
                [] \<Rightarrow> False
              | q # qs \<Rightarrow> (case s of [] \<Rightarrow> False | c # cs \<Rightarrow> c = q \<and> likeMatch qs cs))
      else (case s of [] \<Rightarrow> False | c # cs \<Rightarrow> c = p \<and> likeMatch ps cs))"

definition ilike :: "string \<Rightarrow> string \<Rightarrow> bool" where
  "ilike column pattern = likeMatch (toLowerCase pattern) (toLowerCase column)"

definition ilikeNullable :: "string option \<Rightarrow> string \<Rightarrow> bool" where
  "ilikeNullable column pattern = (case column of None \<Rightarrow> False | Some s \<Rightarrow> ilike s pattern)"

text \<open>\<^verbatim>\<open>x = ANY(column)\<close> and \<^verbatim>\<open>column && ARRAY[...]\<close> on a nullable array column.\<close>

definition anyOf :: "string \<Rightarrow> string list option \<Rightarrow> bool" where
  "anyOf x column = (case column of None \<Rightarrow> False | Some xs \<Rightarrow> x \<in> set xs)"

definition overlaps :: "string list option \<Rightarrow> string list \<Rightarrow> bool" where
  "overlaps column ys = (case column of None \<Rightarrow> False | Some xs \<Rightarrow> list_ex (\<lambda>x. x \<in> set ys) xs)"

text \<open>
  \<^verbatim>\<open>ORDER BY\<close> with an order \<open>le\<close> on rows. The database may return rows that the
  order does not tell apart in any order; the model keeps them in table order.
\<close>

fun orderInsert :: "('r \<Rightarrow> 'r \<Rightarrow> bool) \<Rightarrow> 'r \<Rightarrow> 'r list \<Rightarrow> 'r list" where
  "orderInsert le x [] = [x]"
| "orderInsert le x (y # ys) = (if le x y then x # y # ys else y # orderInsert le x ys)"

fun orderBy :: "('r \<Rightarrow> 'r \<Rightarrow> bool) \<Rightarrow> 'r list \<Rightarrow> 'r list" where
  "orderBy le [] = []"
| "orderBy le (x # xs) = orderInsert le x (orderBy le xs)"

text \<open>
  \<^verbatim>\<open>SELECT ... WHERE ... ORDER BY ... LIMIT ... OFFSET ...\<close>. A negative \<^verbatim>\<open>LIMIT\<close> or
  \<^verbatim>\<open>OFFSET\<close> is an error of the database.
\<close>

definition selectRows ::
  "('r \<Rightarrow> bool) \<Rightarrow> ('r \<Rightarrow> 'r \<Rightarrow> bool) \<Rightarrow> int \<Rightarrow> int \<Rightarrow> 'r list \<Rightarrow> 'r list option" where
  "selectRows wh le lim off tbl =
     (if lim < 0 \<or> off < 0 then None
      else Some (take (nat lim) (drop (nat off) (orderBy le (filter wh tbl)))))"

definition countRows :: "('r \<Rightarrow> bool) \<Rightarrow> 'r list \<Rightarrow> int" where
  "countRows wh tbl = int (length (filter wh tbl))"

text \<open>\<^verbatim>\<open>COALESCE(column, 0) DESC\<close>, and descending and ascending numbers.\<close>

definition coalesceDesc :: "('r \<Rightarrow> int option) \<Rightarrow> 'r \<Rightarrow> 'r \<Rightarrow> bool" where
  "coalesceDesc column a b \<longleftrightarrow> orZero (column a) \<ge> orZero (column b)"

definition descBy :: "('r \<Rightarrow> int) \<Rightarrow> 'r \<Rightarrow> 'r \<Rightarrow> bool" where
  "descBy column a b \<longleftrightarrow> column a \<ge> column b"

definition ascBy :: "('r \<Rightarrow> int) \<Rightarrow> 'r \<Rightarrow> 'r \<Rightarrow> bool" where
  "ascBy column a b \<longleftrightarrow> column a \<le> column b"

text \<open>Two sort keys: the first decides, the second breaks its ties.\<close>

definition thenBy :: "('r \<Rightarrow> int) \<Rightarrow> ('r \<Rightarrow> 'r \<Rightarrow> bool) \<Rightarrow> 'r \<Rightarrow> 'r \<Rightarrow> bool" where
  "thenBy key le a b \<longleftrightarrow> key a < key b \<or> (key a = key b \<and> le a b)"

text \<open>The test \<^verbatim>\<open>/^[0-9a-f]{8}-[0-9a-f]{4}-[0-9a-f]{4}-[0-9a-f]{4}-[0-9a-f]{12}$/i\<close>.\<close>

definition isHex :: "char \<Rightarrow> bool" where
  "isHex c \<longleftrightarrow>
     (48 \<le> charCode c \<and> charCode c \<le> 57) \<or> (97 \<le> charCode c \<and> charCode c \<le> 102)
     \<or> (65 \<le> charCode c \<and> charCode c \<le> 70)"

fun hexGroups :: "nat list \<Rightarrow> string \<Rightarrow> bool" where
  "hexGroups [] s = (s = [])"
| "hexGroups [n] s = (length s = n \<and> list_all isHex s)"
| "hexGroups (n # m # ns) s =
     (n < length s \<and> list_all isHex (take n s) \<and> s ! n = CHR ''-''
      \<and> hexGroups (m # ns) (drop (Suc n) s))"

definition isUUID :: "string \<Rightarrow> bool" where
  "isUUID s = hexGroups [8, 4, 4, 4, 12] s"

section \<open>The unified plugin listing: database and merge\<close>

definition pluginWhere :: "PluginOptions \<Rightarrow> PluginRow \<Rightarrow> bool" where
  "pluginWhere options row \<longleftrightarrow>
     pl_active row
     \<and> (if opt_type options \<noteq> [] \<and> opt_type options \<noteq> ''all''
         then pl_type row = opt_type options else True)
     \<and> (if truthy (opt_marketplaceId options) \<and> opt_marketplaceId options \<noteq> Some ''all''
         then (if isUUID (the (opt_marketplaceId options))
               then pl_marketplaceId row = opt_marketplaceId options
                    \<or> pl_marketplaceName row = opt_marketplaceId options
               else pl_marketplaceName row = opt_marketplaceId options)
         else True)
     \<and> (if truthy (opt_category options)
         then (case categoryList (the (opt_category options)) of
                 [] \<Rightarrow> True
               | [c] \<Rightarrow> anyOf c (pl_categories row)
               | cs \<Rightarrow> overlaps (pl_categories row) cs)
         else True)
     \<and> (if truthy (opt_search options)
         then ilike (pl_name row) (''%'' @ the (opt_search options) @ ''%'')
              \<or> ilikeNullable (pl_description row) (''%'' @ the (opt_search options) @ ''%'')
              \<or> anyOf (the (opt_search options)) (pl_keywords row)
         else True)"

definition pluginTier :: "string \<Rightarrow> PluginRow \<Rightarrow> int" where
  "pluginTier search row =
     (if ilike (pl_name row) search then 0
      else if ilike (pl_name row) (search @ ''%'') then 1
      else if ilike (pl_name row) (''%'' @ search @ ''%'') then 2
      else if ilikeNullable (pl_description row) (''%'' @ search @ ''%'') then 3
      else 4)"

text \<open>
  The \<^verbatim>\<open>ORDER BY\<close> of the plugin query. \<open>collate\<close> is the order of the database on
  text.
\<close>

definition pluginOrder ::
  "(string \<Rightarrow> string \<Rightarrow> bool) \<Rightarrow> string \<Rightarrow> string option \<Rightarrow> PluginRow \<Rightarrow> PluginRow \<Rightarrow> bool" where
  "pluginOrder collate sortBy search =
     (if sortBy = ''name'' then (\<lambda>a b. collate (pl_name a) (pl_name b))
      else if sortBy = ''name-desc'' then (\<lambda>a b. collate (pl_name b) (pl_name a))
      else if sortBy = ''newest'' then descBy pl_updatedAt
      else if sortBy = ''oldest'' then ascBy pl_updatedAt
      else if sortBy = ''updated'' then descBy pl_updatedAt
      else if sortBy = ''stars'' then coalesceDesc pl_stars
      else if truthy search then thenBy (pluginTier (the search)) (coalesceDesc pl_stars)
      else (\<lambda>a b. collate (pl_name a) (pl_name b)))"

definition toUnifiedPlugin :: "PluginRow \<Rightarrow> UnifiedPlugin" where
  "toUnifiedPlugin p =
     \<lparr>up_type = (if pl_type p = [] then ''plugin'' else pl_type p),
      up_name = pl_name p,
      up_description = orElse (pl_description p) [],
      up_category =
        Some (orElse (case pl_categories p of None \<Rightarrow> None | Some [] \<Rightarrow> None | Some (c # cs) \<Rightarrow> Some c)
                ''uncategorized''),
      up_tags = Some (case pl_keywords p of None \<Rightarrow> [] | Some ks \<Rightarrow> ks),
      up_marketplaceId = orNull (pl_marketplaceId p),
      up_marketplaceName = orNull (pl_marketplaceName p),
      up_repository = orNull (pl_repository p),
      up_stars = pl_stars p,
      up_installCommand = orNull (pl_installCommand p),
      up_namespace = pl_namespace p,
      up_author = orNull (pl_author p),
      up_version = orNull (pl_version p)\<rparr>"

text \<open>
  \<^verbatim>\<open>getPluginsPaginated\<close>. The two statements are awaited with \<^verbatim>\<open>Promise.all\<close> and
  without \<^verbatim>\<open>safeDbQuery\<close>: when one rejects, the function rejects. The count that the
  second statement returns is not used.
\<close>

definition getPluginsPaginated ::
  "(string \<Rightarrow> string \<Rightarrow> int) \<Rightarrow> (string \<Rightarrow> string \<Rightarrow> bool) \<Rightarrow> LocalContent \<Rightarrow> PluginOptions \<Rightarrow>
   (UnifiedPlugin page, world) query" where
  "getPluginsPaginated localeCompare collate content options =
     (let marketplaceId = opt_marketplaceId options;
          isBWCOnly = (marketplaceId = Some BUILD_WITH_CLAUDE_ID
                       \<or> marketplaceId = Some BUILD_WITH_CLAUDE_MARKETPLACE);
          isOtherMarketplace = (truthy marketplaceId \<and> marketplaceId \<noteq> Some ''all'' \<and> \<not> isBWCOnly);
          localPlugins =
            (if \<not> isOtherMarketplace
             then sortPlugins localeCompare
                    (filterLocalPlugins (getLocalBuildWithClaudePlugins content) options)
                    (opt_sort options) (opt_search options)
             else [])
      in
      if isBWCOnly then resolve (paginate localPlugins (opt_limit options) (opt_offset options))
      else
        andThen
          (promiseAll
             (exec (reading (\<lambda>d. selectRows (pluginWhere options)
                                     (pluginOrder collate (opt_sort options) (opt_search options))
                                     1000 0 (plugins d))))
             (exec (reading (\<lambda>d. Some (countRows (pluginWhere options) (plugins d))))))
          (\<lambda>answer.
             resolve
               (paginate
                  (sortPlugins localeCompare
                     (mergePlugins localPlugins (map toUnifiedPlugin (fst answer)))
                     (opt_sort options) (opt_search options))
                  (opt_limit options) (opt_offset options))))"

section \<open>The MCP server listing\<close>

record MCPOptions =
  mo_limit :: int
  mo_offset :: int
  mo_search :: "string option"
  mo_sort :: string
  mo_category :: "string option"
  mo_sourceRegistry :: "string option"
  mo_verification :: "string option"

definition mcpWhere :: "MCPOptions \<Rightarrow> MCPServerDB \<Rightarrow> bool" where
  "mcpWhere options row \<longleftrightarrow>
     mcp_active row
     \<and> (if truthy (mo_category options) then mcp_category row = the (mo_category options)
         else True)
     \<and> (if truthy (mo_sourceRegistry options) \<and> mo_sourceRegistry options \<noteq> Some ''all''
         then mcp_sourceRegistry row = the (mo_sourceRegistry options) else True)
     \<and> (if truthy (mo_verification options) \<and> mo_verification options \<noteq> Some ''all''
         then mcp_verificationStatus row = mo_verification options else True)
     \<and> (if truthy (mo_search options)
         then ilike (mcp_name row) (''%'' @ the (mo_search options) @ ''%'')
              \<or> ilike (mcp_displayName row) (''%'' @ the (mo_search options) @ ''%'')
              \<or> ilikeNullable (mcp_description row) (''%'' @ the (mo_search options) @ ''%'')
              \<or> the (mo_search options) \<in> set (mcp_tags row)
         else True)"

definition mcpTier :: "string \<Rightarrow> 'p MCPServerRow \<Rightarrow> int" where
  "mcpTier search row =
     (if ilike (mcp_name row) search then 0
      else if ilike (mcp_name row) (search @ ''%'') then 1
      else if ilike (mcp_displayName row) (''%'' @ search @ ''%'') then 2
      else if ilikeNullable (mcp_description row) (''%'' @ search @ ''%'') then 3
      else 4)"

definition mcpOrder ::
  "(string \<Rightarrow> string \<Rightarrow> bool) \<Rightarrow> string \<Rightarrow> string option \<Rightarrow> MCPServerDB \<Rightarrow> MCPServerDB \<Rightarrow> bool" where
  "mcpOrder collate sortBy search =
     (if sortBy = ''name'' then (\<lambda>a b. collate (mcp_displayName a) (mcp_displayName b))
      else if sortBy = ''updated'' then descBy mcp_updatedAt
      else if sortBy = ''stars'' then coalesceDesc mcp_githubStars
      else if sortBy = ''relevance'' then
        (if truthy search then thenBy (mcpTier (the search)) (coalesceDesc mcp_dockerPulls)
         else coalesceDesc mcp_dockerPulls)
      else coalesceDesc mcp_dockerPulls)"

text \<open>\<^verbatim>\<open>JSON.parse\<close> is the parameter \<open>parse\<close>; \<open>None\<close> when it throws.\<close>

definition parseJSONField :: "(string \<Rightarrow> 'j option) \<Rightarrow> string option \<Rightarrow> 'j option" where
  "parseJSONField parse v =
     (case v of None \<Rightarrow> None | Some s \<Rightarrow> if s = [] then None else parse s)"

definition transformToMCPServerWithParsedJSON ::
  "(string \<Rightarrow> 'j option) \<Rightarrow> MCPServerDB \<Rightarrow> 'j option MCPServerRow" where
  "transformToMCPServerWithParsedJSON parse server =
     \<lparr>mcp_id = mcp_id server, mcp_name = mcp_name server,
      mcp_displayName = mcp_displayName server, mcp_slug = mcp_slug server,
      mcp_description = mcp_description server, mcp_version = mcp_version server,
      mcp_category = mcp_category server, mcp_tags = mcp_tags server,
      mcp_serverType = mcp_serverType server, mcp_vendor = mcp_vendor server,
      mcp_logoUrl = mcp_logoUrl server, mcp_sourceRegistry = mcp_sourceRegistry server,
      mcp_sourceUrl = mcp_sourceUrl server, mcp_githubUrl = mcp_githubUrl server,
      mcp_dockerUrl = mcp_dockerUrl server, mcp_npmUrl = mcp_npmUrl server,
      mcp_documentationUrl = mcp_documentationUrl server,
      mcp_githubStars = mcp_githubStars server, mcp_dockerPulls = mcp_dockerPulls server,
      mcp_npmDownloads = mcp_npmDownloads server,
      mcp_packages = parseJSONField parse (mcp_packages server),
      mcp_remotes = parseJSONField parse (mcp_remotes server),
      mcp_environmentVariables = parseJSONField parse (mcp_environmentVariables server),
      mcp_installationMethods = parseJSONField parse (mcp_installationMethods server),
      mcp_verificationStatus = mcp_verificationStatus server, mcp_active = mcp_active server,
      mcp_lastIndexedAt = mcp_lastIndexedAt server, mcp_lastStatsSync = mcp_lastStatsSync server,
      mcp_createdAt = mcp_createdAt server, mcp_updatedAt = mcp_updatedAt server\<rparr>"

text \<open>
  \<^verbatim>\<open>getMCPServersPaginated\<close>: the page query and the count query go through one
  \<^verbatim>\<open>safeDbQuery\<close>, with the fallback of no rows and a count of zero.
\<close>

definition mcpQueries :: "(string \<Rightarrow> string \<Rightarrow> bool) \<Rightarrow> MCPOptions \<Rightarrow> (MCPServerDB list \<times> int, world) query" where
  "mcpQueries collate options =
     promiseAll
       (exec (reading (\<lambda>d. selectRows (mcpWhere options)
                               (mcpOrder collate (mo_sort options) (mo_search options))
                               (mo_limit options) (mo_offset options) (mcpServers d))))
       (exec (reading (\<lambda>d. Some (countRows (mcpWhere options) (mcpServers d)))))"

definition getMCPServersPaginated ::
  "(string \<Rightarrow> 'j option) \<Rightarrow> (string \<Rightarrow> string \<Rightarrow> bool) \<Rightarrow> MCPOptions \<Rightarrow> breaker \<times> world \<Rightarrow>
   'j option MCPServerRow page \<times> breaker \<times> world" where
  "getMCPServersPaginated parse collate options s =
     (case safeDbQuery now (mcpQueries collate options) ([], 0) s of
        (answer, s') \<Rightarrow>
          (\<lparr>items = map (transformToMCPServerWithParsedJSON parse) (fst (data answer)),
            total = snd (data answer),
            limit = mo_limit options,
            offset = mo_offset options,
            hasMore = (mo_offset options + int (length (fst (data answer))) < snd (data answer))\<rparr>,
           s'))"

definition getMCPServerBySlug ::
  "(string \<Rightarrow> 'j option) \<Rightarrow> string \<Rightarrow> breaker \<times> world \<Rightarrow>
   'j option MCPServerRow option \<times> breaker \<times> world" where
  "getMCPServerBySlug parse slug s =
     (case safeDbQuery now
             (exec (reading (\<lambda>d. selectRows (\<lambda>row. mcp_slug row = slug) (\<lambda>a b. True) 1 0
                                     (mcpServers d)))) [] s of
        (answer, s') \<Rightarrow>
          (case data answer of
             [] \<Rightarrow> (None, s')
           | row # rest \<Rightarrow> (Some (transformToMCPServerWithParsedJSON parse row), s')))"

section \<open>The marketplace listing\<close>

record MarketplaceQueryOptions =
  ko_limit :: int
  ko_offset :: int
  ko_search :: "string option"
  ko_sort :: string

record Maintainer =
  maintainer_name :: string
  maintainer_github :: string

record MarketplaceRegistry =
  mr_id :: string
  mr_name :: string
  mr_displayName :: string
  mr_description :: string
  mr_url :: string
  mr_repository :: string
  mr_installCommand :: string
  mr_pluginCount :: int
  mr_skillCount :: int
  mr_categories :: "string list"
  mr_badges :: "string list"
  mr_maintainer :: Maintainer
  mr_stars :: int
  mr_installs :: int
  mr_verified :: bool
  mr_lastIndexedAt :: "int option"
  mr_updatedAt :: int

definition transformRow :: "MarketplaceRow \<Rightarrow> MarketplaceRegistry" where
  "transformRow row =
     \<lparr>mr_id = mk_id row, mr_name = mk_name row, mr_displayName = mk_displayName row,
      mr_description = orElse (mk_description row) [],
      mr_url = orElse (mk_url row) (mk_repository row),
      mr_repository = mk_repository row,
      mr_installCommand =
        orElse (mk_installCommand row) (''/plugin marketplace add '' @ mk_namespace row),
      mr_pluginCount = mk_pluginCount row, mr_skillCount = mk_skillCount row,
      mr_categories = (case mk_categories row of None \<Rightarrow> [] | Some cs \<Rightarrow> cs),
      mr_badges = (case mk_badges row of None \<Rightarrow> [] | Some bs \<Rightarrow> bs),
      mr_maintainer = \<lparr>maintainer_name = orElse (mk_maintainerName row) [],
                        maintainer_github = orElse (mk_maintainerGithub row) []\<rparr>,
      mr_stars = mk_stars row, mr_installs = mk_installs row, mr_verified = mk_verified row,
      mr_lastIndexedAt = mk_lastIndexedAt row, mr_updatedAt = mk_updatedAt row\<rparr>"

definition getOrderBy ::
  "(string \<Rightarrow> string \<Rightarrow> bool) \<Rightarrow> string \<Rightarrow> MarketplaceRow \<Rightarrow> MarketplaceRow \<Rightarrow> bool" where
  "getOrderBy collate sortBy =
     (if sortBy = ''relevance'' then thenBy (\<lambda>r. - mk_installs r) (descBy mk_stars)
      else if sortBy = ''stars'' then descBy mk_stars
      else if sortBy = ''newest'' then descBy mk_updatedAt
      else if sortBy = ''oldest'' then ascBy mk_updatedAt
      else if sortBy = ''name'' then (\<lambda>a b. collate (mk_displayName a) (mk_displayName b))
      else if sortBy = ''name-desc'' then (\<lambda>a b. collate (mk_displayName b) (mk_displayName a))
      else descBy mk_stars)"

definition marketWhere :: "MarketplaceQueryOptions \<Rightarrow> MarketplaceRow \<Rightarrow> bool" where
  "marketWhere options row \<longleftrightarrow>
     mk_active row
     \<and> (if truthy (ko_search options) \<and> trim (the (ko_search options)) \<noteq> []
         then ilike (mk_name row) (''%'' @ trim (the (ko_search options)) @ ''%'')
              \<or> ilike (mk_displayName row) (''%'' @ trim (the (ko_search options)) @ ''%'')
              \<or> ilikeNullable (mk_description row) (''%'' @ trim (the (ko_search options)) @ ''%'')
              \<or> ilikeNullable (mk_maintainerName row)
                   (''%'' @ trim (the (ko_search options)) @ ''%'')
         else True)"

record PaginatedMarketplaces =
  pm_marketplaces :: "MarketplaceRegistry list"
  pm_total :: int
  pm_hasMore :: bool

text \<open>
  \<^verbatim>\<open>getMarketplacesPaginated\<close>: the count query goes through one \<^verbatim>\<open>safeDbQuery\<close>, the
  page query through a second one.
\<close>

definition getMarketplacesPaginated ::
  "(string \<Rightarrow> string \<Rightarrow> bool) \<Rightarrow> MarketplaceQueryOptions \<Rightarrow> breaker \<times> world \<Rightarrow>
   PaginatedMarketplaces \<times> breaker \<times> world" where
  "getMarketplacesPaginated collate options s =
     (case safeDbQuery now
             (exec (reading (\<lambda>d. Some (countRows (marketWhere options) (marketplaces d))))) 0 s of
        (countResult, s1) \<Rightarrow>
          (case safeDbQuery now
                  (exec (reading (\<lambda>d. selectRows (marketWhere options)
                                          (getOrderBy collate (ko_sort options))
                                          (ko_limit options) (ko_offset options) (marketplaces d))))
                  [] s1 of
             (rows, s2) \<Rightarrow>
               (\<lparr>pm_marketplaces = map transformRow (data rows),
                 pm_total = data countResult,
                 pm_hasMore = (ko_offset options + int (length (data rows)) < data countResult)\<rparr>,
                s2)))"

definition getMarketplaceById ::
  "string \<Rightarrow> breaker \<times> world \<Rightarrow> MarketplaceRegistry option \<times> breaker \<times> world" where
  "getMarketplaceById ident s =
     (case safeDbQuery now
             (exec (reading (\<lambda>d. selectRows
                                     (\<lambda>row. mk_id row = ident \<or> mk_name row = ident
                                             \<or> mk_namespace row = ident)
                                     (\<lambda>a b. True) 1 0 (marketplaces d)))) [] s of
        (answer, s') \<Rightarrow>
          (case data answer of
             [] \<Rightarrow> (None, s')
           | row # rest \<Rightarrow> (Some (transformRow row), s')))"

section \<open>The route handlers\<close>

text \<open>
  Each \<^verbatim>\<open>GET\<close> handler awaits its listing inside \<^verbatim>\<open>try\<close> and answers a rejection
  with an empty page and status 200. The MCP server and marketplace listings never
  reject; the plugin listing does when a statement fails.
\<close>

definition pluginsListRoute ::
  "(string \<Rightarrow> string \<Rightarrow> int) \<Rightarrow> (string \<Rightarrow> string \<Rightarrow> bool) \<Rightarrow> LocalContent \<Rightarrow> PluginOptions \<Rightarrow>
   world \<Rightarrow> UnifiedPlugin page \<times> world" where
  "pluginsListRoute localeCompare collate content options w =
     (case getPluginsPaginated localeCompare collate content options w of
        (Resolved result, w') \<Rightarrow> (result, w')
      | (Rejected, w') \<Rightarrow>
          (\<lparr>items = [], total = 0, limit = opt_limit options, offset = opt_offset options,
            hasMore = False\<rparr>, w'))"

text \<open>\<^verbatim>\<open>getPluginBySlug\<close> awaits its statement without \<^verbatim>\<open>safeDbQuery\<close>.\<close>

definition getPluginBySlug :: "string \<Rightarrow> (UnifiedPlugin option, world) query" where
  "getPluginBySlug slug =
     andThen
       (exec (reading (\<lambda>d. selectRows (\<lambda>row. pl_slug row = slug \<or> pl_name row = slug)
                               (\<lambda>a b. True) 1 0 (plugins d))))
       (\<lambda>result. resolve (case result of [] \<Rightarrow> None | p # rest \<Rightarrow> Some (toUnifiedPlugin p)))"

text \<open>
  What the testable properties ask of a page: no more items than the limit, the items
  end within the total when the offset lies within it (and there are none when it does
  not), and \<^verbatim>\<open>hasMore\<close> tells whether items remain after the page.
\<close>

definition pageBounds :: "int \<Rightarrow> int \<Rightarrow> nat \<Rightarrow> int \<Rightarrow> bool \<Rightarrow> bool" where
  "pageBounds lim off returned tot remaining \<longleftrightarrow>
     int returned \<le> lim
     \<and> (if off \<le> tot then off + int returned \<le> tot else returned = 0)
     \<and> (remaining \<longleftrightarrow> off + int returned < tot)"

section \<open>Example plugins\<close>

text \<open>
  A comparison of strings by character codes, as an example of a \<^verbatim>\<open>localeCompare\<close>, and
  an item as the database conversion gives it for an external marketplace.
\<close>

fun codeCompare :: "string \<Rightarrow> string \<Rightarrow> int" where
  "codeCompare [] [] = 0"
| "codeCompare [] (y # ys) = - 1"
| "codeCompare (x # xs) [] = 1"
| "codeCompare (x # xs) (y # ys) =
     (if charCode x < charCode y then - 1
      else if charCode y < charCode x then 1 else codeCompare xs ys)"

definition externalItem :: "string \<Rightarrow> string \<Rightarrow> string \<Rightarrow> int \<Rightarrow> UnifiedPlugin" where
  "externalItem type name description stars =
     \<lparr>up_type = type, up_name = name, up_description = description,
      up_category = Some ''uncategorized'', up_tags = Some [],
      up_marketplaceId = None, up_marketplaceName = Some ''acme-market'',
      up_repository = None, up_stars = Some stars, up_installCommand = None,
      up_namespace = Some ''acme'', up_author = None, up_version = None\<rparr>"

definition gitLocal :: UnifiedPlugin where
  "gitLocal = localItem ''skill'' ''Git-Helper'' ''curated helper'' (Some ''development'')"

definition gitExternal :: UnifiedPlugin where
  "gitExternal = externalItem ''skill'' ''git-helper'' ''external helper'' 100"

definition zetaExternal :: UnifiedPlugin where
  "zetaExternal = externalItem ''skill'' ''zeta'' ''another skill'' 5"

text \<open>
  Local content with one skill (and a command loader that throws), and a request for
  the local marketplace only.
\<close>

definition oneSkillContent :: LocalContent where
  "oneSkillContent =
     \<lparr>getAllSubagents = Some [], getAllCommands = None, getAllHooks = Some [],
      getAllSkills = Some [\<lparr>le_name = ''Git-Helper'', le_slug = ''git-helper'',
                            le_description = ''curated helper'',
                            le_category = Some ''development''\<rparr>],
      getLocalPlugins = Some []\<rparr>"

definition localOnly :: "int \<Rightarrow> int \<Rightarrow> PluginOptions" where
  "localOnly lim off =
     \<lparr>opt_limit = lim, opt_offset = off, opt_search = None, opt_sort = ''relevance'',
      opt_type = ''all'', opt_marketplaceId = Some BUILD_WITH_CLAUDE_ID, opt_category = None\<rparr>"

text \<open>A request for the first MCP server by downloads, and one for the first marketplaces.\<close>

definition firstByDownloads :: MCPOptions where
  "firstByDownloads =
     \<lparr>mo_limit = 1, mo_offset = 0, mo_search = None, mo_sort = ''downloads'',
      mo_category = None, mo_sourceRegistry = None, mo_verification = None\<rparr>"

definition firstMarketplaces :: MarketplaceQueryOptions where
  "firstMarketplaces = \<lparr>ko_limit = 20, ko_offset = 0, ko_search = None, ko_sort = ''relevance''\<rparr>"

definition noJson :: "string \<Rightarrow> nat option" where
  "noJson s = None"

text \<open>
  A marketplace table with one active marketplace, in a world where the next statement
  goes through in 3 ms and the one after it fails after 4 ms.
\<close>

definition acmeMarket :: MarketplaceRow where
  "acmeMarket =
     \<lparr>mk_id = ''7d3f'', mk_name = ''acme-market'', mk_displayName = ''Acme Market'',
      mk_description = None, mk_url = None, mk_repository = ''https://github.com/acme/market'',
      mk_installCommand = None, mk_namespace = ''acme'', mk_pluginCount = 3, mk_skillCount = 1,
      mk_categories = None, mk_badges = None, mk_maintainerName = None,
      mk_maintainerGithub = None, mk_stars = 12, mk_installs = 40, mk_verified = True,
      mk_lastIndexedAt = None, mk_updatedAt = 0, mk_active = True\<rparr>"

definition marketWorld :: world where
  "marketWorld =
     \<lparr>db = emptyDatabase\<lparr>marketplaces := [acmeMarket]\<rparr>, now = 1000,
      fates = [(False, 3), (True, 4)]\<rparr>"

text \<open>A server table whose one row is inactive.\<close>

definition retiredRow :: MCPServerDB where
  "retiredRow = (exampleRow 3 ''gamma'' ''docker'' None None)\<lparr>mcp_active := False\<rparr>"

definition retiredWorld :: world where
  "retiredWorld = \<lparr>db = emptyDatabase\<lparr>mcpServers := [retiredRow]\<rparr>, now = 1000, fates = []\<rparr>"

text \<open>
  The items of the relevance example. As MCP server rows: a server named
  \<^verbatim>\<open>github\<close>, one named \<^verbatim>\<open>github-actions\<close>, and one that mentions the term in its name and
  description but not in its display name; the last has the most pulls. As rows of
  the plugin table: the same three names and \<^verbatim>\<open>github-zen\<close>, which has more stars than
  \<^verbatim>\<open>github-actions\<close>.
\<close>

definition githubRows :: "MCPServerDB list" where
  "githubRows =
     [(exampleRow 1 ''awesome github tool'' ''docker'' None None)
        \<lparr>mcp_displayName := ''Awesome Tool'', mcp_description := Some ''a tool for github'',
         mcp_dockerPulls := Some 900\<rparr>,
      (exampleRow 2 ''github-actions'' ''docker'' None None)\<lparr>mcp_dockerPulls := Some 50\<rparr>,
      (exampleRow 3 ''github'' ''docker'' None None)\<lparr>mcp_dockerPulls := Some 1\<rparr>]"

definition searchGithub :: MCPOptions where
  "searchGithub =
     \<lparr>mo_limit = 50, mo_offset = 0, mo_search = Some ''github'', mo_sort = ''relevance'',
      mo_category = None, mo_sourceRegistry = None, mo_verification = None\<rparr>"

definition pluginRowOf :: "nat \<Rightarrow> string \<Rightarrow> string \<Rightarrow> int \<Rightarrow> PluginRow" where
  "pluginRowOf i name description stars =
     \<lparr>pl_id = i, pl_name = name, pl_namespace = Some ''acme'', pl_slug = name,
      pl_description = Some description, pl_version = None, pl_author = None,
      pl_type = ''plugin'', pl_categories = None, pl_keywords = None, pl_repository = None,
      pl_stars = Some stars, pl_installCommand = None, pl_marketplaceId = None,
      pl_marketplaceName = Some ''acme-market'', pl_updatedAt = 0, pl_active = True\<rparr>"

definition toolRow :: PluginRow where
  "toolRow = pluginRowOf 1 ''awesome github tool'' ''mentions github'' 50"

definition zenRow :: PluginRow where
  "zenRow = pluginRowOf 2 ''github-zen'' ''quotes'' 100"

definition actionsRow :: PluginRow where
  "actionsRow = pluginRowOf 3 ''github-actions'' ''runs workflows'' 5"

definition githubRow :: PluginRow where
  "githubRow = pluginRowOf 4 ''github'' ''the platform'' 1"

definition noLocalContent :: LocalContent where
  "noLocalContent =
     \<lparr>getAllSubagents = Some [], getAllCommands = Some [], getAllHooks = Some [],
      getAllSkills = Some [], getLocalPlugins = Some []\<rparr>"

definition searchPlugins :: PluginOptions where
  "searchPlugins =
     \<lparr>opt_limit = 50, opt_offset = 0, opt_search = Some ''github'', opt_sort = ''relevance'',
      opt_type = ''all'', opt_marketplaceId = None, opt_category = None\<rparr>"

text \<open>
  Two marketplaces that match the term \<^verbatim>\<open>github\<close>: one of that very name, and one that
  has the term inside its name and more installs.
\<close>

definition githubMarket :: MarketplaceRow where
  "githubMarket =
     acmeMarket\<lparr>mk_id := ''9a1c'', mk_name := ''github'', mk_displayName := ''github'',
                 mk_namespace := ''github'', mk_installs := 3\<rparr>"

definition toolsMarket :: MarketplaceRow where
  "toolsMarket =
     acmeMarket\<lparr>mk_id := ''5e2b'', mk_name := ''awesome github tools'',
                 mk_displayName := ''Awesome GitHub Tools'', mk_namespace := ''tools'',
                 mk_installs := 40\<rparr>"

definition githubWorld :: world where
  "githubWorld =
     \<lparr>db = \<lparr>mcpServers = githubRows, mcpServerStats = [],
            plugins = [toolRow, zenRow, actionsRow, githubRow],
            marketplaces = [githubMarket, toolsMarket]\<rparr>,
      now = 1000, fates = []\<rparr>"

definition searchMarkets :: MarketplaceQueryOptions where
  "searchMarkets =
     \<lparr>ko_limit = 20, ko_offset = 0, ko_search = Some ''github'', ko_sort = ''relevance''\<rparr>"

section \<open>Properties of the wrapper\<close>

lemma safeDbQuery_blocked:
  "blocked clk (b, w) \<Longrightarrow> safeDbQuery clk q fb (b, w) = (\<lparr>data = fb, fromDb = False\<rparr>, b, w)"
  by (auto simp: safeDbQuery_def blocked_def)

lemma safeDbQuery_resolved:
  "\<not> blocked clk (b, w) \<Longrightarrow> q w = (Resolved d, w') \<Longrightarrow>
   safeDbQuery clk q fb (b, w) = (\<lparr>data = d, fromDb = True\<rparr>, reopened b, w')"
  by (auto simp: safeDbQuery_def blocked_def reopened_def)

lemma safeDbQuery_rejected:
  "\<not> blocked clk (b, w) \<Longrightarrow> q w = (Rejected, w') \<Longrightarrow>
   safeDbQuery clk q fb (b, w) =
     (\<lparr>data = fb, fromDb = False\<rparr>, \<lparr>circuitOpen = True, circuitOpenedAt = clk w'\<rparr>, w')"
  by (auto simp: safeDbQuery_def blocked_def reopened_def)

lemma run_append:
  "run clk (es @ fs) s =
     (fst (run clk es s) @ fst (run clk fs (snd (run clk es s))),
      snd (run clk fs (snd (run clk es s))))"
proof (induction es arbitrary: s)
  case Nil
  show ?case by simp
next
  case (Cons e es)
  show ?case by (cases e) (simp_all add: Cons.IH Let_def)
qed

lemma run_blocked:
  "circuitOpen b \<Longrightarrow>
   \<forall>ob \<in> set (fst (run clk es (b, w))). fst ob - circuitOpenedAt b \<le> CIRCUIT_TTL_MS \<Longrightarrow>
   map snd (fst (run clk es (b, w))) = fallbacks es \<and> snd (run clk es (b, w)) = (b, elapse es w)"
proof (induction es arbitrary: w)
  case Nil
  show ?case by simp
next
  case (Cons e es)
  show ?case
  proof (cases e)
    case (Env f)
    with Cons show ?thesis by simp
  next
    case (Call q fb)
    from Cons.prems Call have "clk w - circuitOpenedAt b \<le> CIRCUIT_TTL_MS"
      by (simp add: Let_def)
    with Cons.prems(1) have blk: "blocked clk (b, w)"
      by (simp add: blocked_def)
    have step: "safeDbQuery clk q fb (b, w) = (\<lparr>data = fb, fromDb = False\<rparr>, b, w)"
      by (rule safeDbQuery_blocked [OF blk])
    from Cons.prems(2) Call step
    have "\<forall>ob \<in> set (fst (run clk es (b, w))). fst ob - circuitOpenedAt b \<le> CIRCUIT_TTL_MS"
      by (simp add: Let_def)
    from Cons.IH [OF Cons.prems(1) this] Call step show ?thesis
      by (simp add: Let_def)
  qed
qed

lemma safeDbQuery_expired:
  "circuitOpen b \<Longrightarrow> clk w - circuitOpenedAt b > CIRCUIT_TTL_MS \<Longrightarrow>
   safeDbQuery clk q fb (b, w) =
     (case q w of
        (Resolved d, w') \<Rightarrow> (\<lparr>data = d, fromDb = True\<rparr>, b\<lparr>circuitOpen := False\<rparr>, w')
      | (Rejected, w') \<Rightarrow>
          (\<lparr>data = fb, fromDb = False\<rparr>, \<lparr>circuitOpen = True, circuitOpenedAt = clk w'\<rparr>, w'))"
  by (auto simp: safeDbQuery_def split: prod.splits settled.splits)

text \<open>
  C1. For every sequence of calls to \<^verbatim>\<open>safeDbQuery\<close>, with the clock read from the
  world: a call that reaches its operation and whose operation resolves returns the
  result with \<open>fromDb = True\<close>; a call whose operation rejects returns the fallback with
  \<open>fromDb = False\<close> and opens the one breaker, stamped with the clock reading at the
  rejection; from then on every call, whatever its operation, whose entry clock reading
  is at most 30000 ms after that stamp returns its own fallback with \<open>fromDb = False\<close>
  and leaves breaker and world exactly as it found them (the world changes by the
  \<open>Env\<close> steps only, so no operation was invoked); and the first call whose entry
  reading is more than 30000 ms after the stamp applies its operation to the world
  again and returns what that operation settles to.
\<close>

theorem safeDbQuery_circuit_breaker:
  fixes clk :: "'w \<Rightarrow> int" and q :: "('a, 'w) query" and es :: "('a, 'w) event list"
  defines "opened w' \<equiv> (\<lparr>circuitOpen = True, circuitOpenedAt = clk w'\<rparr>, w')"
  shows
    "(\<not> blocked clk (b, w) \<and> q w = (Resolved d, w') \<longrightarrow>
        safeDbQuery clk q fb (b, w) = (\<lparr>data = d, fromDb = True\<rparr>, reopened b, w'))
     \<and> (\<not> blocked clk (b, w) \<and> q w = (Rejected, w') \<longrightarrow>
          safeDbQuery clk q fb (b, w) = (\<lparr>data = fb, fromDb = False\<rparr>, opened w')
        \<and> ((\<forall>ob \<in> set (fst (run clk es (opened w'))). fst ob - clk w' \<le> CIRCUIT_TTL_MS) \<longrightarrow>
             map snd (fst (run clk es (opened w'))) = fallbacks es
             \<and> snd (run clk es (opened w')) = (fst (opened w'), elapse es w')
             \<and> (clk (f (elapse es w')) - clk w' > CIRCUIT_TTL_MS \<longrightarrow>
                  run clk (es @ [Env f, Call q2 fb2]) (opened w')
                  = (case q2 (f (elapse es w')) of
                       (Resolved d2, w2) \<Rightarrow>
                         (fst (run clk es (opened w'))
                            @ [(clk (f (elapse es w')), \<lparr>data = d2, fromDb = True\<rparr>)],
                          \<lparr>circuitOpen = False, circuitOpenedAt = clk w'\<rparr>, w2)
                     | (Rejected, w2) \<Rightarrow>
                         (fst (run clk es (opened w'))
                            @ [(clk (f (elapse es w')), \<lparr>data = fb2, fromDb = False\<rparr>)],
                          opened w2)))))"
proof -
  have A: "\<not> blocked clk (b, w) \<and> q w = (Resolved d, w') \<longrightarrow>
        safeDbQuery clk q fb (b, w) = (\<lparr>data = d, fromDb = True\<rparr>, reopened b, w')"
    by (simp add: safeDbQuery_resolved)
  have B: "\<not> blocked clk (b, w) \<and> q w = (Rejected, w') \<longrightarrow>
          safeDbQuery clk q fb (b, w) = (\<lparr>data = fb, fromDb = False\<rparr>, opened w')"
    by (simp add: safeDbQuery_rejected opened_def)
  have C: "map snd (fst (run clk es (opened w'))) = fallbacks es
             \<and> snd (run clk es (opened w')) = (fst (opened w'), elapse es w')"
    if h: "\<forall>ob \<in> set (fst (run clk es (opened w'))). fst ob - clk w' \<le> CIRCUIT_TTL_MS"
  proof -
    let ?b = "\<lparr>circuitOpen = True, circuitOpenedAt = clk w'\<rparr>"
    have "circuitOpen ?b" by simp
    moreover from h
    have "\<forall>ob \<in> set (fst (run clk es (?b, w'))). fst ob - circuitOpenedAt ?b \<le> CIRCUIT_TTL_MS"
      by (simp add: opened_def)
    ultimately show ?thesis
      unfolding opened_def fst_conv by (rule run_blocked)
  qed
  have D: "run clk (es @ [Env f, Call q2 fb2]) (opened w')
                  = (case q2 (f (elapse es w')) of
                       (Resolved d2, w2) \<Rightarrow>
                         (fst (run clk es (opened w'))
                            @ [(clk (f (elapse es w')), \<lparr>data = d2, fromDb = True\<rparr>)],
                          \<lparr>circuitOpen = False, circuitOpenedAt = clk w'\<rparr>, w2)
                     | (Rejected, w2) \<Rightarrow>
                         (fst (run clk es (opened w'))
                            @ [(clk (f (elapse es w')), \<lparr>data = fb2, fromDb = False\<rparr>)],
                          opened w2))"
    if h: "\<forall>ob \<in> set (fst (run clk es (opened w'))). fst ob - clk w' \<le> CIRCUIT_TTL_MS"
      and late: "clk (f (elapse es w')) - clk w' > CIRCUIT_TTL_MS"
  proof -
    let ?b = "\<lparr>circuitOpen = True, circuitOpenedAt = clk w'\<rparr>"
    from C [OF h] have st: "snd (run clk es (?b, w')) = (?b, elapse es w')"
      by (simp add: opened_def)
    have "circuitOpen ?b" by simp
    moreover from late have "clk (f (elapse es w')) - circuitOpenedAt ?b > CIRCUIT_TTL_MS"
      by simp
    ultimately have
      "safeDbQuery clk q2 fb2 (?b, f (elapse es w')) =
         (case q2 (f (elapse es w')) of
            (Resolved d, w2) \<Rightarrow> (\<lparr>data = d, fromDb = True\<rparr>, ?b\<lparr>circuitOpen := False\<rparr>, w2)
          | (Rejected, w2) \<Rightarrow>
              (\<lparr>data = fb2, fromDb = False\<rparr>, \<lparr>circuitOpen = True, circuitOpenedAt = clk w2\<rparr>, w2))"
      by (rule safeDbQuery_expired)
    then show ?thesis
      by (simp add: run_append st Let_def opened_def split: prod.splits settled.splits)
  qed
  from A B C D show ?thesis by blast
qed

theorem safeDbQuery_circuit_breaker_witness:
  "\<not> blocked fst (breaker0, (1000 :: int, 0 :: nat))
   \<and> flaky (1000, 0) = (Rejected, (1005, 1))
   \<and> (11005 :: int) - 1005 \<le> CIRCUIT_TTL_MS \<and> (31005 :: int) - 1005 \<le> CIRCUIT_TTL_MS
   \<and> fst (wait 1 (31005, 1 :: nat)) - 1005 > CIRCUIT_TTL_MS
   \<and> safeDbQuery fst flaky 0 (breaker0, (1000, 0))
       = (\<lparr>data = 0, fromDb = False\<rparr>, \<lparr>circuitOpen = True, circuitOpenedAt = 1005\<rparr>, (1005, 1))
   \<and> run fst [Env (wait 10000), Call steady 7, Env (wait 20000), Call steady 8]
         (\<lparr>circuitOpen = True, circuitOpenedAt = 1005\<rparr>, (1005, 1))
       = ([(11005, \<lparr>data = 7, fromDb = False\<rparr>), (31005, \<lparr>data = 8, fromDb = False\<rparr>)],
          \<lparr>circuitOpen = True, circuitOpenedAt = 1005\<rparr>, (31005, 1))
   \<and> run fst ([Env (wait 10000), Call steady 7, Env (wait 20000), Call steady 8]
                 @ [Env (wait 1), Call steady 9])
         (\<lparr>circuitOpen = True, circuitOpenedAt = 1005\<rparr>, (1005, 1))
       = ([(11005, \<lparr>data = 7, fromDb = False\<rparr>), (31005, \<lparr>data = 8, fromDb = False\<rparr>),
           (31006, \<lparr>data = 42, fromDb = True\<rparr>)],
          \<lparr>circuitOpen = False, circuitOpenedAt = 1005\<rparr>, (31007, 2))"
proof -
  let ?es = "[Env (wait 10000), Call steady 7, Env (wait 20000), Call steady 8]"
  let ?s = "(\<lparr>circuitOpen = True, circuitOpenedAt = 1005\<rparr>, (1005 :: int, 1 :: nat))"
  have h1: "\<not> blocked fst (breaker0, (1000 :: int, 0 :: nat))"
    by (simp add: blocked_def breaker0_def)
  have h2: "flaky (1000, 0) = (Rejected, (1005, 1))"
    by (simp add: flaky_def)
  have r: "run fst ?es ?s
       = ([(11005, \<lparr>data = 7, fromDb = False\<rparr>), (31005, \<lparr>data = 8, fromDb = False\<rparr>)],
          \<lparr>circuitOpen = True, circuitOpenedAt = 1005\<rparr>, (31005, 1))"
    by (simp add: safeDbQuery_def wait_def CIRCUIT_TTL_MS_def Let_def)
  have h3: "\<forall>ob \<in> set (fst (run fst ?es ?s)). fst ob - 1005 \<le> CIRCUIT_TTL_MS"
    unfolding r by (simp add: CIRCUIT_TTL_MS_def)
  have e: "elapse ?es (1005 :: int, 1 :: nat) = (31005, 1)"
    by (simp add: wait_def)
  have h4: "fst (wait 1 (31005, 1 :: nat)) - 1005 > CIRCUIT_TTL_MS"
    by (simp add: wait_def CIRCUIT_TTL_MS_def)
  from safeDbQuery_circuit_breaker
         [of fst breaker0 "(1000, 0)" flaky _ "(1005, 1)" 0 ?es "wait 1" steady 9]
       h1 h2 h3 h4 r e
  show ?thesis
    by (simp del: run.simps add: steady_def wait_def CIRCUIT_TTL_MS_def)
qed

section \<open>Properties of the fetch loops\<close>

lemma officialLoop_fetches:
  "pageCount < maxPages \<Longrightarrow>
   snd (officialLoop registry toRaw cursor pageCount acc fetches) \<le> fetches + (maxPages - pageCount)"
proof (induction registry toRaw cursor pageCount acc fetches rule: officialLoop.induct)
  case (1 registry toRaw cursor pageCount acc fetches)
  show ?case
  proof (cases "registry (if truthy cursor then cursor else None)")
    case NotOk
    with "1.prems" show ?thesis
      by (subst officialLoop.simps) simp
  next
    case (Ok page)
    show ?thesis
    proof (cases "toRaw (servers page)")
      case None
      with Ok "1.prems" show ?thesis
        by (subst officialLoop.simps) simp
    next
      case (Some rs)
      show ?thesis
      proof (cases "truthy (nextCursor page) \<and> pageCount + 1 < maxPages")
        case True
        then have "pageCount + 1 < maxPages" by simp
        from "1.IH" [OF Ok Some True this]
        have "snd (officialLoop registry toRaw (nextCursor page) (pageCount + 1) (acc @ rs)
                (fetches + 1)) \<le> fetches + 1 + (maxPages - (pageCount + 1))" .
        moreover have "officialLoop registry toRaw cursor pageCount acc fetches
            = officialLoop registry toRaw (nextCursor page) (pageCount + 1) (acc @ rs) (fetches + 1)"
          using Ok Some True by (subst officialLoop.simps) simp
        ultimately show ?thesis using "1.prems" by simp
      next
        case False
        with Ok Some "1.prems" show ?thesis
          by (subst officialLoop.simps) auto
      qed
    qed
  qed
qed

lemma fetchOfficialMCPServers_at_most_20:
  "snd (fetchOfficialMCPServers registry toRaw) \<le> 20"
  using officialLoop_fetches [of 0 registry toRaw None "[]" 0]
  by (simp add: fetchOfficialMCPServers_def maxPages_def)

lemma fetchOfficialMCPServers_endless:
  "snd (fetchOfficialMCPServers endlessRegistry Some) = 20"
  by (simp add: fetchOfficialMCPServers_def endlessRegistry_def maxPages_def truthy_def
        officialLoop.simps)

lemma dockerLoop_endless:
  "u \<noteq> [] \<Longrightarrow> dockerLoop fuel endlessHub Some (Some u) acc fetches = (None, fetches + fuel)"
proof (induction fuel arbitrary: u acc fetches)
  case 0
  then show ?case by simp
next
  case (Suc k)
  have "u @ ''&page=next'' \<noteq> []" by simp
  from Suc.IH [OF this] Suc.prems show ?case
    by (simp add: endlessHub_def)
qed

text \<open>
  C6, the Docker Hub half. Against a Docker Hub that reports a next link on every page,
  \<^verbatim>\<open>fetchDockerMCPServers\<close> has not returned after any number of loop rounds, and it
  has made one fetch per round: for every bound there are more fetches than the bound,
  21 of them after 21 rounds. (The official-registry loop does stop after 20 fetches:
  \<open>fetchOfficialMCPServers_at_most_20\<close>.)
\<close>

theorem fetchDockerMCPServers_unbounded:
  "fetchDockerMCPServers fuel endlessHub Some = (None, fuel)
   \<and> snd (fetchDockerMCPServers 21 endlessHub Some) > 20"
proof -
  have "dockerHubUrl \<noteq> []" by (simp add: dockerHubUrl_def)
  then have "dockerLoop n endlessHub Some (Some dockerHubUrl) [] 0 = (None, 0 + n)" for n
    by (rule dockerLoop_endless)
  then show ?thesis by (simp add: fetchDockerMCPServers_def)
qed

section \<open>Properties of the upsert\<close>

lemma slug_upsertValues [simp]:
  "mcp_slug (upsertValues stringify r src t) = generateSlug (raw_name r) src"
  by (simp add: upsertValues_def)

lemma slug_conflictUpdate [simp]: "mcp_slug (conflictUpdate v t row) = mcp_slug row"
  by (simp add: conflictUpdate_def)

lemma conflictUpdate_absorb:
  "conflictUpdate v t (conflictUpdate v' t' row) = conflictUpdate v t row"
  by (simp add: conflictUpdate_def)

lemma unstamped_conflictUpdate_values:
  "unstamped (conflictUpdate (upsertValues stringify r src t') t'' row)
     = unstamped (conflictUpdate (upsertValues stringify r src t) t row)"
  by (simp add: conflictUpdate_def unstamped_def upsertValues_def)

lemma unstamped_conflictUpdate_fresh:
  "unstamped (conflictUpdate (upsertValues stringify r src t') t''
       ((upsertValues stringify r src t)\<lparr>mcp_id := i, mcp_createdAt := c, mcp_updatedAt := u\<rparr>))
     = unstamped ((upsertValues stringify r src t)\<lparr>mcp_id := i, mcp_createdAt := c, mcp_updatedAt := u\<rparr>)"
  by (simp add: conflictUpdate_def unstamped_def upsertValues_def)

lemma slug_rewriteRow [simp]:
  "mcp_slug (rewriteRow stringify src t recs row) = mcp_slug row"
  by (induction recs arbitrary: row) simp_all

lemma conflictUpdate_rewriteRow:
  "conflictUpdate v t (rewriteRow stringify src t' recs row) = conflictUpdate v t row"
  by (induction recs arbitrary: row) (simp_all add: conflictUpdate_absorb)

lemma rewriteRow_snoc:
  "rewriteRow stringify src t (recs @ [r]) row =
     (if mcp_slug row = generateSlug (raw_name r) src
      then conflictUpdate (upsertValues stringify r src t) t (rewriteRow stringify src t recs row)
      else rewriteRow stringify src t recs row)"
  by (induction recs arbitrary: row) simp_all

lemma tableAfter_snoc:
  "tableAfter stringify src t (recs @ [r]) tbl =
     insertOnConflictDoUpdate (upsertValues stringify r src t) t (tableAfter stringify src t recs tbl)"
  by (induction recs arbitrary: tbl) simp_all

lemma slugs_insertOnConflictDoUpdate:
  "mcp_slug v \<in> set (map mcp_slug tbl) \<Longrightarrow>
   map mcp_slug (insertOnConflictDoUpdate v t tbl) = map mcp_slug tbl"
  by (simp add: insertOnConflictDoUpdate_def)

lemma slugs_grow:
  "set (map mcp_slug tbl) \<subseteq> set (map mcp_slug (insertOnConflictDoUpdate v t tbl))"
proof (cases "mcp_slug v \<in> set (map mcp_slug tbl)")
  case True
  then show ?thesis by (simp only: slugs_insertOnConflictDoUpdate subset_refl)
next
  case False
  then show ?thesis by (auto simp: insertOnConflictDoUpdate_def insertMCPServer_def)
qed

lemma slug_inserted:
  "mcp_slug v \<in> set (map mcp_slug (insertOnConflictDoUpdate v t tbl))"
proof (cases "mcp_slug v \<in> set (map mcp_slug tbl)")
  case True
  then show ?thesis by (simp only: slugs_insertOnConflictDoUpdate)
next
  case False
  then show ?thesis by (simp add: insertOnConflictDoUpdate_def insertMCPServer_def)
qed

lemma in_insertOnConflictDoUpdate:
  assumes "row \<in> set (insertOnConflictDoUpdate v t tbl)"
  shows "(row \<in> set tbl \<and> mcp_slug row \<noteq> mcp_slug v)
     \<or> (\<exists>x \<in> set tbl. mcp_slug x = mcp_slug v \<and> row = conflictUpdate v t x)
     \<or> row = v\<lparr>mcp_id := freshId tbl, mcp_createdAt := t, mcp_updatedAt := t\<rparr>"
proof (cases "mcp_slug v \<in> set (map mcp_slug tbl)")
  case True
  with assms obtain x where "x \<in> set tbl"
    and "row = (if mcp_slug x = mcp_slug v then conflictUpdate v t x else x)"
    by (auto simp: insertOnConflictDoUpdate_def)
  then show ?thesis by (cases "mcp_slug x = mcp_slug v") auto
next
  case False
  with assms have "row \<in> set tbl
      \<or> row = v\<lparr>mcp_id := freshId tbl, mcp_createdAt := t, mcp_updatedAt := t\<rparr>"
    by (auto simp: insertOnConflictDoUpdate_def insertMCPServer_def)
  moreover from False have "mcp_slug x \<noteq> mcp_slug v" if "x \<in> set tbl" for x
    using that by (auto simp: image_iff)
  ultimately show ?thesis by blast
qed

lemma slugs_tableAfter_mono:
  "set (map mcp_slug tbl) \<subseteq> set (map mcp_slug (tableAfter stringify src t recs tbl))"
proof (induction recs arbitrary: tbl)
  case Nil
  show ?case by simp
next
  case (Cons r recs)
  have "set (map mcp_slug tbl)
          \<subseteq> set (map mcp_slug (insertOnConflictDoUpdate (upsertValues stringify r src t) t tbl))"
    by (rule slugs_grow)
  also have "\<dots> \<subseteq> set (map mcp_slug (tableAfter stringify src t (r # recs) tbl))"
    using Cons.IH by simp
  finally show ?case .
qed

text \<open>After a run every record's slug is in the table.\<close>

lemma slugs_present_after:
  "r \<in> set recs \<Longrightarrow>
   generateSlug (raw_name r) src \<in> set (map mcp_slug (tableAfter stringify src t recs tbl))"
proof (induction recs arbitrary: tbl)
  case Nil
  then show ?case by simp
next
  case (Cons a recs)
  show ?case
  proof (cases "r = a")
    case True
    have "mcp_slug (upsertValues stringify a src t)
            \<in> set (map mcp_slug (insertOnConflictDoUpdate (upsertValues stringify a src t) t tbl))"
      by (rule slug_inserted)
    with slugs_tableAfter_mono [of "insertOnConflictDoUpdate (upsertValues stringify a src t) t tbl"
           stringify src t recs] True
    show ?thesis by auto
  next
    case False
    with Cons.prems have "r \<in> set recs" by simp
    from Cons.IH [OF this] show ?thesis by simp
  qed
qed

text \<open>A run over records whose slugs are all in the table rewrites the rows in place.\<close>

lemma tableAfter_rewrites:
  "\<forall>r \<in> set recs. generateSlug (raw_name r) src \<in> set (map mcp_slug tbl) \<Longrightarrow>
   tableAfter stringify src t recs tbl = map (rewriteRow stringify src t recs) tbl"
proof (induction recs arbitrary: tbl)
  case Nil
  show ?case by simp
next
  case (Cons a recs)
  let ?v = "upsertValues stringify a src t"
  let ?tbl = "insertOnConflictDoUpdate ?v t tbl"
  from Cons.prems have here: "mcp_slug ?v \<in> set (map mcp_slug tbl)" by simp
  then have same: "map mcp_slug ?tbl = map mcp_slug tbl"
    by (rule slugs_insertOnConflictDoUpdate)
  with Cons.prems have "\<forall>r \<in> set recs. generateSlug (raw_name r) src \<in> set (map mcp_slug ?tbl)"
    by simp
  from Cons.IH [OF this]
  have "tableAfter stringify src t recs ?tbl = map (rewriteRow stringify src t recs) ?tbl" .
  moreover from here
  have "?tbl = map (\<lambda>row. if mcp_slug row = mcp_slug ?v then conflictUpdate ?v t row else row) tbl"
    by (simp add: insertOnConflictDoUpdate_def)
  ultimately show ?case by (simp add: comp_def)
qed

text \<open>After a run, running the same records over any row of the table changes its stamps only.\<close>

lemma settled_after:
  "row \<in> set (tableAfter stringify src t recs tbl) \<Longrightarrow>
   unstamped (rewriteRow stringify src t' recs row) = unstamped row"
proof (induction recs arbitrary: row rule: rev_induct)
  case Nil
  show ?case by simp
next
  case (snoc r recs)
  let ?v = "upsertValues stringify r src t"
  let ?T = "tableAfter stringify src t recs tbl"
  from snoc.prems have mem: "row \<in> set (insertOnConflictDoUpdate ?v t ?T)"
    by (simp add: tableAfter_snoc)
  show ?case
  proof (cases "mcp_slug row = generateSlug (raw_name r) src")
    case False
    with in_insertOnConflictDoUpdate [OF mem] have "row \<in> set ?T"
      by auto
    from snoc.IH [OF this] False show ?thesis
      by (simp add: rewriteRow_snoc)
  next
    case True
    then have rw: "rewriteRow stringify src t' (recs @ [r]) row
        = conflictUpdate (upsertValues stringify r src t') t' row"
      by (simp add: rewriteRow_snoc conflictUpdate_rewriteRow)
    from in_insertOnConflictDoUpdate [OF mem] True
    consider x where "x \<in> set ?T" "row = conflictUpdate ?v t x"
      | "row = ?v\<lparr>mcp_id := freshId ?T, mcp_createdAt := t, mcp_updatedAt := t\<rparr>"
      by auto
    then show ?thesis
    proof cases
      case 1
      then show ?thesis
        unfolding rw
        by (simp only: conflictUpdate_absorb
              unstamped_conflictUpdate_values [where t' = t' and t'' = t' and row = x and t = t])
    next
      case 2
      then show ?thesis
        unfolding rw by (simp only: unstamped_conflictUpdate_fresh)
    qed
  qed
qed

lemma tableAfter_twice:
  "map unstamped (tableAfter stringify src t2 recs (tableAfter stringify src t1 recs tbl))
     = map unstamped (tableAfter stringify src t1 recs tbl)"
proof -
  let ?T1 = "tableAfter stringify src t1 recs tbl"
  have "\<forall>r \<in> set recs. generateSlug (raw_name r) src \<in> set (map mcp_slug ?T1)"
    using slugs_present_after by blast
  then have "tableAfter stringify src t2 recs ?T1 = map (rewriteRow stringify src t2 recs) ?T1"
    by (rule tableAfter_rewrites)
  moreover have "\<forall>row \<in> set ?T1. unstamped (rewriteRow stringify src t2 recs row) = unstamped row"
    using settled_after by blast
  ultimately show ?thesis by simp
qed

lemma exec_healthy:
  "fates w = [] \<Longrightarrow> stmt (db w) = Some (a, d) \<Longrightarrow> exec stmt w = (Resolved a, w\<lparr>db := d\<rparr>)"
  by (simp add: exec_def)

lemma upsertMCPServer_healthy:
  "fates w = [] \<Longrightarrow>
   upsertMCPServer stringify r src w =
     (Resolved True,
      w\<lparr>db := (db w)\<lparr>mcpServers :=
             insertOnConflictDoUpdate (upsertValues stringify r src (now w)) (now w)
               (mcpServers (db w))\<rparr>\<rparr>)"
  by (simp add: upsertMCPServer_def exec_healthy)

lemma indexServers_healthy:
  "fates w = [] \<Longrightarrow>
   indexServers stringify src recs (c, w) =
     (c\<lparr>indexed := indexed c + length recs\<rparr>,
      w\<lparr>db := (db w)\<lparr>mcpServers := tableAfter stringify src (now w) recs (mcpServers (db w))\<rparr>\<rparr>)"
proof (induction recs arbitrary: c w)
  case Nil
  show ?case by simp
next
  case (Cons r recs)
  let ?w = "w\<lparr>db := (db w)\<lparr>mcpServers :=
             insertOnConflictDoUpdate (upsertValues stringify r src (now w)) (now w)
               (mcpServers (db w))\<rparr>\<rparr>"
  have "fates ?w = []" using Cons.prems by simp
  from Cons.IH [OF this] Cons.prems show ?case
    by (simp add: upsertMCPServer_healthy)
qed

lemma slug_unstamped [simp]: "mcp_slug (unstamped row) = mcp_slug row"
  by (simp add: unstamped_def)

lemma slugs_of_unstamped:
  "map unstamped xs = map unstamped ys \<Longrightarrow> map mcp_slug xs = map mcp_slug ys"
proof -
  assume "map unstamped xs = map unstamped ys"
  then have "map mcp_slug (map unstamped xs) = map mcp_slug (map unstamped ys)" by simp
  then show ?thesis by (simp add: comp_def)
qed

text \<open>
  C7. On a database that answers every statement, indexing the same records of one
  source twice (at any later time, with fresh counters) leaves the table with the same
  number of rows, the same slugs in the same places, and rows that differ from the
  rows after the first run in \<^verbatim>\<open>lastIndexedAt\<close> and \<^verbatim>\<open>updatedAt\<close> only; both runs
  count every record as indexed.
\<close>

theorem indexing_twice_idempotent:
  assumes "fates w = []"
  shows "let s1 = indexServers stringify src recs (c, w);
             s2 = indexServers stringify src recs (c', (snd s1)\<lparr>now := t\<rparr>)
         in length (mcpServers (db (snd s2))) = length (mcpServers (db (snd s1)))
            \<and> map mcp_slug (mcpServers (db (snd s2))) = map mcp_slug (mcpServers (db (snd s1)))
            \<and> map unstamped (mcpServers (db (snd s2))) = map unstamped (mcpServers (db (snd s1)))
            \<and> indexed (fst s1) = indexed c + length recs
            \<and> indexed (fst s2) = indexed c' + length recs
            \<and> failed (fst s2) = failed c'"
proof -
  let ?T1 = "tableAfter stringify src (now w) recs (mcpServers (db w))"
  let ?w1 = "w\<lparr>db := (db w)\<lparr>mcpServers := ?T1\<rparr>\<rparr>"
  have s1: "indexServers stringify src recs (c, w) = (c\<lparr>indexed := indexed c + length recs\<rparr>, ?w1)"
    using assms by (rule indexServers_healthy)
  have "fates (?w1\<lparr>now := t\<rparr>) = []" using assms by simp
  then have s2: "indexServers stringify src recs (c', ?w1\<lparr>now := t\<rparr>) =
      (c'\<lparr>indexed := indexed c' + length recs\<rparr>,
       (?w1\<lparr>now := t\<rparr>)\<lparr>db := (db (?w1\<lparr>now := t\<rparr>))\<lparr>mcpServers :=
          tableAfter stringify src (now (?w1\<lparr>now := t\<rparr>)) recs
            (mcpServers (db (?w1\<lparr>now := t\<rparr>)))\<rparr>\<rparr>)"
    by (rule indexServers_healthy)
  have eq: "map unstamped (tableAfter stringify src t recs ?T1) = map unstamped ?T1"
    by (rule tableAfter_twice)
  from eq have "map mcp_slug (tableAfter stringify src t recs ?T1) = map mcp_slug ?T1"
    by (rule slugs_of_unstamped)
  moreover from eq have "length (tableAfter stringify src t recs ?T1) = length ?T1"
    by (rule map_eq_imp_length_eq)
  ultimately show ?thesis
    using eq by (simp add: s1 s2 Let_def)
qed

lemma raw_name_exampleRaw: "raw_name (exampleRaw name description) = name"
  by (simp add: exampleRaw_def)

lemma example_slugs:
  "getShortName ''foo.bar'' = ''foo-bar''"
  "getShortName ''foo_bar'' = ''foo-bar''"
  "getShortName ''foo..bar'' = ''foo--bar''"
  "generateSlug ''foo-bar'' ''official-mcp'' = ''official-mcp-foo-bar''"
  "generateSlug ''foo--bar'' ''official-mcp'' = ''official-mcp-foo-bar''"
  by code_simp+

lemma example_first_run:
  "indexServers (\<lambda>x. x) ''official-mcp''
       [exampleRaw (getShortName ''foo.bar'') ''first'',
        exampleRaw (getShortName ''foo_bar'') ''second''] (counters0, world0)
   = (\<lparr>indexed = 2, failed = 0, skipped = 0\<rparr>,
      world0\<lparr>db := emptyDatabase\<lparr>mcpServers :=
        [conflictUpdate
           (upsertValues (\<lambda>x. x) (exampleRaw ''foo-bar'' ''second'') ''official-mcp'' 1000) 1000
           ((upsertValues (\<lambda>x. x) (exampleRaw ''foo-bar'' ''first'') ''official-mcp'' 1000)
              \<lparr>mcp_id := 1, mcp_createdAt := 1000, mcp_updatedAt := 1000\<rparr>)]\<rparr>\<rparr>)"
proof -
  have h: "fates world0 = []" by (simp add: world0_def)
  show ?thesis
    by (simp only: indexServers_healthy [OF h])
       (simp add: example_slugs raw_name_exampleRaw world0_def emptyDatabase_def counters0_def
          insertOnConflictDoUpdate_def insertMCPServer_def freshId_def)
qed

theorem indexing_twice_idempotent_witness:
  "fates world0 = []
   \<and> (let s1 = indexServers (\<lambda>x. x) ''official-mcp''
                  [exampleRaw (getShortName ''foo.bar'') ''first'',
                   exampleRaw (getShortName ''foo_bar'') ''second''] (counters0, world0);
           s2 = indexServers (\<lambda>x. x) ''official-mcp''
                  [exampleRaw (getShortName ''foo.bar'') ''first'',
                   exampleRaw (getShortName ''foo_bar'') ''second'']
                  (counters0, (snd s1)\<lparr>now := 5000\<rparr>)
       in length (mcpServers (db (snd s1))) = 1
          \<and> length (mcpServers (db (snd s2))) = 1
          \<and> map mcp_slug (mcpServers (db (snd s2))) = [''official-mcp-foo-bar'']
          \<and> map mcp_description (mcpServers (db (snd s1))) = [Some ''second'']
          \<and> map unstamped (mcpServers (db (snd s2))) = map unstamped (mcpServers (db (snd s1)))
          \<and> indexed (fst s2) = 2)"
proof -
  let ?row = "conflictUpdate
           (upsertValues (\<lambda>x. x) (exampleRaw ''foo-bar'' ''second'') ''official-mcp'' 1000) 1000
           ((upsertValues (\<lambda>x. x) (exampleRaw ''foo-bar'' ''first'') ''official-mcp'' 1000)
              \<lparr>mcp_id := 1, mcp_createdAt := 1000, mcp_updatedAt := 1000\<rparr>)"
  have h: "fates world0 = []" by (simp add: world0_def)
  have d: "mcp_description ?row = Some ''second''"
    by (simp add: conflictUpdate_def upsertValues_def exampleRaw_def orNull_def)
  have g: "mcp_slug ?row = ''official-mcp-foo-bar''"
    by (simp add: raw_name_exampleRaw example_slugs)
  note T = indexing_twice_idempotent
         [OF h, of "\<lambda>x. x" "''official-mcp''"
            "[exampleRaw (getShortName ''foo.bar'') ''first'',
              exampleRaw (getShortName ''foo_bar'') ''second'']" counters0 counters0 5000,
          unfolded Let_def example_first_run]
  show ?thesis
    unfolding Let_def example_first_run
    using T h d g
    by (simp del: indexServers.simps add: counters0_def)
qed

section \<open>Slug collisions\<close>

lemma generateSlug_spec: "generateSlug name src = src @ ''-'' @ spec_normalize name"
  by (simp add: generateSlug_def spec_normalize_def hyphenate_def toLowerCase_def)

lemma charCode_hyphen: "charCode (CHR ''-'') = 45"
  by (simp add: charCode_def)

lemma lowerChar_slugChar: "slugChar c \<Longrightarrow> lowerChar c = c"
  by (auto simp: slugChar_def lowerChar_def charCode_hyphen)

lemma slugChar_hyphen: "slugChar (CHR ''-'')"
  by (simp add: slugChar_def)

lemma hyphenate_lower_idem:
  "hyphenate (toLowerCase (hyphenate (toLowerCase u))) = hyphenate (toLowerCase u)"
  by (induction u) (simp_all add: hyphenate_def toLowerCase_def lowerChar_slugChar slugChar_hyphen)

lemma generateSlug_dockerShortName:
  "generateSlug (dockerShortName u) src = src @ ''-'' @ spec_normalize u"
  by (simp add: generateSlug_def dockerShortName_def hyphenate_lower_idem)
     (simp add: spec_normalize_def hyphenate_def toLowerCase_def)

lemma generateSlug_getShortName:
  "u \<noteq> [] \<Longrightarrow> \<not> str_includes u ''/'' \<Longrightarrow>
   generateSlug (getShortName u) src = src @ ''-'' @ spec_normalize u"
  by (simp add: generateSlug_def getShortName_def hyphenate_lower_idem)
     (simp add: spec_normalize_def hyphenate_def toLowerCase_def)

lemma length_insertOnConflictDoUpdate:
  "length (insertOnConflictDoUpdate v t tbl) \<le> length tbl + 1"
  by (simp add: insertOnConflictDoUpdate_def insertMCPServer_def)

lemma distinct_slugs_insertOnConflictDoUpdate:
  "distinct (map mcp_slug tbl) \<Longrightarrow> distinct (map mcp_slug (insertOnConflictDoUpdate v t tbl))"
proof (cases "mcp_slug v \<in> set (map mcp_slug tbl)")
  case True
  assume "distinct (map mcp_slug tbl)"
  with True show ?thesis by (simp only: slugs_insertOnConflictDoUpdate)
next
  case False
  assume "distinct (map mcp_slug tbl)"
  with False show ?thesis by (simp add: insertOnConflictDoUpdate_def insertMCPServer_def)
qed

lemma one_row_per_key:
  "distinct (map f xs) \<Longrightarrow> k \<in> set (map f xs) \<Longrightarrow> length (filter (\<lambda>x. f x = k) xs) = 1"
proof (induction xs)
  case Nil
  then show ?case by simp
next
  case (Cons x xs)
  show ?case
  proof (cases "f x = k")
    case True
    with Cons.prems have "\<forall>y \<in> set xs. f y \<noteq> k" by (auto simp: image_iff)
    then have "filter (\<lambda>x. f x = k) xs = []" by (simp add: filter_empty_conv)
    with True show ?thesis by simp
  next
    case False
    with Cons show ?thesis by auto
  qed
qed

lemma upsert_collision:
  assumes h: "fates w = []"
    and same: "generateSlug (raw_name r1) src = generateSlug (raw_name r2) src"
  shows "(let tbl = mcpServers (db w);
             tbl' = mcpServers (db (snd (indexServers stringify src [r1, r2] (c, w))))
         in length tbl' \<le> length tbl + 1
            \<and> generateSlug (raw_name r2) src \<in> set (map mcp_slug tbl')
            \<and> (\<forall>row \<in> set tbl'. mcp_slug row = generateSlug (raw_name r2) src \<longrightarrow>
                 conflictUpdate (upsertValues stringify r2 src (now w)) (now w) row = row)
            \<and> (distinct (map mcp_slug tbl) \<longrightarrow>
                 length (filter (\<lambda>row. mcp_slug row = generateSlug (raw_name r2) src) tbl') = 1))"
proof -
  let ?t = "now w"
  let ?v1 = "upsertValues stringify r1 src ?t"
  let ?v2 = "upsertValues stringify r2 src ?t"
  let ?T = "mcpServers (db w)"
  let ?T1 = "insertOnConflictDoUpdate ?v1 ?t ?T"
  let ?T2 = "insertOnConflictDoUpdate ?v2 ?t ?T1"
  have run: "mcpServers (db (snd (indexServers stringify src [r1, r2] (c, w)))) = ?T2"
    by (simp only: indexServers_healthy [OF h]) simp
  have "mcp_slug ?v1 \<in> set (map mcp_slug ?T1)" by (rule slug_inserted)
  with same have here: "mcp_slug ?v2 \<in> set (map mcp_slug ?T1)" by simp
  then have slugs: "map mcp_slug ?T2 = map mcp_slug ?T1"
    by (rule slugs_insertOnConflictDoUpdate)
  then have "length ?T2 = length ?T1" by (rule map_eq_imp_length_eq)
  moreover have "length ?T1 \<le> length ?T + 1" by (rule length_insertOnConflictDoUpdate)
  ultimately have len: "length ?T2 \<le> length ?T + 1" by simp
  from here slugs have mem: "generateSlug (raw_name r2) src \<in> set (map mcp_slug ?T2)" by simp
  from here have T2: "?T2 = map (\<lambda>row. if mcp_slug row = mcp_slug ?v2
                       then conflictUpdate ?v2 ?t row else row) ?T1"
    by (simp add: insertOnConflictDoUpdate_def)
  have upd: "conflictUpdate ?v2 ?t row = row"
    if "row \<in> set ?T2" and "mcp_slug row = generateSlug (raw_name r2) src" for row
  proof -
    from that(1) T2 obtain x where "x \<in> set ?T1"
      and row: "row = (if mcp_slug x = mcp_slug ?v2 then conflictUpdate ?v2 ?t x else x)"
      by auto
    with that(2) have "row = conflictUpdate ?v2 ?t x"
      by (cases "mcp_slug x = mcp_slug ?v2") simp_all
    then show ?thesis by (simp add: conflictUpdate_absorb)
  qed
  have one: "length (filter (\<lambda>row. mcp_slug row = generateSlug (raw_name r2) src) ?T2) = 1"
    if "distinct (map mcp_slug ?T)"
  proof -
    from that have "distinct (map mcp_slug ?T1)" by (rule distinct_slugs_insertOnConflictDoUpdate)
    then have "distinct (map mcp_slug ?T2)" by (rule distinct_slugs_insertOnConflictDoUpdate)
    from this mem show ?thesis by (rule one_row_per_key)
  qed
  from len mem upd one show ?thesis
    unfolding Let_def run by blast
qed

text \<open>
  C10. Two record names that normalize to the same string (lowercase, every character
  outside \<^verbatim>\<open>[a-z0-9-]\<close> replaced by a hyphen, hyphen runs collapsed) get the same slug
  within one source registry; the slug of a Docker Hub repository name, and of an
  official-registry name without a slash, is the registry label, a hyphen and that
  normalization of the upstream name. On a database that answers every statement,
  indexing two records with one slug adds at most one row; afterwards the slug is in
  the table, every row holding it carries the descriptive columns of the second record
  (updating it again from the second record changes nothing), and a table with unique
  slugs holds exactly one such row: two records, one row.
\<close>

theorem slug_collision:
  "(spec_normalize n1 = spec_normalize n2 \<longrightarrow> generateSlug n1 src = generateSlug n2 src)
   \<and> generateSlug (dockerShortName u) src = src @ ''-'' @ spec_normalize u
   \<and> (u \<noteq> [] \<and> \<not> str_includes u ''/'' \<longrightarrow>
        generateSlug (getShortName u) src = src @ ''-'' @ spec_normalize u)
   \<and> (fates w = [] \<and> generateSlug (raw_name r1) src = generateSlug (raw_name r2) src \<longrightarrow>
        (let tbl = mcpServers (db w);
             tbl' = mcpServers (db (snd (indexServers stringify src [r1, r2] (c, w))))
         in length tbl' \<le> length tbl + 1
            \<and> generateSlug (raw_name r2) src \<in> set (map mcp_slug tbl')
            \<and> (\<forall>row \<in> set tbl'. mcp_slug row = generateSlug (raw_name r2) src \<longrightarrow>
                 conflictUpdate (upsertValues stringify r2 src (now w)) (now w) row = row)
            \<and> (distinct (map mcp_slug tbl) \<longrightarrow>
                 length (filter (\<lambda>row. mcp_slug row = generateSlug (raw_name r2) src) tbl') = 1)))"
proof -
  have A: "spec_normalize n1 = spec_normalize n2 \<longrightarrow> generateSlug n1 src = generateSlug n2 src"
    by (simp add: generateSlug_spec)
  have B: "generateSlug (dockerShortName u) src = src @ ''-'' @ spec_normalize u"
    by (rule generateSlug_dockerShortName)
  have C: "u \<noteq> [] \<and> \<not> str_includes u ''/'' \<longrightarrow>
        generateSlug (getShortName u) src = src @ ''-'' @ spec_normalize u"
    by (simp add: generateSlug_getShortName)
  from A B C upsert_collision [of w r1 src r2 stringify c] show ?thesis
    by blast
qed

lemma example_collision_run:
  "indexServers (\<lambda>x. x) ''official-mcp''
       [exampleRaw (getShortName ''foo.bar'') ''first'',
        exampleRaw (getShortName ''foo..bar'') ''second''] (counters0, world0)
   = (\<lparr>indexed = 2, failed = 0, skipped = 0\<rparr>,
      world0\<lparr>db := emptyDatabase\<lparr>mcpServers :=
        [conflictUpdate
           (upsertValues (\<lambda>x. x) (exampleRaw ''foo--bar'' ''second'') ''official-mcp'' 1000) 1000
           ((upsertValues (\<lambda>x. x) (exampleRaw ''foo-bar'' ''first'') ''official-mcp'' 1000)
              \<lparr>mcp_id := 1, mcp_createdAt := 1000, mcp_updatedAt := 1000\<rparr>)]\<rparr>\<rparr>)"
proof -
  have h: "fates world0 = []" by (simp add: world0_def)
  show ?thesis
    by (simp only: indexServers_healthy [OF h])
       (simp add: example_slugs raw_name_exampleRaw world0_def emptyDatabase_def counters0_def
          insertOnConflictDoUpdate_def insertMCPServer_def freshId_def)
qed

theorem slug_collision_witness:
  "''foo.bar'' \<noteq> ''foo_bar''
   \<and> spec_normalize ''foo.bar'' = ''foo-bar'' \<and> spec_normalize ''foo_bar'' = ''foo-bar''
   \<and> generateSlug ''foo.bar'' ''docker'' = generateSlug ''foo_bar'' ''docker''
   \<and> ''foo.bar'' \<noteq> [] \<and> \<not> str_includes ''foo.bar'' ''/''
   \<and> generateSlug (getShortName ''foo.bar'') ''official-mcp'' = ''official-mcp-foo-bar''
   \<and> generateSlug (getShortName ''foo_bar'') ''official-mcp'' = ''official-mcp-foo-bar''
   \<and> fates world0 = []
   \<and> raw_name (exampleRaw (getShortName ''foo.bar'') ''first'')
        \<noteq> raw_name (exampleRaw (getShortName ''foo..bar'') ''second'')
   \<and> generateSlug (raw_name (exampleRaw (getShortName ''foo.bar'') ''first'')) ''official-mcp''
        = generateSlug (raw_name (exampleRaw (getShortName ''foo..bar'') ''second'')) ''official-mcp''
   \<and> distinct (map mcp_slug (mcpServers (db world0)))
   \<and> (let tbl' = mcpServers (db (snd (indexServers (\<lambda>x. x) ''official-mcp''
                     [exampleRaw (getShortName ''foo.bar'') ''first'',
                      exampleRaw (getShortName ''foo..bar'') ''second''] (counters0, world0))))
       in length tbl' = 1
          \<and> map mcp_name tbl' = [''foo-bar'']
          \<and> map mcp_slug tbl' = [''official-mcp-foo-bar'']
          \<and> map mcp_description tbl' = [Some ''second'']
          \<and> length (filter (\<lambda>row. mcp_slug row = ''official-mcp-foo-bar'') tbl') = 1)"
proof -
  let ?r1 = "exampleRaw (getShortName ''foo.bar'') ''first''"
  let ?r2 = "exampleRaw (getShortName ''foo..bar'') ''second''"
  let ?row = "conflictUpdate
           (upsertValues (\<lambda>x. x) (exampleRaw ''foo--bar'' ''second'') ''official-mcp'' 1000) 1000
           ((upsertValues (\<lambda>x. x) (exampleRaw ''foo-bar'' ''first'') ''official-mcp'' 1000)
              \<lparr>mcp_id := 1, mcp_createdAt := 1000, mcp_updatedAt := 1000\<rparr>)"
  have n: "spec_normalize ''foo.bar'' = ''foo-bar''" "spec_normalize ''foo_bar'' = ''foo-bar''"
    "\<not> str_includes ''foo.bar'' ''/''"
    by code_simp+
  have h: "fates world0 = []" by (simp add: world0_def)
  have e: "mcpServers (db world0) = []" by (simp add: world0_def emptyDatabase_def)
  have s: "generateSlug (raw_name ?r1) ''official-mcp'' = generateSlug (raw_name ?r2) ''official-mcp''"
    by (simp add: raw_name_exampleRaw example_slugs)
  have s2: "generateSlug (raw_name ?r2) ''official-mcp'' = ''official-mcp-foo-bar''"
    by (simp add: raw_name_exampleRaw example_slugs)
  have d: "mcp_description ?row = Some ''second''" "mcp_name ?row = ''foo-bar''"
    by (simp_all add: conflictUpdate_def upsertValues_def exampleRaw_def orNull_def)
  have g: "mcp_slug ?row = ''official-mcp-foo-bar''"
    by (simp add: raw_name_exampleRaw example_slugs)
  note T = slug_collision
      [of "''foo.bar''" "''foo_bar''" "''docker''" "''foo.bar''" world0 ?r1 ?r2 "\<lambda>x. x" counters0,
       unfolded Let_def example_collision_run]
  have T': "generateSlug ''foo.bar'' ''docker'' = generateSlug ''foo_bar'' ''docker''"
    using T n by simp
  show ?thesis
    unfolding Let_def example_collision_run
    using T' n h d g
    by (simp add: raw_name_exampleRaw example_slugs world0_def emptyDatabase_def)
qed

section \<open>Properties of the stats syncer\<close>

lemma andThen_resolved: "p w = (Resolved a, w') \<Longrightarrow> andThen p k w = k a w'"
  by (simp add: andThen_def)

lemma syncDocker_healthy:
  "fates w = [] \<Longrightarrow>
   syncDocker fD server w =
     (Resolved (pullsLookup fD server \<noteq> None),
      (case pullsLookup fD server of
         None \<Rightarrow> w
       | Some pulls \<Rightarrow>
           w\<lparr>db := (db w)\<lparr>mcpServers :=
                   map (\<lambda>row. if mcp_id row = sv_id server
                              then setDockerPulls pulls (now w) row else row) (mcpServers (db w)),
                 mcpServerStats := mcpServerStats (db w) @ [dockerSnapshot server pulls]\<rparr>\<rparr>))"
  by (auto simp: syncDocker_def pullsLookup_def resolve_def andThen_def exec_def
        updateWhereId_def insertStats_def split: option.splits)

lemma syncGithub_healthy:
  "fates w = [] \<Longrightarrow>
   syncGithub fG server su w =
     (Resolved (su \<or> starsLookup fG server \<noteq> None),
      (case starsLookup fG server of
         None \<Rightarrow> w
       | Some stars \<Rightarrow>
           w\<lparr>db := (db w)\<lparr>mcpServers :=
                   map (\<lambda>row. if mcp_id row = sv_id server
                              then setGithubStars stars (now w) row else row) (mcpServers (db w)),
                 mcpServerStats := mcpServerStats (db w)
                    @ (if su then [] else [githubSnapshot server stars])\<rparr>\<rparr>))"
  by (auto simp: syncGithub_def starsLookup_def resolve_def andThen_def exec_def
        updateWhereId_def insertStats_def split: option.splits)

lemma syncServer_healthy:
  assumes "fates w = []"
  shows "syncServer fD fG server w =
     (Resolved (snapshotsOf fD fG server \<noteq> []),
      w\<lparr>db := (db w)\<lparr>mcpServers := serversAfter fD fG (now w) server (mcpServers (db w)),
                     mcpServerStats := mcpServerStats (db w) @ snapshotsOf fD fG server\<rparr>\<rparr>)"
proof (cases "pullsLookup fD server")
  case None
  with assms show ?thesis
    by (cases "starsLookup fG server")
       (simp_all add: syncServer_def andThen_def syncDocker_healthy syncGithub_healthy
          snapshotsOf_def serversAfter_def)
next
  case (Some pulls)
  let ?w = "w\<lparr>db := (db w)\<lparr>mcpServers :=
                   map (\<lambda>row. if mcp_id row = sv_id server
                              then setDockerPulls pulls (now w) row else row) (mcpServers (db w)),
                 mcpServerStats := mcpServerStats (db w) @ [dockerSnapshot server pulls]\<rparr>\<rparr>"
  have "fates ?w = []" using assms by simp
  from syncGithub_healthy [OF this, of fG server True] Some assms show ?thesis
    by (cases "starsLookup fG server")
       (simp_all add: syncServer_def andThen_def syncDocker_healthy
          snapshotsOf_def serversAfter_def)
qed

lemma world_db_same: "w\<lparr>db := (db w)\<lparr>mcpServers := mcpServers (db w), mcpServerStats := mcpServerStats (db w)\<rparr>\<rparr> = w"
  by simp

lemma syncLoop_healthy:
  "fates w = [] \<Longrightarrow>
   syncLoop fD fG ss (res, w) =
     (res\<lparr>updated := updated res + length (filter (\<lambda>s. snapshotsOf fD fG s \<noteq> []) ss)\<rparr>,
      w\<lparr>db := (db w)\<lparr>mcpServers :=
                      foldl (\<lambda>tbl s. serversAfter fD fG (now w) s tbl) (mcpServers (db w)) ss,
                    mcpServerStats := mcpServerStats (db w) @ concat (map (snapshotsOf fD fG) ss)\<rparr>\<rparr>)"
proof (induction ss arbitrary: res w)
  case Nil
  show ?case by simp
next
  case (Cons s ss)
  let ?w = "w\<lparr>db := (db w)\<lparr>mcpServers := serversAfter fD fG (now w) s (mcpServers (db w)),
                     mcpServerStats := mcpServerStats (db w) @ snapshotsOf fD fG s\<rparr>\<rparr>"
  have h: "fates ?w = []" using Cons.prems by simp
  show ?case
    by (simp add: syncServer_healthy [OF Cons.prems] Cons.IH [OF h])
qed

lemma ids_serversAfter: "map mcp_id (serversAfter fD fG t s tbl) = map mcp_id tbl"
  by (simp add: serversAfter_def setDockerPulls_def setGithubStars_def Let_def comp_def
        split: option.splits)

lemma others_serversAfter:
  "sv_id s \<noteq> i \<Longrightarrow>
   filter (\<lambda>r. mcp_id r = i) (serversAfter fD fG t s tbl) = filter (\<lambda>r. mcp_id r = i) tbl"
proof -
  assume ne: "sv_id s \<noteq> i"
  have m: "filter (\<lambda>r. mcp_id r = i) (map (\<lambda>row. if mcp_id row = sv_id s then f row else row) xs)
         = filter (\<lambda>r. mcp_id r = i) xs" if "\<And>r. mcp_id (f r) = mcp_id r" for f xs
    using ne that by (induction xs) auto
  have d: "mcp_id (setDockerPulls p t r) = mcp_id r" for p r
    by (simp add: setDockerPulls_def)
  have g: "mcp_id (setGithubStars p t r) = mcp_id r" for p r
    by (simp add: setGithubStars_def)
  show ?thesis
    by (simp add: serversAfter_def Let_def m d g split: option.splits)
qed

lemma others_foldl:
  "\<forall>s \<in> set ss. sv_id s \<noteq> i \<Longrightarrow>
   filter (\<lambda>r. mcp_id r = i) (foldl (\<lambda>tbl s. serversAfter fD fG t s tbl) tbl ss)
     = filter (\<lambda>r. mcp_id r = i) tbl"
  by (induction ss arbitrary: tbl) (simp_all add: others_serversAfter)

lemma ids_foldl:
  "map mcp_id (foldl (\<lambda>tbl s. serversAfter fD fG t s tbl) tbl ss) = map mcp_id tbl"
  by (induction ss arbitrary: tbl) (simp_all add: ids_serversAfter)

lemma stars_serversAfter:
  "starsLookup fG s = Some stars \<Longrightarrow> r \<in> set (serversAfter fD fG t s tbl) \<Longrightarrow>
   mcp_id r = sv_id s \<Longrightarrow> mcp_githubStars r = Some stars"
  by (auto simp: serversAfter_def Let_def setGithubStars_def setDockerPulls_def
        split: option.splits if_splits)

lemma snapshot_ids: "x \<in> set (snapshotsOf fD fG s) \<Longrightarrow> st_mcpServerId x = sv_id s"
  by (auto simp: snapshotsOf_def dockerSnapshot_def githubSnapshot_def split: option.splits)

lemma filter_snapshots:
  "filter (\<lambda>x. st_mcpServerId x = i) (snapshotsOf fD fG s)
     = (if sv_id s = i then snapshotsOf fD fG s else [])"
  by (auto simp: filter_empty_conv snapshot_ids filter_id_conv)

lemma the_one_server:
  "distinct (map sv_id ss) \<Longrightarrow> s \<in> set ss \<Longrightarrow>
   concat (map (\<lambda>y. if sv_id y = sv_id s then g y else []) ss) = g s"
proof (induction ss)
  case Nil
  then show ?case by simp
next
  case (Cons a ss)
  show ?case
  proof (cases "a = s")
    case True
    with Cons.prems have "\<forall>y \<in> set ss. sv_id y \<noteq> sv_id s" by (auto simp: image_iff)
    then have "concat (map (\<lambda>y. if sv_id y = sv_id s then g y else []) ss) = []"
      by (induction ss) auto
    with True show ?thesis by simp
  next
    case False
    with Cons.prems have "s \<in> set ss" and "sv_id a \<noteq> sv_id s" by (auto simp: image_iff)
    with Cons show ?thesis by simp
  qed
qed

lemma snapshots_of_pass:
  assumes "distinct (map sv_id ss)" and "s \<in> set ss"
  shows "filter (\<lambda>x. st_mcpServerId x = sv_id s) (concat (map (snapshotsOf fD fG) ss))
           = snapshotsOf fD fG s"
proof -
  have "filter (\<lambda>x. st_mcpServerId x = sv_id s) (concat (map (snapshotsOf fD fG) ss))
      = concat (map (\<lambda>y. if sv_id y = sv_id s then snapshotsOf fD fG y else []) ss)"
    by (simp add: filter_concat comp_def filter_snapshots)
  also have "\<dots> = snapshotsOf fD fG s"
    using assms by (rule the_one_server)
  finally show ?thesis .
qed

lemma stars_of_pass:
  assumes d: "distinct (map sv_id ss)" and s: "s \<in> set ss"
    and l: "starsLookup fG s = Some stars"
    and r: "r \<in> set (foldl (\<lambda>tbl s. serversAfter fD fG t s tbl) tbl ss)" "mcp_id r = sv_id s"
  shows "mcp_githubStars r = Some stars"
proof -
  from s obtain pre post where ss: "ss = pre @ s # post" by (auto dest: split_list)
  with d have "\<forall>y \<in> set post. sv_id y \<noteq> sv_id s" by (auto simp: image_iff)
  then have "filter (\<lambda>r. mcp_id r = sv_id s) (foldl (\<lambda>tbl s. serversAfter fD fG t s tbl) tbl ss)
      = filter (\<lambda>r. mcp_id r = sv_id s)
          (serversAfter fD fG t s (foldl (\<lambda>tbl s. serversAfter fD fG t s tbl) tbl pre))"
    by (simp add: ss others_foldl)
  moreover from r have "r \<in> set (filter (\<lambda>r. mcp_id r = sv_id s)
      (foldl (\<lambda>tbl s. serversAfter fD fG t s tbl) tbl ss))" by simp
  ultimately have "r \<in> set (serversAfter fD fG t s (foldl (\<lambda>tbl s. serversAfter fD fG t s tbl) tbl pre))"
    by simp
  from stars_serversAfter [OF l this r(2)] show ?thesis .
qed

lemma sv_id_syncColumns: "sv_id (syncColumns row) = mcp_id row"
  by (simp add: syncColumns_def)

lemma syncMCPServerStats_healthy:
  assumes "fates w = []" and "\<not> blocked now (b, w)"
  shows "syncMCPServerStats fD fG (b, w) =
     (\<lparr>updated = length (filter (\<lambda>s. snapshotsOf fD fG s \<noteq> [])
                           (map syncColumns (filter mcp_active (mcpServers (db w))))),
       failed_syncs = 0\<rparr>,
      reopened b,
      w\<lparr>db := (db w)\<lparr>mcpServers :=
                      foldl (\<lambda>tbl s. serversAfter fD fG (now w) s tbl) (mcpServers (db w))
                        (map syncColumns (filter mcp_active (mcpServers (db w)))),
                    mcpServerStats := mcpServerStats (db w)
                      @ concat (map (snapshotsOf fD fG)
                          (map syncColumns (filter mcp_active (mcpServers (db w)))))\<rparr>\<rparr>)"
proof -
  have "exec loadServers w
      = (Resolved (map syncColumns (filter mcp_active (mcpServers (db w)))), w)"
    using assms(1) by (simp add: exec_def loadServers_def)
  from safeDbQuery_resolved [where q = "exec loadServers" and fb = "[]", OF assms(2) this]
  have "safeDbQuery now (exec loadServers) [] (b, w)
      = (\<lparr>data = map syncColumns (filter mcp_active (mcpServers (db w))), fromDb = True\<rparr>,
         reopened b, w)" .
  then show ?thesis
    by (simp add: syncMCPServerStats_def syncLoop_healthy [OF assms(1)])
qed

text \<open>
  C8. In one pass of \<^verbatim>\<open>syncMCPServerStats\<close> over a database that answers every
  statement (breaker not blocking, ids unique), for every active server with a
  repository URL whose star lookup gives a number: the pass appends exactly one
  snapshot row for that server, and afterwards the server's row holds the new star
  count. When the Docker Hub lookup does not apply or gives nothing, the one row is the
  snapshot with the new star count; when the Docker Hub lookup gives a pull count as
  well, the one row is the snapshot written with the pull count, and no second one
  follows.
\<close>

theorem stats_sync_one_snapshot:
  assumes "fates w = []" and "\<not> blocked now (b, w)"
    and "distinct (map mcp_id (mcpServers (db w)))"
    and "row \<in> set (mcpServers (db w))" and "mcp_active row"
    and "truthy (mcp_githubUrl row)" and "fetchGitHubStats (the (mcp_githubUrl row)) = Some stars"
  shows "case syncMCPServerStats fetchDockerStats fetchGitHubStats (b, w) of
           (result, b', w') \<Rightarrow>
             snapshotsFor (mcp_id row) (db w')
               = snapshotsFor (mcp_id row) (db w)
                 @ [case pullsLookup fetchDockerStats (syncColumns row) of
                      None \<Rightarrow> githubSnapshot (syncColumns row) stars
                    | Some pulls \<Rightarrow> dockerSnapshot (syncColumns row) pulls]
             \<and> mcp_id row \<in> set (map mcp_id (mcpServers (db w')))
             \<and> (\<forall>r \<in> set (mcpServers (db w')).
                   mcp_id r = mcp_id row \<longrightarrow> mcp_githubStars r = Some stars)
             \<and> failed_syncs result = 0"
proof -
  let ?ss = "map syncColumns (filter mcp_active (mcpServers (db w)))"
  let ?s = "syncColumns row"
  let ?T = "foldl (\<lambda>tbl s. serversAfter fetchDockerStats fetchGitHubStats (now w) s tbl)
              (mcpServers (db w)) ?ss"
  have look: "starsLookup fetchGitHubStats ?s = Some stars"
    using assms(6,7) by (simp add: starsLookup_def syncColumns_def)
  have "map sv_id ?ss = map mcp_id (filter mcp_active (mcpServers (db w)))"
    by (simp add: comp_def sv_id_syncColumns)
  moreover from assms(3) have "distinct (map mcp_id (filter mcp_active (mcpServers (db w))))"
    by (rule distinct_map_filter)
  ultimately have dist: "distinct (map sv_id ?ss)"
    by (simp only:)
  from assms(4,5) have mem: "?s \<in> set ?ss" by simp
  have snaps: "filter (\<lambda>x. st_mcpServerId x = sv_id ?s)
          (concat (map (snapshotsOf fetchDockerStats fetchGitHubStats) ?ss))
        = snapshotsOf fetchDockerStats fetchGitHubStats ?s"
    using dist mem by (rule snapshots_of_pass)
  have one: "snapshotsOf fetchDockerStats fetchGitHubStats ?s
        = [case pullsLookup fetchDockerStats ?s of
             None \<Rightarrow> githubSnapshot ?s stars
           | Some pulls \<Rightarrow> dockerSnapshot ?s pulls]"
    using look by (simp add: snapshotsOf_def split: option.splits)
  have stars: "mcp_githubStars r = Some stars" if "r \<in> set ?T" "mcp_id r = mcp_id row" for r
    using stars_of_pass [OF dist mem look that(1)] that(2) by (simp add: sv_id_syncColumns)
  have ids: "map mcp_id ?T = map mcp_id (mcpServers (db w))"
    by (rule ids_foldl)
  from assms(4) have "mcp_id row \<in> set (map mcp_id (mcpServers (db w)))" by simp
  with ids have here: "mcp_id row \<in> set (map mcp_id ?T)" by simp
  from snaps one stars here show ?thesis
    by (simp add: syncMCPServerStats_healthy [OF assms(1,2)] snapshotsFor_def sv_id_syncColumns)
qed

lemma example_rows:
  "mcp_id alphaRow = 1" "mcp_id betaRow = 2" "mcp_active alphaRow" "mcp_active betaRow"
  "mcp_githubUrl alphaRow = Some ''https://github.com/acme/alpha''"
  "mcp_githubUrl betaRow = Some ''https://github.com/acme/beta''"
  "syncColumns alphaRow =
     \<lparr>sv_id = 1, sv_name = ''alpha'', sv_sourceRegistry = ''docker'',
      sv_dockerUrl = Some ''https://hub.docker.com/r/mcp/alpha'',
      sv_githubUrl = Some ''https://github.com/acme/alpha'',
      sv_githubStars = Some 0, sv_dockerPulls = Some 0, sv_npmDownloads = Some 0\<rparr>"
  "syncColumns betaRow =
     \<lparr>sv_id = 2, sv_name = ''beta'', sv_sourceRegistry = ''official-mcp'',
      sv_dockerUrl = None, sv_githubUrl = Some ''https://github.com/acme/beta'',
      sv_githubStars = Some 0, sv_dockerPulls = Some 0, sv_npmDownloads = Some 0\<rparr>"
  by (simp_all add: alphaRow_def betaRow_def exampleRow_def syncColumns_def)

lemma example_lookups:
  "pullsLookup examplePulls (syncColumns alphaRow) = Some 500"
  "pullsLookup examplePulls (syncColumns betaRow) = None"
  "starsLookup exampleStars (syncColumns alphaRow) = Some 7"
  "starsLookup exampleStars (syncColumns betaRow) = Some 9"
  by (simp_all add: example_rows pullsLookup_def starsLookup_def examplePulls_def
        exampleStars_def truthy_def)

lemma example_snapshots:
  "githubSnapshot (syncColumns betaRow) 9
     = \<lparr>st_mcpServerId = 2, st_githubStars = 9, st_dockerPulls = 0, st_npmDownloads = 0\<rparr>"
  "dockerSnapshot (syncColumns alphaRow) 500
     = \<lparr>st_mcpServerId = 1, st_githubStars = 0, st_dockerPulls = 500, st_npmDownloads = 0\<rparr>"
  by (simp_all add: example_rows githubSnapshot_def dockerSnapshot_def orZero_def)

lemma example_effects:
  "snapshotsOf examplePulls exampleStars (syncColumns alphaRow)
     = [\<lparr>st_mcpServerId = 1, st_githubStars = 0, st_dockerPulls = 500, st_npmDownloads = 0\<rparr>]"
  "snapshotsOf examplePulls exampleStars (syncColumns betaRow)
     = [\<lparr>st_mcpServerId = 2, st_githubStars = 9, st_dockerPulls = 0, st_npmDownloads = 0\<rparr>]"
  "serversAfter examplePulls exampleStars t (syncColumns alphaRow) [alphaRow, betaRow]
     = [setGithubStars 7 t (setDockerPulls 500 t alphaRow), betaRow]"
  "serversAfter examplePulls exampleStars t (syncColumns betaRow)
       [setGithubStars 7 t (setDockerPulls 500 t alphaRow), betaRow]
     = [setGithubStars 7 t (setDockerPulls 500 t alphaRow), setGithubStars 9 t betaRow]"
proof -
  have ids: "mcp_id (setDockerPulls 500 t alphaRow) = 1"
    "mcp_id (setGithubStars 7 t (setDockerPulls 500 t alphaRow)) = 1"
    by (simp_all add: setDockerPulls_def setGithubStars_def example_rows)
  show "snapshotsOf examplePulls exampleStars (syncColumns alphaRow)
     = [\<lparr>st_mcpServerId = 1, st_githubStars = 0, st_dockerPulls = 500, st_npmDownloads = 0\<rparr>]"
    by (simp add: snapshotsOf_def example_lookups example_snapshots)
  show "snapshotsOf examplePulls exampleStars (syncColumns betaRow)
     = [\<lparr>st_mcpServerId = 2, st_githubStars = 9, st_dockerPulls = 0, st_npmDownloads = 0\<rparr>]"
    by (simp add: snapshotsOf_def example_lookups example_snapshots)
  show "serversAfter examplePulls exampleStars t (syncColumns alphaRow) [alphaRow, betaRow]
     = [setGithubStars 7 t (setDockerPulls 500 t alphaRow), betaRow]"
    by (simp add: serversAfter_def example_lookups sv_id_syncColumns example_rows(1-4) ids)
  show "serversAfter examplePulls exampleStars t (syncColumns betaRow)
       [setGithubStars 7 t (setDockerPulls 500 t alphaRow), betaRow]
     = [setGithubStars 7 t (setDockerPulls 500 t alphaRow), setGithubStars 9 t betaRow]"
    by (simp add: serversAfter_def example_lookups sv_id_syncColumns example_rows(1-4) ids)
qed

lemma example_pass:
  "syncMCPServerStats examplePulls exampleStars (breaker0, statsWorld) =
     (\<lparr>updated = 2, failed_syncs = 0\<rparr>, breaker0,
      statsWorld\<lparr>db := emptyDatabase
        \<lparr>mcpServers := [setGithubStars 7 1000 (setDockerPulls 500 1000 alphaRow),
                         setGithubStars 9 1000 betaRow],
         mcpServerStats :=
           [\<lparr>st_mcpServerId = 1, st_githubStars = 0, st_dockerPulls = 500, st_npmDownloads = 0\<rparr>,
            \<lparr>st_mcpServerId = 2, st_githubStars = 9, st_dockerPulls = 0, st_npmDownloads = 0\<rparr>]\<rparr>\<rparr>)"
proof -
  have h: "fates statsWorld = []" by (simp add: statsWorld_def)
  have nb: "\<not> blocked now (breaker0, statsWorld)" by (simp add: blocked_def breaker0_def)
  show ?thesis
    by (simp only: syncMCPServerStats_healthy [OF h nb])
       (simp add: statsWorld_def emptyDatabase_def example_rows(1-4) example_effects
          reopened_def breaker0_def)
qed

theorem stats_sync_one_snapshot_witness:
  "fates statsWorld = [] \<and> \<not> blocked now (breaker0, statsWorld)
   \<and> distinct (map mcp_id (mcpServers (db statsWorld)))
   \<and> betaRow \<in> set (mcpServers (db statsWorld)) \<and> mcp_active betaRow
   \<and> truthy (mcp_githubUrl betaRow) \<and> exampleStars (the (mcp_githubUrl betaRow)) = Some 9
   \<and> alphaRow \<in> set (mcpServers (db statsWorld)) \<and> mcp_active alphaRow
   \<and> truthy (mcp_githubUrl alphaRow) \<and> exampleStars (the (mcp_githubUrl alphaRow)) = Some 7
   \<and> pullsLookup examplePulls (syncColumns betaRow) = None
   \<and> pullsLookup examplePulls (syncColumns alphaRow) = Some 500
   \<and> snapshotsFor 2 (db (snd (snd (syncMCPServerStats examplePulls exampleStars (breaker0, statsWorld)))))
       = [\<lparr>st_mcpServerId = 2, st_githubStars = 9, st_dockerPulls = 0, st_npmDownloads = 0\<rparr>]
   \<and> snapshotsFor 1 (db (snd (snd (syncMCPServerStats examplePulls exampleStars (breaker0, statsWorld)))))
       = [\<lparr>st_mcpServerId = 1, st_githubStars = 0, st_dockerPulls = 500, st_npmDownloads = 0\<rparr>]
   \<and> map mcp_githubStars
         (mcpServers (db (snd (snd (syncMCPServerStats examplePulls exampleStars (breaker0, statsWorld))))))
       = [Some 7, Some 9]"
proof -
  have h1: "fates statsWorld = []" by (simp add: statsWorld_def)
  have h2: "\<not> blocked now (breaker0, statsWorld)" by (simp add: blocked_def breaker0_def)
  have h3: "distinct (map mcp_id (mcpServers (db statsWorld)))"
    by (simp add: statsWorld_def emptyDatabase_def example_rows)
  have h4: "betaRow \<in> set (mcpServers (db statsWorld))" "alphaRow \<in> set (mcpServers (db statsWorld))"
    by (simp_all add: statsWorld_def emptyDatabase_def)
  have h5: "mcp_active betaRow" "mcp_active alphaRow" by (simp_all add: example_rows)
  have h6: "truthy (mcp_githubUrl betaRow)" "truthy (mcp_githubUrl alphaRow)"
    by (simp_all add: example_rows truthy_def)
  have h7: "exampleStars (the (mcp_githubUrl betaRow)) = Some 9"
    "exampleStars (the (mcp_githubUrl alphaRow)) = Some 7"
    by (simp_all add: example_rows exampleStars_def)
  have e: "snapshotsFor i (db statsWorld) = []" for i
    by (simp add: snapshotsFor_def statsWorld_def emptyDatabase_def)
  from stats_sync_one_snapshot
         [where fetchDockerStats = examplePulls and fetchGitHubStats = exampleStars
            and row = betaRow and stars = 9, OF h1 h2 h3 h4(1) h5(1) h6(1) h7(1)]
  have beta: "snapshotsFor 2
        (db (snd (snd (syncMCPServerStats examplePulls exampleStars (breaker0, statsWorld)))))
       = [\<lparr>st_mcpServerId = 2, st_githubStars = 9, st_dockerPulls = 0, st_npmDownloads = 0\<rparr>]"
    by (simp add: example_pass example_rows(1-4) example_lookups example_snapshots e)
  from stats_sync_one_snapshot
         [where fetchDockerStats = examplePulls and fetchGitHubStats = exampleStars
            and row = alphaRow and stars = 7, OF h1 h2 h3 h4(2) h5(2) h6(2) h7(2)]
  have alpha: "snapshotsFor 1
        (db (snd (snd (syncMCPServerStats examplePulls exampleStars (breaker0, statsWorld)))))
       = [\<lparr>st_mcpServerId = 1, st_githubStars = 0, st_dockerPulls = 500, st_npmDownloads = 0\<rparr>]"
    by (simp add: example_pass example_rows(1-4) example_lookups example_snapshots e)
  have stars: "map mcp_githubStars
         (mcpServers (db (snd (snd (syncMCPServerStats examplePulls exampleStars (breaker0, statsWorld))))))
       = [Some 7, Some 9]"
    by (simp add: example_pass setGithubStars_def)
  from h1 h2 h3 h4 h5 h6 h7 beta alpha stars example_lookups(1,2) show ?thesis
    by blast
qed

section \<open>Properties of the plugin merge\<close>

lemma mset_jsInsert: "mset (jsInsert cmp x xs) = add_mset x (mset xs)"
  by (induction xs) simp_all

lemma mset_jsSort: "mset (jsSort cmp xs) = mset xs"
  by (induction xs) (simp_all add: mset_jsInsert)

lemma mset_sortPlugins: "mset (sortPlugins localeCompare ps sortBy search) = mset ps"
  by (simp add: sortPlugins_def mset_jsSort)

lemma seen_addUnseen: "fst (addUnseen ps s) = fst s \<union> pluginKey ` set ps"
  by (induction ps arbitrary: s) auto

lemma seen_key_kept:
  "k \<in> fst s \<Longrightarrow>
   filter (\<lambda>p. pluginKey p = k) (snd (addUnseen ps s)) = filter (\<lambda>p. pluginKey p = k) (snd s)"
proof (induction ps arbitrary: s)
  case Nil
  show ?case by simp
next
  case (Cons p ps)
  show ?case
  proof (cases "pluginKey p \<in> fst s")
    case True
    with Cons show ?thesis by simp
  next
    case False
    with Cons.prems have ne: "pluginKey p \<noteq> k" by auto
    from Cons.prems have "k \<in> fst (insert (pluginKey p) (fst s), snd s @ [p])" by simp
    from Cons.IH [OF this] False ne show ?thesis by simp
  qed
qed

lemma new_key_first:
  "k \<notin> fst s \<Longrightarrow> k \<in> pluginKey ` set ps \<Longrightarrow>
   \<exists>x. find (\<lambda>x. pluginKey x = k) ps = Some x
       \<and> filter (\<lambda>p. pluginKey p = k) (snd (addUnseen ps s))
           = filter (\<lambda>p. pluginKey p = k) (snd s) @ [x]"
proof (induction ps arbitrary: s)
  case Nil
  then show ?case by simp
next
  case (Cons p ps)
  show ?case
  proof (cases "pluginKey p = k")
    case True
    with Cons.prems have "k \<in> fst (insert (pluginKey p) (fst s), snd s @ [p])" by simp
    from seen_key_kept [OF this, of ps] True Cons.prems show ?thesis by simp
  next
    case False
    let ?s = "if pluginKey p \<notin> fst s then (insert (pluginKey p) (fst s), snd s @ [p]) else s"
    from False Cons.prems have a: "k \<notin> fst ?s" by auto
    from False Cons.prems have b: "k \<in> pluginKey ` set ps" by auto
    from Cons.IH [OF a b] False show ?thesis by auto
  qed
qed

lemma distinct_addUnseen:
  "fst s = pluginKey ` set (snd s) \<Longrightarrow> distinct (map pluginKey (snd s)) \<Longrightarrow>
   fst (addUnseen ps s) = pluginKey ` set (snd (addUnseen ps s))
   \<and> distinct (map pluginKey (snd (addUnseen ps s)))"
proof (induction ps arbitrary: s)
  case Nil
  then show ?case by simp
next
  case (Cons p ps)
  show ?case
  proof (cases "pluginKey p \<in> fst s")
    case True
    with Cons show ?thesis by simp
  next
    case False
    let ?s = "(insert (pluginKey p) (fst s), snd s @ [p])"
    from False Cons.prems have "fst ?s = pluginKey ` set (snd ?s)" by auto
    moreover from False Cons.prems have "distinct (map pluginKey (snd ?s))" by auto
    ultimately have "fst (addUnseen ps ?s) = pluginKey ` set (snd (addUnseen ps ?s))
       \<and> distinct (map pluginKey (snd (addUnseen ps ?s)))" by (rule Cons.IH)
    with False show ?thesis by simp
  qed
qed

lemma from_addUnseen: "set (snd (addUnseen ps s)) \<subseteq> set (snd s) \<union> set ps"
proof (induction ps arbitrary: s)
  case Nil
  show ?case by simp
next
  case (Cons p ps)
  let ?s = "if pluginKey p \<notin> fst s then (insert (pluginKey p) (fst s), snd s @ [p]) else s"
  have "set (snd (addUnseen ps ?s)) \<subseteq> set (snd ?s) \<union> set ps" by (rule Cons.IH)
  moreover have "set (snd ?s) \<subseteq> set (snd s) \<union> {p}" by auto
  ultimately show ?case by auto
qed

lemma distinct_mergePlugins: "distinct (map pluginKey (mergePlugins ls ds))"
proof -
  have "fst (addUnseen ls ({}, [])) = pluginKey ` set (snd (addUnseen ls ({}, [])))
       \<and> distinct (map pluginKey (snd (addUnseen ls ({}, []))))"
    by (rule distinct_addUnseen) simp_all
  then have "fst (addUnseen ds (addUnseen ls ({}, [])))
        = pluginKey ` set (snd (addUnseen ds (addUnseen ls ({}, []))))
       \<and> distinct (map pluginKey (snd (addUnseen ds (addUnseen ls ({}, [])))))"
    by (intro distinct_addUnseen) simp_all
  then show ?thesis by (simp add: mergePlugins_def)
qed

lemma keys_mergePlugins: "pluginKey ` set (mergePlugins ls ds) = pluginKey ` (set ls \<union> set ds)"
proof -
  have "fst (addUnseen ls ({}, [])) = pluginKey ` set (snd (addUnseen ls ({}, [])))
       \<and> distinct (map pluginKey (snd (addUnseen ls ({}, []))))"
    by (rule distinct_addUnseen) simp_all
  then have "fst (addUnseen ds (addUnseen ls ({}, [])))
        = pluginKey ` set (snd (addUnseen ds (addUnseen ls ({}, []))))
       \<and> distinct (map pluginKey (snd (addUnseen ds (addUnseen ls ({}, [])))))"
    by (intro distinct_addUnseen) simp_all
  then show ?thesis
    by (simp add: mergePlugins_def seen_addUnseen image_Un Un_commute)
qed

lemma local_wins:
  assumes "l \<in> set ls"
  shows "\<exists>x. find (\<lambda>x. pluginKey x = pluginKey l) ls = Some x
        \<and> filter (\<lambda>p. pluginKey p = pluginKey l) (mergePlugins ls ds) = [x]"
proof -
  let ?k = "pluginKey l"
  let ?s = "addUnseen ls ({}, [])"
  have "?k \<notin> fst ({} :: string set, [] :: UnifiedPlugin list)" by simp
  moreover from assms have "?k \<in> pluginKey ` set ls" by simp
  ultimately obtain x where x: "find (\<lambda>x. pluginKey x = ?k) ls = Some x"
    and f: "filter (\<lambda>p. pluginKey p = ?k) (snd ?s)
        = filter (\<lambda>p. pluginKey p = ?k) (snd ({} :: string set, [] :: UnifiedPlugin list)) @ [x]"
    using new_key_first by blast
  from assms have "?k \<in> fst ?s" by (simp add: seen_addUnseen)
  then have "filter (\<lambda>p. pluginKey p = ?k) (snd (addUnseen ds ?s))
      = filter (\<lambda>p. pluginKey p = ?k) (snd ?s)"
    by (rule seen_key_kept)
  with f x show ?thesis by (simp add: mergePlugins_def)
qed

lemma filter_singleton_perm:
  assumes "mset ys = mset xs" and "filter P xs = [x]"
  shows "filter P ys = [x]"
proof -
  from assms(1) have "mset (filter P ys) = mset (filter P xs)" by simp
  with assms(2) have "mset (filter P ys) = {#x#}" by simp
  then show ?thesis by (simp only: mset_single_iff)
qed

lemma distinct_finer_key:
  "distinct (map (\<lambda>p. g (h p)) xs) \<Longrightarrow> distinct (map h xs)"
  by (induction xs) (auto simp: image_iff)

text \<open>
  C4. Whatever the sort order, the search term and the collation are: no two items of
  the merged and sorted list share the key \<^verbatim>\<open>type:lowercased name\<close>, hence no two
  share the pair of type and lowercased name; every key of a local or a database item
  is the key of an item of the list; and for a local item and a database item with the
  same type and the same lowercased name, the list holds exactly one item with that
  key, and it is the first local item with that key. The database item is skipped.
\<close>

theorem local_plugins_win:
  fixes localPlugins dbPlugins :: "UnifiedPlugin list"
    and localeCompare :: "string \<Rightarrow> string \<Rightarrow> int" and sortBy :: string
    and search :: "string option"
  defines "sortedMerged \<equiv> sortPlugins localeCompare (mergePlugins localPlugins dbPlugins) sortBy search"
  shows "distinct (map pluginKey sortedMerged)
     \<and> distinct (map (\<lambda>p. (up_type p, toLowerCase (up_name p))) sortedMerged)
     \<and> pluginKey ` set sortedMerged = pluginKey ` (set localPlugins \<union> set dbPlugins)
     \<and> (\<forall>l \<in> set localPlugins. \<forall>d \<in> set dbPlugins.
          up_type d = up_type l \<and> toLowerCase (up_name d) = toLowerCase (up_name l) \<longrightarrow>
          (\<exists>x. find (\<lambda>x. pluginKey x = pluginKey l) localPlugins = Some x
               \<and> filter (\<lambda>p. pluginKey p = pluginKey d) sortedMerged = [x]))"
proof -
  let ?merged = "mergePlugins localPlugins dbPlugins"
  have perm: "mset sortedMerged = mset ?merged"
    by (simp add: sortedMerged_def mset_sortPlugins)
  then have "mset (map pluginKey sortedMerged) = mset (map pluginKey ?merged)" by simp
  then have "distinct (map pluginKey sortedMerged) \<longleftrightarrow> distinct (map pluginKey ?merged)"
    by (rule mset_eq_imp_distinct_iff)
  then have A: "distinct (map pluginKey sortedMerged)"
    by (simp add: distinct_mergePlugins)
  define g where "g = (\<lambda>k :: string \<times> string. fst k @ '':'' @ snd k)"
  have "pluginKey p = g (up_type p, toLowerCase (up_name p))" for p
    by (simp add: g_def pluginKey_def)
  then have "map pluginKey sortedMerged
      = map (\<lambda>p. g (up_type p, toLowerCase (up_name p))) sortedMerged"
    by simp
  with A have "distinct (map (\<lambda>p. g (up_type p, toLowerCase (up_name p))) sortedMerged)"
    by (simp only:)
  then have B: "distinct (map (\<lambda>p. (up_type p, toLowerCase (up_name p))) sortedMerged)"
    by (rule distinct_finer_key)
  from perm have "set sortedMerged = set ?merged" by (rule mset_eq_setD)
  then have C: "pluginKey ` set sortedMerged = pluginKey ` (set localPlugins \<union> set dbPlugins)"
    by (simp add: keys_mergePlugins)
  have D: "\<exists>x. find (\<lambda>x. pluginKey x = pluginKey l) localPlugins = Some x
               \<and> filter (\<lambda>p. pluginKey p = pluginKey d) sortedMerged = [x]"
    if l: "l \<in> set localPlugins"
      and same: "up_type d = up_type l \<and> toLowerCase (up_name d) = toLowerCase (up_name l)"
    for l d
  proof -
    from same have k: "pluginKey d = pluginKey l" by (simp add: pluginKey_def)
    from local_wins [OF l, of dbPlugins] obtain x
      where x: "find (\<lambda>x. pluginKey x = pluginKey l) localPlugins = Some x"
        and f: "filter (\<lambda>p. pluginKey p = pluginKey l) ?merged = [x]"
      by blast
    from perm f have "filter (\<lambda>p. pluginKey p = pluginKey l) sortedMerged = [x]"
      by (rule filter_singleton_perm)
    with x k show ?thesis by simp
  qed
  from A B C D show ?thesis by blast
qed

lemma example_lower:
  "toLowerCase ''Git-Helper'' = ''git-helper''" "toLowerCase ''git-helper'' = ''git-helper''"
  "toLowerCase ''zeta'' = ''zeta''"
  by code_simp+

lemma example_items:
  "up_type gitLocal = ''skill''" "up_type gitExternal = ''skill''" "up_type zetaExternal = ''skill''"
  "toLowerCase (up_name gitLocal) = ''git-helper''"
  "toLowerCase (up_name gitExternal) = ''git-helper''"
  "pluginKey gitLocal = ''skill:git-helper''" "pluginKey gitExternal = ''skill:git-helper''"
  "pluginKey zetaExternal = ''skill:zeta''"
  "up_stars gitLocal = None" "up_stars gitExternal = Some 100" "up_stars zetaExternal = Some 5"
  by (simp_all add: gitLocal_def gitExternal_def zetaExternal_def localItem_def externalItem_def
        pluginKey_def example_lower)

lemma example_merge:
  "mergePlugins [gitLocal] [gitExternal, zetaExternal] = [gitLocal, zetaExternal]"
  by (simp add: mergePlugins_def example_items)

lemma example_sorted:
  "sortPlugins codeCompare (mergePlugins [gitLocal] [gitExternal, zetaExternal]) ''stars'' None
     = [zetaExternal, gitLocal]"
  by (simp add: example_merge sortPlugins_def example_items orZero_def)

theorem local_plugins_win_witness:
  "gitLocal \<in> set [gitLocal] \<and> gitExternal \<in> set [gitExternal, zetaExternal]
   \<and> up_type gitExternal = up_type gitLocal
   \<and> toLowerCase (up_name gitExternal) = toLowerCase (up_name gitLocal)
   \<and> up_name gitExternal \<noteq> up_name gitLocal
   \<and> sortPlugins codeCompare (mergePlugins [gitLocal] [gitExternal, zetaExternal]) ''stars'' None
       = [zetaExternal, gitLocal]
   \<and> find (\<lambda>x. pluginKey x = pluginKey gitLocal) [gitLocal] = Some gitLocal
   \<and> filter (\<lambda>p. pluginKey p = pluginKey gitExternal)
         (sortPlugins codeCompare (mergePlugins [gitLocal] [gitExternal, zetaExternal]) ''stars'' None)
       = [gitLocal]"
proof -
  have l: "gitLocal \<in> set [gitLocal]" and d: "gitExternal \<in> set [gitExternal, zetaExternal]"
    by simp_all
  have same: "up_type gitExternal = up_type gitLocal
      \<and> toLowerCase (up_name gitExternal) = toLowerCase (up_name gitLocal)"
    by (simp add: example_items)
  have names: "up_name gitExternal \<noteq> up_name gitLocal"
    by (simp add: gitLocal_def gitExternal_def localItem_def externalItem_def)
  from local_plugins_win [of codeCompare "[gitLocal]" "[gitExternal, zetaExternal]" "''stars''" None]
    l d same
  obtain x where "find (\<lambda>x. pluginKey x = pluginKey gitLocal) [gitLocal] = Some x"
    and "filter (\<lambda>p. pluginKey p = pluginKey gitExternal)
           (sortPlugins codeCompare (mergePlugins [gitLocal] [gitExternal, zetaExternal]) ''stars'' None)
         = [x]"
    by blast
  then have "find (\<lambda>x. pluginKey x = pluginKey gitLocal) [gitLocal] = Some gitLocal
     \<and> filter (\<lambda>p. pluginKey p = pluginKey gitExternal)
         (sortPlugins codeCompare (mergePlugins [gitLocal] [gitExternal, zetaExternal]) ''stars'' None)
       = [gitLocal]"
    by (simp split: if_splits)
  with l d same names example_sorted show ?thesis by blast
qed

section \<open>Properties of the listings\<close>

lemma exec_reading:
  "exec (reading f) w = (r, w') \<Longrightarrow>
   db w' = db w \<and> (case r of Rejected \<Rightarrow> True | Resolved a \<Rightarrow> f (db w) = Some a)"
  by (auto simp: exec_def reading_def Let_def split: option.splits if_splits)

lemma exec_reading_db: "db (snd (exec (reading f) w)) = db w"
  by (cases "exec (reading f) w") (auto dest: exec_reading)

lemma exec_reading_resolved:
  "exec (reading f) w = (Resolved a, w') \<Longrightarrow> f (db w) = Some a"
  by (auto dest: exec_reading)

lemma promiseAll_resolved:
  "promiseAll p q w = (Resolved (a, b), w2) \<Longrightarrow>
   \<exists>w1. p w = (Resolved a, w1) \<and> q w1 = (Resolved b, w2)"
  by (auto simp: promiseAll_def split: prod.splits settled.splits)

lemma safeDbQuery_cases:
  obtains (blocked) "blocked clk (b, w)"
      "safeDbQuery clk q fb (b, w) = (\<lparr>data = fb, fromDb = False\<rparr>, b, w)"
  | (resolved) d w' where "\<not> blocked clk (b, w)" "q w = (Resolved d, w')"
      "safeDbQuery clk q fb (b, w) = (\<lparr>data = d, fromDb = True\<rparr>, reopened b, w')"
  | (rejected) w' where "\<not> blocked clk (b, w)" "q w = (Rejected, w')"
      "safeDbQuery clk q fb (b, w)
         = (\<lparr>data = fb, fromDb = False\<rparr>, \<lparr>circuitOpen = True, circuitOpenedAt = clk w'\<rparr>, w')"
proof (cases "blocked clk (b, w)")
  case True
  show ?thesis by (rule that(1) [OF True safeDbQuery_blocked [OF True]])
next
  case False
  obtain r w' where q: "q w = (r, w')" by (cases "q w")
  show ?thesis
  proof (cases r)
    case (Resolved d)
    with q have q': "q w = (Resolved d, w')" by simp
    show ?thesis by (rule that(2) [OF False q' safeDbQuery_resolved [where q = q and fb = fb, OF False q']])
  next
    case Rejected
    with q have q': "q w = (Rejected, w')" by simp
    show ?thesis by (rule that(3) [OF False q' safeDbQuery_rejected [where q = q and fb = fb, OF False q']])
  qed
qed

lemma length_orderInsert: "length (orderInsert le x xs) = Suc (length xs)"
  by (induction xs) simp_all

lemma length_orderBy: "length (orderBy le xs) = length xs"
  by (induction xs) (simp_all add: length_orderInsert)

lemma set_orderInsert: "set (orderInsert le x xs) = insert x (set xs)"
  by (induction xs) auto

lemma set_orderBy: "set (orderBy le xs) = set xs"
  by (induction xs) (simp_all add: set_orderInsert)

lemma window_bounds:
  "0 \<le> lim \<Longrightarrow> 0 \<le> off \<Longrightarrow>
   pageBounds lim off (min (nat lim) (n - nat off)) (int n)
     (off + int (min (nat lim) (n - nat off)) < int n)"
  unfolding pageBounds_def by (intro conjI) (simp_all, arith+)

lemma selectRows_bounds:
  assumes "selectRows wh le lim off tbl = Some rows"
  shows "pageBounds lim off (length rows) (countRows wh tbl) (off + int (length rows) < countRows wh tbl)"
    and "set rows \<subseteq> {r \<in> set tbl. wh r}"
proof -
  from assms have nonneg: "0 \<le> lim" "0 \<le> off"
    and rows: "rows = take (nat lim) (drop (nat off) (orderBy le (filter wh tbl)))"
    by (auto simp: selectRows_def split: if_splits)
  have len: "length rows = min (nat lim) (length (filter wh tbl) - nat off)"
    by (simp add: rows length_orderBy)
  from window_bounds [OF nonneg, of "length (filter wh tbl)"]
  show "pageBounds lim off (length rows) (countRows wh tbl)
      (off + int (length rows) < countRows wh tbl)"
    by (simp add: len countRows_def)
  have "set rows \<subseteq> set (orderBy le (filter wh tbl))"
    unfolding rows by (meson set_take_subset set_drop_subset subset_trans)
  then show "set rows \<subseteq> {r \<in> set tbl. wh r}"
    by (auto simp: set_orderBy)
qed







lemma mcpQueries_resolved:
  assumes "mcpQueries collate options w = (Resolved d, w')"
  shows "selectRows (mcpWhere options) (mcpOrder collate (mo_sort options) (mo_search options))
           (mo_limit options) (mo_offset options) (mcpServers (db w)) = Some (fst d)
       \<and> snd d = countRows (mcpWhere options) (mcpServers (db w))"
proof -
  obtain rows n where d: "d = (rows, n)" by (cases d)
  from assms [unfolded mcpQueries_def d] obtain w1
    where a: "exec (reading (\<lambda>d. selectRows (mcpWhere options)
                (mcpOrder collate (mo_sort options) (mo_search options))
                (mo_limit options) (mo_offset options) (mcpServers d))) w = (Resolved rows, w1)"
      and b: "exec (reading (\<lambda>d. Some (countRows (mcpWhere options) (mcpServers d)))) w1
                = (Resolved n, w')"
    by (auto dest: promiseAll_resolved)
  from exec_reading [OF a] have "db w1 = db w"
    and "selectRows (mcpWhere options) (mcpOrder collate (mo_sort options) (mo_search options))
           (mo_limit options) (mo_offset options) (mcpServers (db w)) = Some rows"
    by simp_all
  moreover from exec_reading [OF b] have "Some (countRows (mcpWhere options) (mcpServers (db w1))) = Some n"
    by simp
  ultimately show ?thesis by (simp add: d)
qed


lemma safeDbQuery_reading_db:
  "db (snd (snd (safeDbQuery now (exec (reading f)) fb (b, w)))) = db w"
proof (cases rule: safeDbQuery_cases [of now b w "exec (reading f)" fb])
  case blocked
  then show ?thesis by simp
next
  case (resolved d w')
  with exec_reading [OF resolved(2)] show ?thesis by simp
next
  case (rejected w')
  with exec_reading [OF rejected(2)] show ?thesis by simp
qed



lemma example_local_list:
  "getLocalBuildWithClaudePlugins oneSkillContent = [gitLocal]"
  by (simp add: getLocalBuildWithClaudePlugins_def oneSkillContent_def loaded_def gitLocal_def)

lemma example_local_page:
  "getPluginsPaginated codeCompare (\<lambda>a b. True) oneSkillContent (localOnly lim off) w
     = (Resolved (paginate [gitLocal] lim off), w)"
  by (simp add: getPluginsPaginated_def localOnly_def Let_def example_local_list
        filterLocalPlugins_def truthy_def BUILD_WITH_CLAUDE_ID_def BUILD_WITH_CLAUDE_MARKETPLACE_def
        sortPlugins_def resolve_def)

lemma example_slices:
  "paginate [gitLocal] 10 5 = \<lparr>items = [], total = 1, limit = 10, offset = 5, hasMore = False\<rparr>"
  "paginate [gitLocal] 10 0 = \<lparr>items = [gitLocal], total = 1, limit = 10, offset = 0, hasMore = False\<rparr>"
  by (simp_all add: paginate_def slice_def sliceIndex_def Let_def)


lemma example_mcp_page:
  "getMCPServersPaginated noJson (\<lambda>a b. True) firstByDownloads (breaker0, statsWorld)
     = (\<lparr>items = [transformToMCPServerWithParsedJSON noJson alphaRow], total = 2, limit = 1,
         offset = 0, hasMore = True\<rparr>, breaker0, statsWorld)"
proof -
  have rows: "mcp_active alphaRow" "mcp_active betaRow"
    "mcp_dockerPulls alphaRow = Some 0" "mcp_dockerPulls betaRow = Some 0"
    by (simp_all add: alphaRow_def betaRow_def exampleRow_def)
  have q: "mcpQueries (\<lambda>a b. True) firstByDownloads statsWorld
             = (Resolved ([alphaRow], 2), statsWorld)"
    by (simp add: mcpQueries_def promiseAll_def exec_def reading_def selectRows_def countRows_def
          mcpWhere_def mcpOrder_def firstByDownloads_def statsWorld_def emptyDatabase_def
          truthy_def coalesceDesc_def orZero_def rows)
  have nb: "\<not> blocked now (breaker0, statsWorld)" by (simp add: blocked_def breaker0_def)
  from safeDbQuery_resolved [where q = "mcpQueries (\<lambda>a b. True) firstByDownloads"
         and fb = "([], 0)", OF nb q]
  show ?thesis
    by (simp add: getMCPServersPaginated_def firstByDownloads_def reopened_def breaker0_def)
qed



section \<open>Failing queries\<close>

lemma mcp_listing_failure:
  assumes "0 \<le> mo_offset options" and "\<not> blocked now (b, w)"
    and "mcpQueries collate options w = (Rejected, w')"
  shows "fst (getMCPServersPaginated parse collate options (b, w))
     = \<lparr>items = [], total = 0, limit = mo_limit options, offset = mo_offset options,
        hasMore = False\<rparr>"
  using assms(1)
    safeDbQuery_rejected [where q = "mcpQueries collate options" and fb = "([], 0)",
      OF assms(2,3)]
  by (simp add: getMCPServersPaginated_def)

lemma plugins_route_failure:
  assumes "getPluginsPaginated localeCompare collate content options w = (Rejected, w')"
  shows "fst (pluginsListRoute localeCompare collate content options w)
     = \<lparr>items = [], total = 0, limit = opt_limit options, offset = opt_offset options,
        hasMore = False\<rparr>"
  using assms by (simp add: pluginsListRoute_def)

lemma marketplaces_count_failure:
  assumes "0 \<le> ko_offset options" and "\<not> blocked now (b, w)"
    and "exec (reading (\<lambda>d. Some (countRows (marketWhere options) (marketplaces d)))) w
           = (Rejected, w')"
  shows "fst (getMarketplacesPaginated collate options (b, w))
     = \<lparr>pm_marketplaces = [], pm_total = 0, pm_hasMore = False\<rparr>"
proof -
  have "blocked now (\<lparr>circuitOpen = True, circuitOpenedAt = now w'\<rparr>, w')"
    by (simp add: blocked_def CIRCUIT_TTL_MS_def)
  from safeDbQuery_blocked
      [where q = "exec (reading (\<lambda>d. selectRows (marketWhere options)
                  (getOrderBy collate (ko_sort options))
                  (ko_limit options) (ko_offset options) (marketplaces d)))" and fb = "[]", OF this]
    assms(1)
    safeDbQuery_rejected
      [where q = "exec (reading (\<lambda>d. Some (countRows (marketWhere options) (marketplaces d))))"
         and fb = 0, OF assms(2,3)]
  show ?thesis
    by (simp add: getMarketplacesPaginated_def)
qed

text \<open>
  C2, the marketplace listing. The count statement goes through and the page statement
  fails: the caller gets no marketplaces, but a total of 1 and \<^verbatim>\<open>hasMore\<close> true.
\<close>

theorem marketplaces_partial_failure:
  "getMarketplacesPaginated (\<lambda>a b. True) firstMarketplaces (breaker0, marketWorld)
     = (\<lparr>pm_marketplaces = [], pm_total = 1, pm_hasMore = True\<rparr>,
        \<lparr>circuitOpen = True, circuitOpenedAt = 1007\<rparr>,
        marketWorld\<lparr>now := 1007, fates := []\<rparr>)"
proof -
  have a: "mk_active acmeMarket" by (simp add: acmeMarket_def)
  show ?thesis
    by (simp add: getMarketplacesPaginated_def safeDbQuery_def exec_def reading_def
          selectRows_def countRows_def marketWhere_def firstMarketplaces_def marketWorld_def
          emptyDatabase_def breaker0_def truthy_def a CIRCUIT_TTL_MS_def)
qed

section \<open>Active and inactive records\<close>

lemma active_transform: "mcp_active (transformToMCPServerWithParsedJSON parse row) = mcp_active row"
  by (simp add: transformToMCPServerWithParsedJSON_def)

lemma mcp_listing_active:
  "x \<in> set (items (fst (getMCPServersPaginated parse collate options (b, w)))) \<Longrightarrow>
   \<exists>row \<in> set (mcpServers (db w)).
      mcp_active row \<and> x = transformToMCPServerWithParsedJSON parse row"
proof (cases rule: safeDbQuery_cases [of now b w "mcpQueries collate options" "([], 0)"])
  case blocked
  assume "x \<in> set (items (fst (getMCPServersPaginated parse collate options (b, w))))"
  with blocked show ?thesis by (simp add: getMCPServersPaginated_def)
next
  case (rejected w')
  assume "x \<in> set (items (fst (getMCPServersPaginated parse collate options (b, w))))"
  with rejected show ?thesis by (simp add: getMCPServersPaginated_def)
next
  case (resolved d w')
  assume "x \<in> set (items (fst (getMCPServersPaginated parse collate options (b, w))))"
  with resolved(3) obtain row where row: "row \<in> set (fst d)"
    and x: "x = transformToMCPServerWithParsedJSON parse row"
    by (auto simp: getMCPServersPaginated_def)
  from mcpQueries_resolved [OF resolved(2)]
  have "selectRows (mcpWhere options) (mcpOrder collate (mo_sort options) (mo_search options))
           (mo_limit options) (mo_offset options) (mcpServers (db w)) = Some (fst d)"
    by simp
  from selectRows_bounds(2) [OF this] row
  have "row \<in> set (mcpServers (db w))" and "mcpWhere options row" by auto
  then have "row \<in> set (mcpServers (db w))" and "mcp_active row"
    by (simp_all add: mcpWhere_def)
  with x show ?thesis by blast
qed

lemma market_listing_active:
  "x \<in> set (pm_marketplaces (fst (getMarketplacesPaginated collate options (b, w)))) \<Longrightarrow>
   \<exists>row \<in> set (marketplaces (db w)). mk_active row \<and> x = transformRow row"
proof -
  assume x: "x \<in> set (pm_marketplaces (fst (getMarketplacesPaginated collate options (b, w))))"
  let ?count = "exec (reading (\<lambda>d. Some (countRows (marketWhere options) (marketplaces d))))"
  let ?page = "exec (reading (\<lambda>d. selectRows (marketWhere options)
                  (getOrderBy collate (ko_sort options))
                  (ko_limit options) (ko_offset options) (marketplaces d)))"
  obtain cr b1 w1 where c: "safeDbQuery now ?count 0 (b, w) = (cr, b1, w1)"
    by (cases "safeDbQuery now ?count 0 (b, w)") auto
  from safeDbQuery_reading_db [of "\<lambda>d. Some (countRows (marketWhere options) (marketplaces d))" 0 b w] c
  have db1: "db w1 = db w" by simp
  show ?thesis
  proof (cases rule: safeDbQuery_cases [of now b1 w1 ?page "[]"])
    case blocked
    with x c show ?thesis by (simp add: getMarketplacesPaginated_def)
  next
    case (rejected w2)
    with x c show ?thesis by (simp add: getMarketplacesPaginated_def)
  next
    case (resolved rows w2)
    with x c obtain row where row: "row \<in> set rows" and xr: "x = transformRow row"
      by (auto simp: getMarketplacesPaginated_def)
    from exec_reading [OF resolved(2)] db1
    have "selectRows (marketWhere options) (getOrderBy collate (ko_sort options))
              (ko_limit options) (ko_offset options) (marketplaces (db w)) = Some rows"
      by simp
    from selectRows_bounds(2) [OF this] row
    have "row \<in> set (marketplaces (db w))" and "marketWhere options row" by auto
    then have "row \<in> set (marketplaces (db w))" and "mk_active row"
      by (simp_all add: marketWhere_def)
    with xr show ?thesis by blast
  qed
qed

lemma set_jsInsert: "set (jsInsert cmp x xs) = insert x (set xs)"
  by (induction xs) auto

lemma set_jsSort: "set (jsSort cmp xs) = set xs"
  by (induction xs) (simp_all add: set_jsInsert)

lemma set_sortPlugins: "set (sortPlugins localeCompare ps sortBy search) = set ps"
  by (simp add: sortPlugins_def set_jsSort)

lemma set_filterLocalPlugins: "set (filterLocalPlugins ps options) \<subseteq> set ps"
  by (auto simp: filterLocalPlugins_def Let_def)

lemma set_mergePlugins: "set (mergePlugins ls ds) \<subseteq> set ls \<union> set ds"
proof -
  have "set (snd (addUnseen ds (addUnseen ls ({}, []))))
          \<subseteq> set (snd (addUnseen ls ({}, []))) \<union> set ds"
    by (rule from_addUnseen)
  moreover have "set (snd (addUnseen ls ({}, []))) \<subseteq> set (snd ({} :: string set, [] :: UnifiedPlugin list)) \<union> set ls"
    by (rule from_addUnseen)
  ultimately show ?thesis by (auto simp: mergePlugins_def)
qed

lemma set_slice: "set (slice xs i j) \<subseteq> set xs"
  unfolding slice_def Let_def by (meson set_take_subset set_drop_subset subset_trans)

lemma set_paginate: "set (items (paginate xs lim off)) \<subseteq> set xs"
  by (simp add: paginate_def Let_def set_slice)

lemma plugin_listing_active:
  assumes "getPluginsPaginated localeCompare collate content options w = (Resolved page, w')"
    and "x \<in> set (items page)"
  shows "x \<in> set (getLocalBuildWithClaudePlugins content)
       \<or> (\<exists>row \<in> set (plugins (db w)). pl_active row \<and> x = toUnifiedPlugin row)"
proof -
  let ?local = "getLocalBuildWithClaudePlugins content"
  let ?sel = "exec (reading (\<lambda>d. selectRows (pluginWhere options)
                                     (pluginOrder collate (opt_sort options) (opt_search options))
                                     1000 0 (plugins d)))"
  let ?cnt = "exec (reading (\<lambda>d. Some (countRows (pluginWhere options) (plugins d))))"
  define bwc where "bwc \<longleftrightarrow> opt_marketplaceId options = Some BUILD_WITH_CLAUDE_ID
                       \<or> opt_marketplaceId options = Some BUILD_WITH_CLAUDE_MARKETPLACE"
  define ls where "ls =
            (if \<not> (truthy (opt_marketplaceId options) \<and> opt_marketplaceId options \<noteq> Some ''all''
                    \<and> \<not> bwc)
             then sortPlugins localeCompare
                    (filterLocalPlugins (getLocalBuildWithClaudePlugins content) options)
                    (opt_sort options) (opt_search options)
             else [])"
  have eq: "getPluginsPaginated localeCompare collate content options =
      (if bwc then resolve (paginate ls (opt_limit options) (opt_offset options))
       else andThen (promiseAll ?sel ?cnt)
          (\<lambda>answer. resolve
               (paginate
                  (sortPlugins localeCompare (mergePlugins ls (map toUnifiedPlugin (fst answer)))
                     (opt_sort options) (opt_search options))
                  (opt_limit options) (opt_offset options))))"
    unfolding getPluginsPaginated_def Let_def ls_def bwc_def by (rule refl)
  have loc: "set ls \<subseteq> set ?local"
    using set_filterLocalPlugins [of ?local options] by (auto simp: ls_def set_sortPlugins)
  show ?thesis
  proof (cases bwc)
    case True
    with assms(1) have "page = paginate ls (opt_limit options) (opt_offset options)"
      by (simp add: eq resolve_def)
    with assms(2) set_paginate [of ls "opt_limit options" "opt_offset options"] loc
    show ?thesis by auto
  next
    case False
    with assms(1) obtain rows n where all: "promiseAll ?sel ?cnt w = (Resolved (rows, n), w')"
      and page: "page = paginate
                  (sortPlugins localeCompare (mergePlugins ls (map toUnifiedPlugin rows))
                     (opt_sort options) (opt_search options))
                  (opt_limit options) (opt_offset options)"
      by (auto simp: eq andThen_def resolve_def split: prod.splits settled.splits)
    from promiseAll_resolved [OF all] obtain w1
      where "?sel w = (Resolved rows, w1)" by blast
    from exec_reading_resolved [OF this]
    have "selectRows (pluginWhere options)
            (pluginOrder collate (opt_sort options) (opt_search options)) 1000 0 (plugins (db w))
          = Some rows" .
    from selectRows_bounds(2) [OF this]
    have rows: "\<forall>row \<in> set rows. row \<in> set (plugins (db w)) \<and> pl_active row"
      by (auto simp: pluginWhere_def)
    from assms(2) page
    have "x \<in> set (sortPlugins localeCompare (mergePlugins ls (map toUnifiedPlugin rows))
                   (opt_sort options) (opt_search options))"
      using set_paginate
        [of "sortPlugins localeCompare (mergePlugins ls (map toUnifiedPlugin rows))
               (opt_sort options) (opt_search options)" "opt_limit options" "opt_offset options"]
      by auto
    then have "x \<in> set (mergePlugins ls (map toUnifiedPlugin rows))"
      by (simp add: set_sortPlugins)
    with set_mergePlugins have "x \<in> set ls \<or> x \<in> toUnifiedPlugin ` set rows" by fastforce
    with loc rows show ?thesis by auto
  qed
qed

lemma orderBy_any: "orderBy (\<lambda>a b. True) xs = xs"
proof (induction xs)
  case Nil
  show ?case by simp
next
  case (Cons x xs)
  then show ?case by (cases xs) simp_all
qed

lemma first_match:
  "(case take (Suc 0) (filter wh tbl) of [] \<Rightarrow> None | row # rest \<Rightarrow> Some (f row))
     = map_option f (find wh tbl)"
  by (induction tbl) simp_all

lemma first_match_state:
  "fst (case take (Suc 0) (filter wh tbl) of
          [] \<Rightarrow> (None, s) | row # rest \<Rightarrow> (Some (f row), s))
     = map_option f (find wh tbl)"
  by (induction tbl) simp_all

lemma selectRows_first:
  "selectRows wh (\<lambda>a b. True) 1 0 tbl = Some (take 1 (filter wh tbl))"
  by (simp add: selectRows_def orderBy_any)

lemma getMCPServerBySlug_healthy:
  assumes "fates w = []" and "\<not> blocked now (b, w)"
  shows "fst (getMCPServerBySlug parse slug (b, w))
     = map_option (transformToMCPServerWithParsedJSON parse)
         (find (\<lambda>row. mcp_slug row = slug) (mcpServers (db w)))"
proof -
  let ?q = "exec (reading (\<lambda>d. selectRows (\<lambda>row. mcp_slug row = slug) (\<lambda>a b. True) 1 0
                                     (mcpServers d)))"
  have "?q w = (Resolved (take 1 (filter (\<lambda>row. mcp_slug row = slug) (mcpServers (db w)))), w)"
    using assms(1) by (simp add: exec_def reading_def selectRows_first)
  from safeDbQuery_resolved [where q = ?q and fb = "[]", OF assms(2) this]
  show ?thesis
    by (simp add: getMCPServerBySlug_def first_match_state)
qed

lemma getMarketplaceById_healthy:
  assumes "fates w = []" and "\<not> blocked now (b, w)"
  shows "fst (getMarketplaceById ident (b, w))
     = map_option transformRow
         (find (\<lambda>row. mk_id row = ident \<or> mk_name row = ident \<or> mk_namespace row = ident)
            (marketplaces (db w)))"
proof -
  let ?wh = "\<lambda>row. mk_id row = ident \<or> mk_name row = ident \<or> mk_namespace row = ident"
  let ?q = "exec (reading (\<lambda>d. selectRows ?wh (\<lambda>a b. True) 1 0 (marketplaces d)))"
  have "?q w = (Resolved (take 1 (filter ?wh (marketplaces (db w)))), w)"
    using assms(1) by (simp add: exec_def reading_def selectRows_first)
  from safeDbQuery_resolved [where q = ?q and fb = "[]", OF assms(2) this]
  show ?thesis
    by (simp add: getMarketplaceById_def first_match_state)
qed

lemma getPluginBySlug_healthy:
  assumes "fates w = []"
  shows "getPluginBySlug slug w
     = (Resolved (map_option toUnifiedPlugin
                    (find (\<lambda>row. pl_slug row = slug \<or> pl_name row = slug) (plugins (db w)))), w)"
  using assms
  by (simp add: getPluginBySlug_def andThen_def resolve_def exec_def reading_def selectRows_first
        first_match)

text \<open>
  C9 as written fails for the reads of one record: \<^verbatim>\<open>getMCPServerBySlug\<close> returns the
  row with the slug although the row is inactive.
\<close>

theorem inactive_record_read_counterexample:
  "\<not> mcp_active retiredRow
   \<and> fst (getMCPServerBySlug noJson (mcp_slug retiredRow) (breaker0, retiredWorld))
       = Some (transformToMCPServerWithParsedJSON noJson retiredRow)
   \<and> map_option mcp_active
        (fst (getMCPServerBySlug noJson (mcp_slug retiredRow) (breaker0, retiredWorld)))
       = Some False"
proof -
  have h: "fates retiredWorld = []" by (simp add: retiredWorld_def)
  have nb: "\<not> blocked now (breaker0, retiredWorld)" by (simp add: blocked_def breaker0_def)
  have a: "\<not> mcp_active retiredRow" by (simp add: retiredRow_def)
  have t: "mcpServers (db retiredWorld) = [retiredRow]"
    by (simp add: retiredWorld_def emptyDatabase_def)
  show ?thesis
    by (simp add: getMCPServerBySlug_healthy [OF h nb] t a active_transform)
qed

text \<open>
  C9, as the code has it. Every item of a listing comes from an active row: an MCP
  server page holds transformed active rows, a marketplace page transformed active
  marketplaces, a plugin page local items and converted active plugin rows. The reads
  of one record do not look at the active flag: on a database that answers the
  statement, each returns the first row that matches the key, active or not.
\<close>

theorem reads_and_active_flag:
  "(\<forall>x \<in> set (items (fst (getMCPServersPaginated parse collate mo (b, w)))).
       mcp_active x
       \<and> (\<exists>row \<in> set (mcpServers (db w)).
             mcp_active row \<and> x = transformToMCPServerWithParsedJSON parse row))
   \<and> (\<forall>x \<in> set (pm_marketplaces (fst (getMarketplacesPaginated collate ko (b, w)))).
         \<exists>row \<in> set (marketplaces (db w)). mk_active row \<and> x = transformRow row)
   \<and> (getPluginsPaginated localeCompare collate content po w = (Resolved page, w') \<longrightarrow>
         (\<forall>x \<in> set (items page).
            x \<in> set (getLocalBuildWithClaudePlugins content)
            \<or> (\<exists>row \<in> set (plugins (db w)). pl_active row \<and> x = toUnifiedPlugin row)))
   \<and> (fates w = [] \<and> \<not> blocked now (b, w) \<longrightarrow>
         fst (getMCPServerBySlug parse slug (b, w))
           = map_option (transformToMCPServerWithParsedJSON parse)
               (find (\<lambda>row. mcp_slug row = slug) (mcpServers (db w)))
         \<and> fst (getMarketplaceById ident (b, w))
           = map_option transformRow
               (find (\<lambda>row. mk_id row = ident \<or> mk_name row = ident \<or> mk_namespace row = ident)
                  (marketplaces (db w)))
         \<and> getPluginBySlug slug w
           = (Resolved (map_option toUnifiedPlugin
                          (find (\<lambda>row. pl_slug row = slug \<or> pl_name row = slug)
                             (plugins (db w)))), w))"
proof -
  have A: "mcp_active x
       \<and> (\<exists>row \<in> set (mcpServers (db w)).
             mcp_active row \<and> x = transformToMCPServerWithParsedJSON parse row)"
    if "x \<in> set (items (fst (getMCPServersPaginated parse collate mo (b, w))))" for x
    using mcp_listing_active [OF that] by (auto simp: active_transform)
  have B: "\<exists>row \<in> set (marketplaces (db w)). mk_active row \<and> x = transformRow row"
    if "x \<in> set (pm_marketplaces (fst (getMarketplacesPaginated collate ko (b, w))))" for x
    using that by (rule market_listing_active)
  have C: "x \<in> set (getLocalBuildWithClaudePlugins content)
            \<or> (\<exists>row \<in> set (plugins (db w)). pl_active row \<and> x = toUnifiedPlugin row)"
    if "getPluginsPaginated localeCompare collate content po w = (Resolved page, w')"
      and "x \<in> set (items page)" for x
    using that by (rule plugin_listing_active)
  from A B C getMCPServerBySlug_healthy [of w b parse slug]
    getMarketplaceById_healthy [of w b ident] getPluginBySlug_healthy [of w slug]
  show ?thesis by blast
qed

lemma example_market_listing:
  "getMarketplacesPaginated (\<lambda>a b. True) firstMarketplaces (breaker0, marketWorld\<lparr>fates := []\<rparr>)
     = (\<lparr>pm_marketplaces = [transformRow acmeMarket], pm_total = 1, pm_hasMore = False\<rparr>,
        breaker0, marketWorld\<lparr>fates := []\<rparr>)"
proof -
  have a: "mk_active acmeMarket" by (simp add: acmeMarket_def)
  show ?thesis
    by (simp add: getMarketplacesPaginated_def safeDbQuery_def exec_def reading_def
          selectRows_def countRows_def marketWhere_def firstMarketplaces_def marketWorld_def
          emptyDatabase_def breaker0_def truthy_def a getOrderBy_def)
qed

theorem reads_and_active_flag_witness:
  "transformToMCPServerWithParsedJSON noJson alphaRow
       \<in> set (items (fst (getMCPServersPaginated noJson (\<lambda>a b. True) firstByDownloads
                            (breaker0, statsWorld))))
   \<and> mcp_active (transformToMCPServerWithParsedJSON noJson alphaRow)
   \<and> transformRow acmeMarket
       \<in> set (pm_marketplaces (fst (getMarketplacesPaginated (\<lambda>a b. True) firstMarketplaces
                                      (breaker0, marketWorld\<lparr>fates := []\<rparr>))))
   \<and> mk_active acmeMarket
   \<and> getPluginsPaginated codeCompare (\<lambda>a b. True) oneSkillContent (localOnly 10 0) statsWorld
       = (Resolved \<lparr>items = [gitLocal], total = 1, limit = 10, offset = 0, hasMore = False\<rparr>,
          statsWorld)
   \<and> gitLocal \<in> set (getLocalBuildWithClaudePlugins oneSkillContent)
   \<and> fates retiredWorld = [] \<and> \<not> blocked now (breaker0, retiredWorld)
   \<and> \<not> mcp_active retiredRow
   \<and> fst (getMCPServerBySlug noJson (mcp_slug retiredRow) (breaker0, retiredWorld))
       = Some (transformToMCPServerWithParsedJSON noJson retiredRow)
   \<and> fst (getMarketplaceById ''acme'' (breaker0, retiredWorld)) = None
   \<and> getPluginBySlug ''git-helper'' retiredWorld = (Resolved None, retiredWorld)"
proof -
  have h: "fates retiredWorld = []" by (simp add: retiredWorld_def)
  have nb: "\<not> blocked now (breaker0, retiredWorld)" by (simp add: blocked_def breaker0_def)
  have a: "\<not> mcp_active retiredRow" by (simp add: retiredRow_def)
  have t: "mcpServers (db retiredWorld) = [retiredRow]" "marketplaces (db retiredWorld) = []"
    "plugins (db retiredWorld) = []"
    by (simp_all add: retiredWorld_def emptyDatabase_def)
  have m: "mk_active acmeMarket" by (simp add: acmeMarket_def)
  have p: "getPluginsPaginated codeCompare (\<lambda>a b. True) oneSkillContent (localOnly 10 0) statsWorld
       = (Resolved \<lparr>items = [gitLocal], total = 1, limit = 10, offset = 0, hasMore = False\<rparr>,
          statsWorld)"
    by (simp add: example_local_page example_slices)
  note T = reads_and_active_flag
      [of noJson "\<lambda>a b. True" firstByDownloads breaker0 statsWorld firstMarketplaces codeCompare
          oneSkillContent "localOnly 10 0"
          "\<lparr>items = [gitLocal], total = 1, limit = 10, offset = 0, hasMore = False\<rparr>" statsWorld]
  from T have "mcp_active (transformToMCPServerWithParsedJSON noJson alphaRow)"
    by (simp add: example_mcp_page)
  moreover from T p have "gitLocal \<in> set (getLocalBuildWithClaudePlugins oneSkillContent)"
    by (simp add: example_local_list)
  moreover
  from reads_and_active_flag
      [of noJson "\<lambda>a b. True" firstByDownloads breaker0 retiredWorld firstMarketplaces codeCompare
          oneSkillContent "localOnly 10 0" _ _ "mcp_slug retiredRow" "''acme''"]
    h nb
  have "fst (getMCPServerBySlug noJson (mcp_slug retiredRow) (breaker0, retiredWorld))
       = Some (transformToMCPServerWithParsedJSON noJson retiredRow)
     \<and> fst (getMarketplaceById ''acme'' (breaker0, retiredWorld)) = None"
    by (simp add: t)
  moreover have "getPluginBySlug ''git-helper'' retiredWorld = (Resolved None, retiredWorld)"
    by (simp add: getPluginBySlug_healthy [OF h] t)
  ultimately show ?thesis
    using h nb a m p by (simp add: example_mcp_page example_market_listing)
qed

section \<open>The relevance order\<close>

lemma jsInsert_orderInsert: "jsInsert cmp x xs = orderInsert (\<lambda>a b. cmp a b \<le> 0) x xs"
  by (induction xs) simp_all

lemma jsSort_orderBy: "jsSort cmp xs = orderBy (\<lambda>a b. cmp a b \<le> 0) xs"
  by (induction xs) (simp_all add: jsInsert_orderInsert)

lemma sorted_orderInsert:
  assumes total: "\<And>x y. le x y \<or> le y x"
    and trans: "\<And>x y z. le x y \<Longrightarrow> le y z \<Longrightarrow> le x z"
  shows "sorted_wrt le xs \<Longrightarrow> sorted_wrt le (orderInsert le x xs)"
proof (induction xs)
  case Nil
  show ?case by simp
next
  case (Cons y ys)
  show ?case
  proof (cases "le x y")
    case True
    with Cons.prems trans have "\<forall>z \<in> set (y # ys). le x z" by auto
    with True Cons.prems show ?thesis by simp
  next
    case False
    with total have "le y x" by blast
    with False Cons show ?thesis by (auto simp: set_orderInsert)
  qed
qed

lemma sorted_orderBy:
  assumes "\<And>x y. le x y \<or> le y x"
    and "\<And>x y z. le x y \<Longrightarrow> le y z \<Longrightarrow> le x z"
  shows "sorted_wrt le (orderBy le xs)"
  by (induction xs) (simp_all add: sorted_orderInsert [OF assms])

lemma thenBy_total:
  "(\<And>x y. le x y \<or> le y x) \<Longrightarrow> thenBy key le x y \<or> thenBy key le y x"
  by (auto simp: thenBy_def)

lemma thenBy_trans:
  "(\<And>x y z. le x y \<Longrightarrow> le y z \<Longrightarrow> le x z) \<Longrightarrow>
   thenBy key le x y \<Longrightarrow> thenBy key le y z \<Longrightarrow> thenBy key le x z"
  by (auto simp: thenBy_def)

lemma sorted_selectRows:
  assumes "\<And>x y. le x y \<or> le y x"
    and "\<And>x y z. le x y \<Longrightarrow> le y z \<Longrightarrow> le x z"
    and "selectRows wh le lim off tbl = Some rows"
  shows "sorted_wrt le rows"
proof -
  from assms(3) have "rows = take (nat lim) (drop (nat off) (orderBy le (filter wh tbl)))"
    by (auto simp: selectRows_def split: if_splits)
  with sorted_orderBy [of le, OF assms(1,2)] show ?thesis
    by (simp add: sorted_wrt_take sorted_wrt_drop)
qed

lemma startsWith_refl: "startsWith s s"
  by (induction s) simp_all

lemma startsWith_includes: "startsWith s p \<Longrightarrow> str_includes s p"
  by (cases s) (auto elim: startsWith.elims)

lemma relevanceCompare_rank:
  "relevanceCompare localeCompare s a b \<le> 0 \<longleftrightarrow>
     pluginRank s a < pluginRank s b
     \<or> (pluginRank s a = pluginRank s b \<and> localeCompare (up_name a) (up_name b) \<le> 0)"
  using startsWith_refl [of s] startsWith_includes [of "toLowerCase (up_name a)" s]
    startsWith_includes [of "toLowerCase (up_name b)" s]
  by (auto simp: relevanceCompare_def pluginRank_def flag_def Let_def)

lemma coalesceDesc_total: "coalesceDesc column x y \<or> coalesceDesc column y x"
  by (auto simp: coalesceDesc_def)

lemma coalesceDesc_trans:
  "coalesceDesc column x y \<Longrightarrow> coalesceDesc column y z \<Longrightarrow> coalesceDesc column x z"
  by (auto simp: coalesceDesc_def)

lemma descBy_total: "descBy column x y \<or> descBy column y x"
  by (auto simp: descBy_def)

lemma descBy_trans: "descBy column x y \<Longrightarrow> descBy column y z \<Longrightarrow> descBy column x z"
  by (auto simp: descBy_def)

lemma tier_transform:
  "thenBy (mcpTier s) (coalesceDesc mcp_dockerPulls)
     (transformToMCPServerWithParsedJSON parse x) (transformToMCPServerWithParsedJSON parse y)
   = thenBy (mcpTier s) (coalesceDesc mcp_dockerPulls) x y"
  by (simp add: thenBy_def mcpTier_def coalesceDesc_def transformToMCPServerWithParsedJSON_def)

lemma mcp_relevance_sorted:
  assumes "truthy (mo_search mo)" and "mo_sort mo = ''relevance''"
  shows "sorted_wrt (thenBy (mcpTier (the (mo_search mo))) (coalesceDesc mcp_dockerPulls))
           (items (fst (getMCPServersPaginated parse collate mo (b, w))))"
proof (cases rule: safeDbQuery_cases [of now b w "mcpQueries collate mo" "([], 0)"])
  case blocked
  then show ?thesis by (simp add: getMCPServersPaginated_def)
next
  case (rejected w')
  then show ?thesis by (simp add: getMCPServersPaginated_def)
next
  case (resolved d w')
  let ?le = "thenBy (mcpTier (the (mo_search mo))) (coalesceDesc mcp_dockerPulls)
               :: MCPServerDB \<Rightarrow> MCPServerDB \<Rightarrow> bool"
  have ord: "mcpOrder collate (mo_sort mo) (mo_search mo) = ?le"
    using assms by (simp add: mcpOrder_def)
  from mcpQueries_resolved [OF resolved(2)]
  have "selectRows (mcpWhere mo) ?le (mo_limit mo) (mo_offset mo) (mcpServers (db w))
          = Some (fst d)"
    by (simp add: ord)
  moreover have "?le x y \<or> ?le y x" for x y
    by (auto simp: thenBy_def coalesceDesc_def)
  moreover have "?le x y \<Longrightarrow> ?le y z \<Longrightarrow> ?le x z" for x y z
    by (auto simp: thenBy_def coalesceDesc_def)
  ultimately have "sorted_wrt ?le (fst d)"
    by (rule sorted_selectRows [rotated 2])
  then show ?thesis
    using resolved(3)
    by (simp add: getMCPServersPaginated_def sorted_wrt_map tier_transform)
qed

lemma market_transform:
  "thenBy (\<lambda>r. - mr_installs r) (descBy mr_stars) (transformRow x) (transformRow y)
   = thenBy (\<lambda>r. - mk_installs r) (descBy mk_stars) x y"
  by (simp add: thenBy_def descBy_def transformRow_def)

lemma market_relevance_sorted:
  assumes "ko_sort ko = ''relevance''"
  shows "sorted_wrt (thenBy (\<lambda>r. - mr_installs r) (descBy mr_stars))
           (pm_marketplaces (fst (getMarketplacesPaginated collate ko (b, w))))"
proof -
  let ?count = "exec (reading (\<lambda>d. Some (countRows (marketWhere ko) (marketplaces d))))"
  let ?page = "exec (reading (\<lambda>d. selectRows (marketWhere ko) (getOrderBy collate (ko_sort ko))
                  (ko_limit ko) (ko_offset ko) (marketplaces d)))"
  let ?le = "thenBy (\<lambda>r. - mk_installs r) (descBy mk_stars)"
  obtain cr b1 w1 where c: "safeDbQuery now ?count 0 (b, w) = (cr, b1, w1)"
    by (cases "safeDbQuery now ?count 0 (b, w)") auto
  show ?thesis
  proof (cases rule: safeDbQuery_cases [of now b1 w1 ?page "[]"])
    case blocked
    with c show ?thesis by (simp add: getMarketplacesPaginated_def)
  next
    case (rejected w2)
    with c show ?thesis by (simp add: getMarketplacesPaginated_def)
  next
    case (resolved rows w2)
    from exec_reading_resolved [OF resolved(2)] assms
    have "selectRows (marketWhere ko) ?le (ko_limit ko) (ko_offset ko) (marketplaces (db w1))
            = Some rows"
      by (simp add: getOrderBy_def)
    moreover have "?le x y \<or> ?le y x" for x y
      by (auto simp: thenBy_def descBy_def)
    moreover have "?le x y \<Longrightarrow> ?le y z \<Longrightarrow> ?le x z" for x y z
      by (auto simp: thenBy_def descBy_def)
    ultimately have "sorted_wrt ?le rows"
      by (rule sorted_selectRows [rotated 2])
    with c resolved(3) show ?thesis
      by (simp add: getMarketplacesPaginated_def sorted_wrt_map market_transform)
  qed
qed

lemma plugins_page_sorted_form:
  assumes "getPluginsPaginated localeCompare collate content po w = (Resolved page, w')"
  shows "\<exists>ys. items page
           = slice (sortPlugins localeCompare ys (opt_sort po) (opt_search po))
               (opt_offset po) (opt_offset po + opt_limit po)"
proof -
  let ?sel = "exec (reading (\<lambda>d. selectRows (pluginWhere po)
                                     (pluginOrder collate (opt_sort po) (opt_search po))
                                     1000 0 (plugins d)))"
  let ?cnt = "exec (reading (\<lambda>d. Some (countRows (pluginWhere po) (plugins d))))"
  define bwc where "bwc \<longleftrightarrow> opt_marketplaceId po = Some BUILD_WITH_CLAUDE_ID
                       \<or> opt_marketplaceId po = Some BUILD_WITH_CLAUDE_MARKETPLACE"
  define ls where "ls =
            (if \<not> (truthy (opt_marketplaceId po) \<and> opt_marketplaceId po \<noteq> Some ''all''
                    \<and> \<not> bwc)
             then sortPlugins localeCompare
                    (filterLocalPlugins (getLocalBuildWithClaudePlugins content) po)
                    (opt_sort po) (opt_search po)
             else [])"
  have eq: "getPluginsPaginated localeCompare collate content po =
      (if bwc then resolve (paginate ls (opt_limit po) (opt_offset po))
       else andThen (promiseAll ?sel ?cnt)
          (\<lambda>answer. resolve
               (paginate
                  (sortPlugins localeCompare (mergePlugins ls (map toUnifiedPlugin (fst answer)))
                     (opt_sort po) (opt_search po))
                  (opt_limit po) (opt_offset po))))"
    unfolding getPluginsPaginated_def Let_def ls_def bwc_def by (rule refl)
  show ?thesis
  proof (cases bwc)
    case True
    then have "ls = sortPlugins localeCompare
                    (filterLocalPlugins (getLocalBuildWithClaudePlugins content) po)
                    (opt_sort po) (opt_search po)"
      by (simp add: ls_def)
    moreover from True assms have "page = paginate ls (opt_limit po) (opt_offset po)"
      by (simp add: eq resolve_def)
    ultimately show ?thesis
      by (auto simp: paginate_def Let_def)
  next
    case False
    with assms obtain rows n
      where "page = paginate
                  (sortPlugins localeCompare (mergePlugins ls (map toUnifiedPlugin rows))
                     (opt_sort po) (opt_search po))
                  (opt_limit po) (opt_offset po)"
      by (auto simp: eq andThen_def resolve_def split: prod.splits settled.splits)
    then show ?thesis
      by (auto simp: paginate_def Let_def)
  qed
qed

lemma sorted_slice: "sorted_wrt le xs \<Longrightarrow> sorted_wrt le (slice xs i j)"
  by (simp add: slice_def Let_def sorted_wrt_take sorted_wrt_drop)

lemma plugin_relevance_sorted:
  assumes cmp: "consistentCompare localeCompare"
    and "truthy (opt_search po)" and "opt_sort po = ''relevance''"
    and "getPluginsPaginated localeCompare collate content po w = (Resolved page, w')"
  shows "sorted_wrt
           (\<lambda>a b. pluginRank (toLowerCase (the (opt_search po))) a
                     < pluginRank (toLowerCase (the (opt_search po))) b
                   \<or> (pluginRank (toLowerCase (the (opt_search po))) a
                        = pluginRank (toLowerCase (the (opt_search po))) b
                      \<and> localeCompare (up_name a) (up_name b) \<le> 0))
           (items page)"
proof -
  let ?s = "toLowerCase (the (opt_search po))"
  let ?le = "\<lambda>a b. relevanceCompare localeCompare ?s a b \<le> 0"
  from cmp have total: "localeCompare x y \<le> 0 \<or> localeCompare y x \<le> 0" for x y
    unfolding consistentCompare_def by blast
  from cmp have trans: "localeCompare x y \<le> 0 \<Longrightarrow> localeCompare y z \<le> 0 \<Longrightarrow> localeCompare x z \<le> 0"
    for x y z
    unfolding consistentCompare_def by blast
  have t: "?le x y \<or> ?le y x" for x y
    using total [of "up_name x" "up_name y"] by (auto simp: relevanceCompare_rank)
  have tr: "?le x z" if "?le x y" "?le y z" for x y z
    using that trans [of "up_name x" "up_name y" "up_name z"]
    by (auto simp: relevanceCompare_rank)
  from plugins_page_sorted_form [OF assms(4)] obtain ys
    where it: "items page = slice (sortPlugins localeCompare ys (opt_sort po) (opt_search po))
               (opt_offset po) (opt_offset po + opt_limit po)" by blast
  have "sortPlugins localeCompare ys (opt_sort po) (opt_search po) = orderBy ?le ys"
    using assms(2,3) by (simp add: sortPlugins_def jsSort_orderBy)
  moreover have "sorted_wrt ?le (orderBy ?le ys)"
    by (rule sorted_orderBy) (use t tr in blast)+
  ultimately have "sorted_wrt ?le (items page)"
    by (simp add: it sorted_slice)
  then show ?thesis
    by (simp add: relevanceCompare_rank)
qed

lemma codeCompare_total: "codeCompare x y \<le> 0 \<or> codeCompare y x \<le> 0"
  by (induction x y rule: codeCompare.induct) auto

lemma codeCompare_trans:
  "codeCompare x y \<le> 0 \<Longrightarrow> codeCompare y z \<le> 0 \<Longrightarrow> codeCompare x z \<le> 0"
proof (induction x arbitrary: y z)
  case Nil
  then show ?case by (cases z) simp_all
next
  case (Cons a x)
  then show ?case
    by (cases y; cases z) (auto split: if_splits)
qed

lemma consistent_codeCompare: "consistentCompare codeCompare"
  unfolding consistentCompare_def using codeCompare_total codeCompare_trans by blast

text \<open>
  C5, as the code has it. With \<^verbatim>\<open>sort=relevance\<close> and a non-empty search term, each
  listing has an order of its own. The MCP server listing returns its rows in tiers
  (the name matches the term under \<^verbatim>\<open>ILIKE\<close>, then the name matches the term as a
  prefix, then the display name contains it, then the description contains it, then
  the rest) and, inside a tier, by descending pull count. The plugin listing, for a
  consistent \<^verbatim>\<open>localeCompare\<close>, resolves with items in tiers by name only (the
  lowercased name equals the lowercased term, then starts with it, then contains it,
  then the rest) and, inside a tier, in the order of \<^verbatim>\<open>localeCompare\<close> on the names,
  not by popularity. The marketplace listing orders by descending installs, then
  descending stars, whatever the term.
\<close>

theorem relevance_order:
  "(truthy (mo_search mo) \<and> mo_sort mo = ''relevance'' \<longrightarrow>
      sorted_wrt (thenBy (mcpTier (the (mo_search mo))) (coalesceDesc mcp_dockerPulls))
        (items (fst (getMCPServersPaginated parse collate mo (b, w)))))
   \<and> (consistentCompare localeCompare \<and> truthy (opt_search po) \<and> opt_sort po = ''relevance''
        \<and> getPluginsPaginated localeCompare collate content po w = (Resolved page, w') \<longrightarrow>
        sorted_wrt
          (\<lambda>x y. pluginRank (toLowerCase (the (opt_search po))) x
                    < pluginRank (toLowerCase (the (opt_search po))) y
                  \<or> (pluginRank (toLowerCase (the (opt_search po))) x
                       = pluginRank (toLowerCase (the (opt_search po))) y
                     \<and> localeCompare (up_name x) (up_name y) \<le> 0))
          (items page))
   \<and> (ko_sort ko = ''relevance'' \<longrightarrow>
        sorted_wrt (thenBy (\<lambda>r. - mr_installs r) (descBy mr_stars))
          (pm_marketplaces (fst (getMarketplacesPaginated collate ko (b, w)))))"
proof (intro conjI impI)
  assume "truthy (mo_search mo) \<and> mo_sort mo = ''relevance''"
  then show "sorted_wrt (thenBy (mcpTier (the (mo_search mo))) (coalesceDesc mcp_dockerPulls))
        (items (fst (getMCPServersPaginated parse collate mo (b, w))))"
    by (intro mcp_relevance_sorted) simp_all
next
  assume "consistentCompare localeCompare \<and> truthy (opt_search po)
          \<and> opt_sort po = ''relevance''
          \<and> getPluginsPaginated localeCompare collate content po w = (Resolved page, w')"
  then have "consistentCompare localeCompare" "truthy (opt_search po)"
    "opt_sort po = ''relevance''"
    "getPluginsPaginated localeCompare collate content po w = (Resolved page, w')"
    by blast+
  then show "sorted_wrt
          (\<lambda>x y. pluginRank (toLowerCase (the (opt_search po))) x
                    < pluginRank (toLowerCase (the (opt_search po))) y
                  \<or> (pluginRank (toLowerCase (the (opt_search po))) x
                       = pluginRank (toLowerCase (the (opt_search po))) y
                     \<and> localeCompare (up_name x) (up_name y) \<le> 0))
          (items page)"
    by (rule plugin_relevance_sorted)
next
  assume "ko_sort ko = ''relevance''"
  then show "sorted_wrt (thenBy (\<lambda>r. - mr_installs r) (descBy mr_stars))
          (pm_marketplaces (fst (getMarketplacesPaginated collate ko (b, w))))"
    by (rule market_relevance_sorted)
qed

lemma example_plugin_listing:
  "getPluginsPaginated codeCompare (\<lambda>a b. True) noLocalContent searchPlugins githubWorld
   = (Resolved \<lparr>items = map toUnifiedPlugin [githubRow, actionsRow, zenRow, toolRow],
                 total = 4, limit = 50, offset = 0, hasMore = False\<rparr>, githubWorld)"
  by code_simp

lemma example_plugin_tiers:
  "map (\<lambda>p. (up_name p, pluginRank ''github'' p, up_stars p))
     (map toUnifiedPlugin [githubRow, actionsRow, zenRow, toolRow])
   = [(''github'', 0, Some 1), (''github-actions'', 1, Some 5), (''github-zen'', 1, Some 100),
      (''awesome github tool'', 2, Some 50)]"
  by code_simp

lemma example_mcp_listing:
  "map (\<lambda>r. (mcp_name r, mcpTier ''github'' r, mcp_dockerPulls r))
     (items (fst (getMCPServersPaginated noJson (\<lambda>a b. True) searchGithub
                    (breaker0, githubWorld))))
   = [(''github'', 0, Some 1), (''github-actions'', 1, Some 50),
      (''awesome github tool'', 3, Some 900)]"
  by code_simp

lemma example_markets_listing:
  "map (\<lambda>r. (mr_name r, mr_installs r))
     (pm_marketplaces (fst (getMarketplacesPaginated (\<lambda>a b. True) searchMarkets
                              (breaker0, githubWorld))))
   = [(''awesome github tools'', 40), (''github'', 3)]"
  by code_simp

lemma example_requests:
  "truthy (mo_search searchGithub)" "mo_sort searchGithub = ''relevance''"
  "the (mo_search searchGithub) = ''github''"
  "truthy (opt_search searchPlugins)" "opt_sort searchPlugins = ''relevance''"
  "toLowerCase (the (opt_search searchPlugins)) = ''github''"
  "truthy (ko_search searchMarkets)" "ko_sort searchMarkets = ''relevance''"
  by (simp_all add: searchGithub_def searchPlugins_def searchMarkets_def truthy_def) code_simp

theorem relevance_order_counterexample:
  "truthy (opt_search searchPlugins) \<and> opt_sort searchPlugins = ''relevance''
   \<and> getPluginsPaginated codeCompare (\<lambda>a b. True) noLocalContent searchPlugins githubWorld
       = (Resolved \<lparr>items = map toUnifiedPlugin [githubRow, actionsRow, zenRow, toolRow],
                     total = 4, limit = 50, offset = 0, hasMore = False\<rparr>, githubWorld)
   \<and> map (\<lambda>p. (up_name p, pluginRank ''github'' p, up_stars p))
        (map toUnifiedPlugin [githubRow, actionsRow, zenRow, toolRow])
       = [(''github'', 0, Some 1), (''github-actions'', 1, Some 5),
          (''github-zen'', 1, Some 100), (''awesome github tool'', 2, Some 50)]
   \<and> truthy (ko_search searchMarkets) \<and> ko_sort searchMarkets = ''relevance''
   \<and> map (\<lambda>r. (mr_name r, mr_installs r))
        (pm_marketplaces (fst (getMarketplacesPaginated (\<lambda>a b. True) searchMarkets
                                 (breaker0, githubWorld))))
       = [(''awesome github tools'', 40), (''github'', 3)]"
  by (simp only: example_plugin_listing example_plugin_tiers example_markets_listing
        example_requests simp_thms)

theorem relevance_order_witness:
  "truthy (mo_search searchGithub) \<and> mo_sort searchGithub = ''relevance''
   \<and> map (\<lambda>r. (mcp_name r, mcpTier ''github'' r, mcp_dockerPulls r))
        (items (fst (getMCPServersPaginated noJson (\<lambda>a b. True) searchGithub
                       (breaker0, githubWorld))))
       = [(''github'', 0, Some 1), (''github-actions'', 1, Some 50),
          (''awesome github tool'', 3, Some 900)]
   \<and> sorted_wrt (thenBy (mcpTier ''github'') (coalesceDesc mcp_dockerPulls))
        (items (fst (getMCPServersPaginated noJson (\<lambda>a b. True) searchGithub
                       (breaker0, githubWorld))))
   \<and> consistentCompare codeCompare
   \<and> truthy (opt_search searchPlugins) \<and> opt_sort searchPlugins = ''relevance''
   \<and> getPluginsPaginated codeCompare (\<lambda>a b. True) noLocalContent searchPlugins githubWorld
       = (Resolved \<lparr>items = map toUnifiedPlugin [githubRow, actionsRow, zenRow, toolRow],
                     total = 4, limit = 50, offset = 0, hasMore = False\<rparr>, githubWorld)
   \<and> sorted_wrt
        (\<lambda>x y. pluginRank ''github'' x < pluginRank ''github'' y
                \<or> (pluginRank ''github'' x = pluginRank ''github'' y
                   \<and> codeCompare (up_name x) (up_name y) \<le> 0))
        (map toUnifiedPlugin [githubRow, actionsRow, zenRow, toolRow])
   \<and> ko_sort searchMarkets = ''relevance''
   \<and> sorted_wrt (thenBy (\<lambda>r. - mr_installs r) (descBy mr_stars))
        (pm_marketplaces (fst (getMarketplacesPaginated (\<lambda>a b. True) searchMarkets
                                 (breaker0, githubWorld))))"
proof -
  note inst = relevance_order
         [where mo = searchGithub and parse = noJson and collate = "\<lambda>a b. True"
            and b = breaker0 and w = githubWorld and localeCompare = codeCompare
            and po = searchPlugins and content = noLocalContent
            and page = "\<lparr>items = map toUnifiedPlugin [githubRow, actionsRow, zenRow, toolRow],
                          total = 4, limit = 50, offset = 0, hasMore = False\<rparr>"
            and w' = githubWorld and ko = searchMarkets]
  from inst example_requests
  have mcp: "sorted_wrt (thenBy (mcpTier ''github'') (coalesceDesc mcp_dockerPulls))
        (items (fst (getMCPServersPaginated noJson (\<lambda>a b. True) searchGithub
                       (breaker0, githubWorld))))"
    by (simp only: simp_thms)
  from inst example_requests consistent_codeCompare example_plugin_listing
  have plug: "sorted_wrt
        (\<lambda>x y. pluginRank ''github'' x < pluginRank ''github'' y
                \<or> (pluginRank ''github'' x = pluginRank ''github'' y
                   \<and> codeCompare (up_name x) (up_name y) \<le> 0))
        (items \<lparr>items = map toUnifiedPlugin [githubRow, actionsRow, zenRow, toolRow],
                 total = 4, limit = 50, offset = 0, hasMore = False\<rparr>)"
    by (simp only: simp_thms)
  from inst example_requests
  have market: "sorted_wrt (thenBy (\<lambda>r. - mr_installs r) (descBy mr_stars))
        (pm_marketplaces (fst (getMarketplacesPaginated (\<lambda>a b. True) searchMarkets
                                 (breaker0, githubWorld))))"
    by (simp only: simp_thms)
  from plug have plug': "sorted_wrt
        (\<lambda>x y. pluginRank ''github'' x < pluginRank ''github'' y
                \<or> (pluginRank ''github'' x = pluginRank ''github'' y
                   \<and> codeCompare (up_name x) (up_name y) \<le> 0))
        (map toUnifiedPlugin [githubRow, actionsRow, zenRow, toolRow])"
    by (simp only: page.simps)
  from mcp plug' market show ?thesis
    by (simp only: example_requests example_mcp_listing example_plugin_listing
          consistent_codeCompare simp_thms)
qed

end
